(* ===== verification/Prelude.thy ===== *)
theory Prelude
  imports Complex_Main "HOL-Library.Word" "HOL-Library.Multiset" "HOL-Library.Sublist"
begin

text \<open>
  Shared vocabulary of the development: the Python built-ins the handlers of
  \<open>src/main.py\<close> rely on (\<open>sum\<close> over a generator, the \<open>x or 0\<close> default,
  truthiness of optional strings), ASCII case folding as used by the
  case-insensitive search, and the generic list lemmas the component theories
  share. The collection \<open>model_simps\<close> gathers the evaluation equations of the
  model so that witnesses and component proofs can unfold them together.
\<close>

named_theorems model_simps "evaluation equations of the model"

section \<open>Python built-ins\<close>

text \<open>
  \<open>sum(g)\<close> starts from the integer \<open>0\<close> and adds the elements of \<open>g\<close> from left
  to right. The left fold is kept as it is, so that the definition is also the
  code's evaluation order for a non-associative arithmetic such as IEEE floats
  (CPython up to 3.11; CPython 3.12 sums floats with compensated summation).
\<close>

definition py_sum :: "'a::{zero,plus} list \<Rightarrow> 'a" where
  "py_sum xs = foldl (+) 0 xs"

text \<open>\<open>x or 0\<close> for an optional number: \<open>None\<close> and a zero value are falsy.\<close>

definition py_or_zero :: "'a::zero option \<Rightarrow> 'a" where
  "py_or_zero x = (case x of None \<Rightarrow> 0 | Some v \<Rightarrow> (if v = 0 then 0 else v))"

text \<open>\<open>if s:\<close> for an \<open>Optional[str]\<close> query parameter: \<open>None\<close> and \<open>''''\<close> are falsy.\<close>

definition py_truthy_str :: "string option \<Rightarrow> bool" where
  "py_truthy_str x = (case x of None \<Rightarrow> False | Some s \<Rightarrow> s \<noteq> [])"

section \<open>ASCII case folding\<close>

definition lower_char :: "char \<Rightarrow> char" where
  "lower_char c = (let n = of_char c :: nat in
     if 65 \<le> n \<and> n \<le> 90 then char_of (n + 32) else c)"

definition lower_str :: "string \<Rightarrow> string" where
  "lower_str s = map lower_char s"

text \<open>Case-insensitive substring containment: the \<open>contains\<close> of the spec.\<close>

definition ci_contains :: "string \<Rightarrow> string \<Rightarrow> bool" where
  "ci_contains q s = sublist (lower_str q) (lower_str s)"

section \<open>Python dictionaries\<close>

text \<open>
  A Python \<open>dict\<close> keeps its keys in insertion order, and assigning to an
  existing key keeps its position. It is an association list with distinct
  keys; \<open>dict_get\<close> is \<open>d.get(k)\<close>, \<open>dict_set\<close> is \<open>d[k] = v\<close>.
\<close>

definition dict_get :: "('k \<times> 'v) list \<Rightarrow> 'k \<Rightarrow> 'v option" where
  "dict_get d k = map_of d k"

definition dict_has :: "('k \<times> 'v) list \<Rightarrow> 'k \<Rightarrow> bool" where
  "dict_has d k = (k \<in> set (map fst d))"

fun dict_set :: "('k \<times> 'v) list \<Rightarrow> 'k \<Rightarrow> 'v \<Rightarrow> ('k \<times> 'v) list" where
  "dict_set [] k v = [(k, v)]"
| "dict_set ((k', v') # d) k v = (if k' = k then (k, v) # d else (k', v') # dict_set d k v)"

text \<open>\<open>str(n)\<close> for a natural number: its decimal digits.\<close>

fun dec_str :: "nat \<Rightarrow> string" where
  "dec_str n = (if n < 10 then [char_of (48 + n)] else dec_str (n div 10) @ [char_of (48 + n mod 10)])"

declare dec_str.simps [simp del]

text \<open>Decimal digits and the value of a digit string.\<close>

definition is_digit :: "char \<Rightarrow> bool" where
  "is_digit c = (let n = of_char c :: nat in 48 \<le> n \<and> n \<le> 57)"

definition digits_val :: "string \<Rightarrow> nat" where
  "digits_val ds = foldl (\<lambda>n d. 10 * n + (of_char d - 48)) 0 ds"

declare dict_get_def [model_simps] dict_has_def [model_simps] dec_str.simps [model_simps]
  py_or_zero_def [model_simps] py_truthy_str_def [model_simps]
  lower_str_def [model_simps] ci_contains_def [model_simps]

section \<open>Generic lemmas\<close>

lemma foldl_plus_sum_list:
  "foldl (+) a xs = a + sum_list (xs :: 'a::monoid_add list)"
  by (induction xs arbitrary: a) (simp_all add: add.assoc)

lemma py_sum_sum_list [simp]:
  "py_sum (xs :: 'a::monoid_add list) = sum_list xs"
  by (simp add: py_sum_def foldl_plus_sum_list)

lemma py_or_zero_eq [simp]:
  "py_or_zero x = (case x of None \<Rightarrow> 0 | Some v \<Rightarrow> v)"
  by (simp add: py_or_zero_def split: option.split)

lemma py_truthy_str_Some [simp]:
  "py_truthy_str (Some s) \<longleftrightarrow> s \<noteq> []" and
  py_truthy_str_None [simp]: "\<not> py_truthy_str None"
  by (simp_all add: py_truthy_str_def)

lemma length_lower_str [simp]: "length (lower_str s) = length s"
  by (simp add: lower_str_def)

lemma lower_str_append [simp]: "lower_str (xs @ ys) = lower_str xs @ lower_str ys"
  by (simp add: lower_str_def)

lemma lower_str_Cons [simp]: "lower_str (c # s) = lower_char c # lower_str s"
  by (simp add: lower_str_def)

lemma lower_str_Nil [simp]: "lower_str [] = []"
  by (simp add: lower_str_def)

lemma dict_get_set_same [simp]: "dict_get (dict_set d k v) k = Some v"
  by (induction d) (auto simp: dict_get_def)

lemma dict_get_set_other [simp]: "k' \<noteq> k \<Longrightarrow> dict_get (dict_set d k v) k' = dict_get d k'"
  by (induction d) (auto simp: dict_get_def)

lemma dict_get_set: "dict_get (dict_set d k v) k' = (if k' = k then Some v else dict_get d k')"
  by simp

lemma set_keys_dict_set [simp]: "fst ` set (dict_set d k v) = insert k (fst ` set d)"
proof (induction d)
  case Nil
  then show ?case by simp
next
  case (Cons p d)
  then show ?case by (cases p) auto
qed

lemma keys_dict_set:
  "map fst (dict_set d k v) = (if dict_has d k then map fst d else map fst d @ [k])"
  by (induction d) (force simp: dict_has_def)+

lemma distinct_keys_dict_set:
  "distinct (map fst d) \<Longrightarrow> distinct (map fst (dict_set d k v))"
  by (simp add: keys_dict_set dict_has_def)

lemma dict_has_iff_get: "dict_has d k \<longleftrightarrow> dict_get d k \<noteq> None"
  by (simp add: dict_has_def dict_get_def map_of_eq_None_iff image_iff)

lemma dict_has_set [simp]: "dict_has (dict_set d k v) k' \<longleftrightarrow> k' = k \<or> dict_has d k'"
  by (simp add: dict_has_def)

lemma set_dict_set_subset: "set (dict_set d k v) \<subseteq> insert (k, v) (set d)"
proof (induction d)
  case Nil
  then show ?case by simp
next
  case (Cons p d)
  then show ?case by (cases p) auto
qed

lemma ci_contains_refl [simp]: "ci_contains s s"
  by (simp add: ci_contains_def)

lemma ci_contains_Nil [simp]: "ci_contains [] s"
  by (simp add: ci_contains_def)

section \<open>Decimal strings\<close>

lemma digits_val_snoc [simp]: "digits_val (ds @ [d]) = 10 * digits_val ds + (of_char d - 48)"
  by (simp add: digits_val_def)

lemma dec_str_digits: "list_all is_digit (dec_str n) \<and> digits_val (dec_str n) = n"
proof (induction n rule: dec_str.induct)
  case (1 n)
  show ?case
  proof (cases "n < 10")
    case True
    then show ?thesis by (simp add: dec_str.simps [of n] is_digit_def digits_val_def)
  next
    case False
    with "1.IH" show ?thesis by (simp add: dec_str.simps [of n] is_digit_def)
  qed
qed

lemma dec_str_not_Nil [simp]: "dec_str n \<noteq> []"
  by (subst dec_str.simps) simp

end
