(* ===== verification/ObjectId.thy ===== *)
theory ObjectId
  imports Prelude
begin

text \<open>
  The store's native identifier, \<open>bson.ObjectId\<close>: twelve bytes, shown to
  clients as \<open>str(oid)\<close>, 24 lower-case hexadecimal digits, and rebuilt from a
  client's string by \<open>ObjectId(product_id)\<close> in \<open>get_product\<close>
  (\<open>src/main.py\<close> line 69). For a string \<open>ObjectId(s)\<close> raises \<open>InvalidId\<close>
  with the message \<open>"%r is not a valid ObjectId, ..." % s\<close> unless \<open>s\<close> has 24
  characters and \<open>bytes.fromhex(s)\<close> succeeds; \<open>bytes.fromhex\<close> skips ASCII
  whitespace between byte pairs, so a 24-character string with spaces yields
  fewer than twelve bytes (a malformed identifier, outside the model), and the
  twelve-byte case is exactly the strings of 24 hexadecimal digits of either
  case. The identifier is a \<open>96 word\<close>; the digit list is the base-16
  expansion of its unsigned value, most significant first. The library is not
  under \<open>src/\<close>; this theory follows its documented behaviour.
\<close>

type_synonym oid = "96 word"

definition hex_char :: "nat \<Rightarrow> char" where
  "hex_char d = (if d < 10 then char_of (48 + d) else char_of (87 + d))"

text \<open>\<open>repr(s)\<close> of a \<open>str\<close> whose characters are code points below 256: single
  quotes unless \<open>s\<close> contains a single quote and no double quote; the quote
  and the backslash escaped; tab, newline and carriage return as \<open>\\t \\n \\r\<close>;
  the other non-printable code points (controls, DEL, U+0080 to U+00A0 and the
  soft hyphen U+00AD) as \<open>\\xhh\<close>.\<close>

definition repr_char :: "char \<Rightarrow> char \<Rightarrow> string" where
  "repr_char quote c =
     (let n = of_char c :: nat in
      if c = quote \<or> c = CHR 0x5C then [CHR 0x5C, c]
      else if c = CHR 0x09 then [CHR 0x5C, CHR ''t'']
      else if c = CHR 0x0A then [CHR 0x5C, CHR ''n'']
      else if c = CHR 0x0D then [CHR 0x5C, CHR ''r'']
      else if n < 32 \<or> (127 \<le> n \<and> n \<le> 160) \<or> n = 173
      then [CHR 0x5C, CHR ''x'', hex_char (n div 16), hex_char (n mod 16)]
      else [c])"

definition py_repr :: "string \<Rightarrow> string" where
  "py_repr s =
     (let quote = (if CHR 0x27 \<in> set s \<and> CHR 0x22 \<notin> set s then CHR 0x22 else CHR 0x27)
      in quote # concat (map (repr_char quote) s) @ [quote])"

definition hex_digit_val :: "char \<Rightarrow> nat option" where
  "hex_digit_val c = (let n = of_char c :: nat in
     if 48 \<le> n \<and> n \<le> 57 then Some (n - 48)
     else if 97 \<le> n \<and> n \<le> 102 then Some (n - 87)
     else if 65 \<le> n \<and> n \<le> 70 then Some (n - 55)
     else None)"

fun hex_digits :: "nat \<Rightarrow> nat \<Rightarrow> nat list" where
  "hex_digits 0 k = []"
| "hex_digits (Suc n) k = hex_digits n (k div 16) @ [k mod 16]"

definition digits_value :: "nat list \<Rightarrow> nat" where
  "digits_value ds = foldl (\<lambda>acc d. 16 * acc + d) 0 ds"

text \<open>\<open>bytes.fromhex(s)\<close>: ASCII whitespace is skipped before each byte, each
  byte is two hexadecimal digits, anything else is a \<open>ValueError\<close> (\<open>None\<close>).\<close>

definition ascii_space :: "char \<Rightarrow> bool" where
  "ascii_space c = ((of_char c :: nat) \<in> {9, 10, 11, 12, 13, 32})"

fun py_fromhex :: "string \<Rightarrow> nat list option" where
  "py_fromhex [] = Some []"
| "py_fromhex [c] = (if ascii_space c then Some [] else None)"
| "py_fromhex (c # d # cs) =
     (if ascii_space c then py_fromhex (d # cs)
      else case (hex_digit_val c, hex_digit_val d) of
        (Some t, Some b) \<Rightarrow> map_option (Cons (16 * t + b)) (py_fromhex cs)
      | _ \<Rightarrow> None)"

text \<open>\<open>str(oid)\<close>: \<open>binascii.hexlify\<close> of the twelve bytes.\<close>

definition oid_str :: "oid \<Rightarrow> string" where
  "oid_str w = map hex_char (hex_digits 24 (unat w))"

text \<open>\<open>ObjectId(s)\<close> for a string \<open>s\<close> that gives a well-formed identifier:
  24 characters that \<open>bytes.fromhex\<close> reads as twelve bytes, which are then
  24 hexadecimal digits (lemma \<open>oid_parse_fromhex\<close>).\<close>

definition oid_parse :: "string \<Rightarrow> oid option" where
  "oid_parse s =
     (if length s = 24
      then map_option (\<lambda>ds. word_of_nat (digits_value ds)) (those (map hex_digit_val s))
      else None)"

definition invalid_id_msg :: "string \<Rightarrow> string" where
  "invalid_id_msg s =
     py_repr s @ '' is not a valid ObjectId, it must be a 12-byte input or a 24-character hex string''"

declare py_repr_def [model_simps] repr_char_def [model_simps] ascii_space_def [model_simps]
  invalid_id_msg_def [model_simps] oid_str_def [model_simps] oid_parse_def [model_simps] hex_char_def [model_simps]
  hex_digit_val_def [model_simps] digits_value_def [model_simps]

section \<open>Digits\<close>

lemma digits_value_snoc [simp]: "digits_value (ds @ [d]) = 16 * digits_value ds + d"
  by (simp add: digits_value_def)

lemma length_hex_digits [simp]: "length (hex_digits n k) = n"
  by (induction n arbitrary: k) simp_all

lemma hex_digits_lt: "d \<in> set (hex_digits n k) \<Longrightarrow> d < 16"
  by (induction n arbitrary: k) auto

lemma digits_value_hex_digits: "digits_value (hex_digits n k) = k mod 16 ^ n"
proof (induction n arbitrary: k)
  case 0
  then show ?case by (simp add: digits_value_def)
next
  case (Suc n)
  have "16 * (k div 16 mod 16 ^ n) + k mod 16 = k mod (16 * 16 ^ n)"
    by (simp add: mod_mult2_eq algebra_simps)
  with Suc show ?case by (simp add: algebra_simps)
qed

lemma digits_value_bound:
  "(\<And>d. d \<in> set ds \<Longrightarrow> d < 16) \<Longrightarrow> digits_value ds < 16 ^ length ds"
proof (induction ds rule: rev_induct)
  case Nil
  then show ?case by (simp add: digits_value_def)
next
  case (snoc d ds)
  then have "digits_value ds < 16 ^ length ds" and "d < 16" by auto
  then have "16 * digits_value ds + d < 16 * 16 ^ length ds" by linarith
  then show ?case by simp
qed

lemma hex_digits_digits_value:
  "(\<And>d. d \<in> set ds \<Longrightarrow> d < 16) \<Longrightarrow> hex_digits (length ds) (digits_value ds) = ds"
proof (induction ds rule: rev_induct)
  case Nil
  then show ?case by simp
next
  case (snoc d ds)
  then have "hex_digits (length ds) (digits_value ds) = ds" and "d < 16" by auto
  then show ?case by simp
qed

section \<open>Characters\<close>

lemma hex_digit_val_hex_char: "d < 16 \<Longrightarrow> hex_digit_val (hex_char d) = Some d"
  by (auto simp: hex_char_def hex_digit_val_def Let_def)

lemma hex_digit_val_lt: "hex_digit_val c = Some d \<Longrightarrow> d < 16"
  by (auto simp: hex_digit_val_def Let_def split: if_splits)

lemma hex_char_hex_digit_val:
  "hex_digit_val c = Some d \<Longrightarrow> hex_char d = lower_char c"
  by (auto simp: hex_digit_val_def hex_char_def lower_char_def Let_def split: if_splits)

lemma those_map_Some: "those (map (\<lambda>x. Some (f x)) xs) = Some (map f xs)"
  by (induction xs) simp_all

lemma those_Some_iff:
  "those xs = Some ys \<longleftrightarrow> xs = map Some ys"
proof (induction xs arbitrary: ys)
  case Nil
  then show ?case by auto
next
  case (Cons x xs)
  then show ?case by (cases x; cases ys) (auto split: option.splits)
qed

lemma unat_lt_16_pow_24: "unat (w :: oid) < 16 ^ 24"
proof -
  have "unat w < 2 ^ LENGTH(96)" by (rule unsigned_less)
  then show ?thesis by simp
qed


section \<open>Round trip\<close>

lemma length_oid_str [simp]: "length (oid_str w) = 24"
  by (simp add: oid_str_def)

lemma oid_parse_oid_str [simp]: "oid_parse (oid_str w) = Some w"
proof -
  have "\<And>d. d \<in> set (hex_digits 24 (unat w)) \<Longrightarrow> d < 16"
    by (rule hex_digits_lt)
  then have "map hex_digit_val (map hex_char (hex_digits 24 (unat w))) =
             map Some (hex_digits 24 (unat w))"
    by (simp add: hex_digit_val_hex_char)
  then have "those (map hex_digit_val (oid_str w)) = Some (hex_digits 24 (unat w))"
    by (simp add: oid_str_def those_Some_iff)
  moreover have "digits_value (hex_digits 24 (unat w)) = unat w"
    using unat_lt_16_pow_24 [of w] by (simp add: digits_value_hex_digits)
  ultimately show ?thesis by (simp add: oid_parse_def)
qed

lemma oid_parse_SomeD:
  assumes "oid_parse s = Some w"
  shows "oid_str w = lower_str s"
proof -
  from assms obtain ds where len: "length s = 24"
    and th: "those (map hex_digit_val s) = Some ds"
    and w: "w = word_of_nat (digits_value ds)"
    by (auto simp: oid_parse_def split: if_splits)
  from th have m: "map hex_digit_val s = map Some ds"
    by (simp add: those_Some_iff)
  then have lds: "length ds = 24"
    using len by (metis length_map)
  have lt: "\<And>d. d \<in> set ds \<Longrightarrow> d < 16"
  proof -
    fix d assume "d \<in> set ds"
    then have "Some d \<in> set (map hex_digit_val s)" using m by simp
    then obtain c where "c \<in> set s" and "hex_digit_val c = Some d" by auto
    then show "d < 16" using hex_digit_val_lt by blast
  qed
  have "digits_value ds < 16 ^ length ds"
    using lt by (rule digits_value_bound)
  then have "digits_value ds < 16 ^ 24" using lds by simp
  then have "unat w = digits_value ds"
    by (simp add: w unat_of_nat take_bit_nat_eq_self_iff)
  then have "oid_str w = map hex_char ds"
    using hex_digits_digits_value [of ds] lt lds by (simp add: oid_str_def)
  also have "\<dots> = lower_str s"
    using m
  proof (induction s arbitrary: ds)
    case Nil
    then show ?case by simp
  next
    case (Cons c s)
    then obtain d ds' where "ds = d # ds'" and "hex_digit_val c = Some d"
      and "map hex_digit_val s = map Some ds'"
      by (cases ds) auto
    with Cons.IH show ?case by (simp add: hex_char_hex_digit_val)
  qed
  finally show ?thesis .
qed

lemma oid_str_inj: "oid_str v = oid_str w \<longleftrightarrow> v = w"
  by (metis oid_parse_oid_str option.inject)

section \<open>bytes.fromhex\<close>

lemma hex_not_space: "hex_digit_val c = Some d \<Longrightarrow> \<not> ascii_space c"
  by (auto simp: hex_digit_val_def ascii_space_def Let_def split: if_splits)

lemma py_fromhex_length:
  "py_fromhex s = Some bs \<Longrightarrow>
   2 * length bs \<le> length s \<and> (2 * length bs = length s \<longrightarrow> list_all (\<lambda>c. hex_digit_val c \<noteq> None) s)"
proof (induction s arbitrary: bs rule: py_fromhex.induct)
  case (3 c d cs)
  show ?case
  proof (cases "ascii_space c")
    case True
    with "3.prems" have "py_fromhex (d # cs) = Some bs" by simp
    with "3.IH"(1) True show ?thesis by fastforce
  next
    case False
    with "3.prems" obtain t b bs' where "hex_digit_val c = Some t" "hex_digit_val d = Some b"
      "py_fromhex cs = Some bs'" "bs = (16 * t + b) # bs'"
      by (auto split: option.splits)
    with "3.IH"(2) False show ?thesis by fastforce
  qed
qed (auto split: if_splits)

lemma py_fromhex_hex:
  "list_all (\<lambda>c. hex_digit_val c \<noteq> None) s \<Longrightarrow> even (length s) \<Longrightarrow>
   \<exists>bs. py_fromhex s = Some bs \<and> 2 * length bs = length s"
proof (induction s rule: py_fromhex.induct)
  case (3 c d cs)
  then obtain t b where tb: "hex_digit_val c = Some t" "hex_digit_val d = Some b" by auto
  with "3.prems" obtain bs where "py_fromhex cs = Some bs" "2 * length bs = length cs"
    using "3.IH"(2) [OF hex_not_space [OF tb(1)] refl] by (auto simp: tb)
  with tb hex_not_space [OF tb(1)] show ?case by simp
qed simp_all

lemma those_map_defined: "those (map f xs) \<noteq> None \<longleftrightarrow> list_all (\<lambda>x. f x \<noteq> None) xs"
  by (induction xs) (auto split: option.splits)

text \<open>The strings \<open>ObjectId\<close> accepts as twelve bytes are those \<open>oid_parse\<close> reads.\<close>

lemma oid_parse_fromhex:
  "oid_parse s \<noteq> None \<longleftrightarrow> length s = 24 \<and> (\<exists>bs. py_fromhex s = Some bs \<and> length bs = 12)"
proof -
  have "oid_parse s \<noteq> None \<longleftrightarrow> length s = 24 \<and> list_all (\<lambda>c. hex_digit_val c \<noteq> None) s"
    using those_map_defined [of hex_digit_val s] by (auto simp: oid_parse_def)
  also have "\<dots> \<longleftrightarrow> length s = 24 \<and> (\<exists>bs. py_fromhex s = Some bs \<and> length bs = 12)"
    using py_fromhex_length [of s] py_fromhex_hex [of s] by fastforce
  finally show ?thesis .
qed

end
