(* ===== verification/Json.thy ===== *)
theory Json
  imports ObjectId
begin

text \<open>
  The values that flow between the handlers of \<open>src/main.py\<close>, the pydantic
  models and the document store: JSON request and response bodies and BSON
  documents. A document (a Python \<open>dict\<close> or a BSON document) is an association
  list with distinct keys in insertion order; the dictionary operations are the
  ones of the prelude. A Python float is represented by its exact rational
  value, so infinities and NaN are not values of the model.
\<close>

datatype bson =
    VNull
  | VBool bool
  | VInt int
  | VFloat rat
  | VStr string
  | VOid oid
  | VList "bson list"
  | VDoc "(string \<times> bson) list"

type_synonym doc = "(string \<times> bson) list"

text \<open>
  \<open>str(v)\<close> on the value of an \<open>_id\<close> field (lines 51 and 72 of
  \<open>src/main.py\<close>). Every document the store holds has an ObjectId \<open>_id\<close>
  (the store invariant of theory \<open>Store\<close>), so only the scalar cases are reached;
  floats, lists and documents are rendered as the empty string, which no
  theorem relies on.
\<close>

fun py_str :: "bson \<Rightarrow> string" where
  "py_str (VOid x) = oid_str x"
| "py_str (VStr s) = s"
| "py_str (VInt i) = (if i < 0 then ''-'' @ dec_str (nat (- i)) else dec_str (nat i))"
| "py_str (VBool b) = (if b then ''True'' else ''False'')"
| "py_str VNull = ''None''"
| "py_str _ = []"

text \<open>
  The values of a JSON request body: no ObjectId can occur in one. The
  reachable states of theory \<open>App\<close> only receive such bodies. Mutual
  recursion through the lists of the nested datatype.
\<close>

fun json_val :: "bson \<Rightarrow> bool"
  and json_vals :: "bson list \<Rightarrow> bool"
  and json_doc :: "doc \<Rightarrow> bool" where
  "json_val (VOid _) = False"
| "json_val (VList vs) = json_vals vs"
| "json_val (VDoc kvs) = json_doc kvs"
| "json_val VNull = True"
| "json_val (VBool _) = True"
| "json_val (VInt _) = True"
| "json_val (VFloat _) = True"
| "json_val (VStr _) = True"
| "json_vals [] = True"
| "json_vals (v # vs) = (json_val v \<and> json_vals vs)"
| "json_doc [] = True"
| "json_doc (kv # kvs) = (json_val (snd kv) \<and> json_doc kvs)"

lemma json_vals_iff [simp]: "json_vals vs \<longleftrightarrow> list_all json_val vs"
  by (induction vs) simp_all

lemma json_doc_iff: "json_doc kvs \<longleftrightarrow> list_all (\<lambda>kv. json_val (snd kv)) kvs"
  by (induction kvs) simp_all

lemma json_doc_dict_set [simp]:
  "json_doc d \<Longrightarrow> json_val v \<Longrightarrow> json_doc (dict_set d k v)"
  by (induction d k v rule: dict_set.induct) auto

end
