(* ===== verification/Regex.thy ===== *)
theory Regex
  imports Prelude
begin

text \<open>
  The \<open>$regex\<close> operator of the document store, which \<open>list_products\<close>
  (\<open>src/main.py\<close> lines 43--47) uses for its text search with option \<open>"i"\<close>.
  The store compiles the pattern with PCRE and searches it, unanchored, in the
  string value of the field. Modelled here:
  \<^item> the pattern syntax \<open>rx\<close> of the PCRE fragment made of literal characters,
    escaped punctuation (\<open>\.\<close>), the escapes \<open>\n \t \r \f \a \e\<close>, the
    class escapes \<open>\d \D \w \W \s \S\<close>, character classes \<open>[...]\<close> and
    \<open>[^...]\<close> with ranges and escapes, \<open>.\<close>, the anchors \<open>^\<close> and \<open>$\<close>,
    groups, alternation, the quantifiers \<open>*\<close>, \<open>+\<close>, \<open>?\<close>, \<open>{m}\<close>,
    \<open>{m,}\<close>, \<open>{m,n}\<close> (a \<open>{\<close> that does not start one is a literal), their
    lazy forms (a \<open>?\<close> suffix, which does not change whether a match exists) and
    the possessive \<open>*+\<close> and \<open>++\<close> of a one-character item;
  \<^item> a declarative semantics \<open>mt\<close>: \<open>mt ci r s i j\<close> holds when \<open>r\<close> matches
    \<open>s\<close> from position \<open>i\<close> to position \<open>j\<close>, case-insensitively when \<open>ci\<close>;
  \<^item> an executable matcher \<open>ends\<close> (the end positions of the matches from a
    start position) proved equal to \<open>mt\<close>, and the search \<open>rx_find\<close> over all
    start positions;
  \<^item> the parser \<open>rx_compile\<close> from the pattern string, with PCRE2's syntax
    errors as \<open>RxSyntax\<close> and the syntax outside the fragment (other letter
    escapes, back references, POSIX classes, group extensions, quantified
    assertions, other possessive forms and a quantifier after a quantifier)
    reported as \<open>RxUnsupported\<close>.
  Without the multiline and dotall options, \<open>.\<close> does not match a newline,
  \<open>^\<close> matches at the start only and \<open>$\<close> at the end or before a final
  newline. Strings are byte strings and case folding is ASCII folding, so the
  model agrees with PCRE's UTF-8 mode on ASCII text.
\<close>

text \<open>\<open>RClass neg rs\<close> is a character class, negated when \<open>neg\<close>, given by
  ranges of character codes; \<open>RPoss r\<close> is the possessive star \<open>r*+\<close> of a
  one-character item \<open>r\<close>, which takes the longest run and never gives back.\<close>

datatype rx = REps | RLit char | RAny | RClass bool "(char \<times> char) list" | RBol | REol
  | RSeq rx rx | RAlt rx rx | RStar rx | RPoss rx

definition newline :: char where
  "newline = CHR 0x0A"

definition char_eq :: "bool \<Rightarrow> char \<Rightarrow> char \<Rightarrow> bool" where
  "char_eq ci c d = (if ci then lower_char c = lower_char d else c = d)"

definition upper_char :: "char \<Rightarrow> char" where
  "upper_char c = (let n = of_char c :: nat in if 97 \<le> n \<and> n \<le> 122 then char_of (n - 32) else c)"

definition in_ranges :: "(char \<times> char) list \<Rightarrow> char \<Rightarrow> bool" where
  "in_ranges rs c = list_ex (\<lambda>(a, b). (of_char a :: nat) \<le> of_char c \<and> (of_char c :: nat) \<le> of_char b) rs"

text \<open>Caseless matching of a class: the character or its other case is in the
  class, and the negation applies after the case closure.\<close>

definition class_match :: "bool \<Rightarrow> bool \<Rightarrow> (char \<times> char) list \<Rightarrow> char \<Rightarrow> bool" where
  "class_match ci neg rs c =
     (neg \<noteq> (in_ranges rs c \<or> ci \<and> (in_ranges rs (lower_char c) \<or> in_ranges rs (upper_char c))))"

text \<open>The one-character items and the characters they match.\<close>

fun single :: "bool \<Rightarrow> rx \<Rightarrow> char \<Rightarrow> bool" where
  "single ci (RLit d) c = char_eq ci d c"
| "single ci RAny c = (c \<noteq> newline)"
| "single ci (RClass neg rs) c = class_match ci neg rs c"
| "single ci _ c = False"

inductive mt :: "bool \<Rightarrow> rx \<Rightarrow> string \<Rightarrow> nat \<Rightarrow> nat \<Rightarrow> bool" where
  eps: "mt ci REps s i i"
| lit: "i < length s \<Longrightarrow> char_eq ci c (s ! i) \<Longrightarrow> mt ci (RLit c) s i (Suc i)"
| any: "i < length s \<Longrightarrow> s ! i \<noteq> newline \<Longrightarrow> mt ci RAny s i (Suc i)"
| cls: "i < length s \<Longrightarrow> class_match ci neg rs (s ! i) \<Longrightarrow> mt ci (RClass neg rs) s i (Suc i)"
| bol: "mt ci RBol s 0 0"
| eol: "i = length s \<or> (Suc i = length s \<and> s ! i = newline) \<Longrightarrow> mt ci REol s i i"
| seq: "mt ci r1 s i j \<Longrightarrow> mt ci r2 s j k \<Longrightarrow> mt ci (RSeq r1 r2) s i k"
| alt1: "mt ci r1 s i j \<Longrightarrow> mt ci (RAlt r1 r2) s i j"
| alt2: "mt ci r2 s i j \<Longrightarrow> mt ci (RAlt r1 r2) s i j"
| star0: "mt ci (RStar r) s i i"
| star: "mt ci r s i j \<Longrightarrow> mt ci (RStar r) s j k \<Longrightarrow> mt ci (RStar r) s i k"
| poss: "i \<le> j \<Longrightarrow> j \<le> length s \<Longrightarrow> (\<forall>k. i \<le> k \<and> k < j \<longrightarrow> single ci r (s ! k)) \<Longrightarrow>
         j = length s \<or> \<not> single ci r (s ! j) \<Longrightarrow> mt ci (RPoss r) s i j"

text \<open>The end of the longest run of characters matched by a one-character item.\<close>

function run_end :: "bool \<Rightarrow> rx \<Rightarrow> string \<Rightarrow> nat \<Rightarrow> nat" where
  "run_end ci r s i = (if i < length s \<and> single ci r (s ! i) then run_end ci r s (Suc i) else i)"
  by pat_completeness auto
termination
  by (relation "measure (\<lambda>(ci, r, s, i). length s - i)") auto

text \<open>The matcher: all end positions of matches of \<open>r\<close> starting at \<open>i\<close>. The
  iteration of a star only continues from positions that made progress, which is
  both PCRE's rule for empty iterations and the termination argument.\<close>

function ends :: "bool \<Rightarrow> rx \<Rightarrow> string \<Rightarrow> nat \<Rightarrow> nat list"
  and star_ends :: "bool \<Rightarrow> rx \<Rightarrow> string \<Rightarrow> nat \<Rightarrow> nat list" where
  "ends ci REps s i = [i]"
| "ends ci (RLit c) s i = (if i < length s \<and> char_eq ci c (s ! i) then [Suc i] else [])"
| "ends ci RAny s i = (if i < length s \<and> s ! i \<noteq> newline then [Suc i] else [])"
| "ends ci (RClass neg rs) s i = (if i < length s \<and> class_match ci neg rs (s ! i) then [Suc i] else [])"
| "ends ci RBol s i = (if i = 0 then [0] else [])"
| "ends ci REol s i = (if i = length s \<or> (Suc i = length s \<and> s ! i = newline) then [i] else [])"
| "ends ci (RSeq r1 r2) s i = concat (map (ends ci r2 s) (ends ci r1 s i))"
| "ends ci (RAlt r1 r2) s i = ends ci r1 s i @ ends ci r2 s i"
| "ends ci (RStar r) s i = star_ends ci r s i"
| "ends ci (RPoss r) s i = (if i \<le> length s then [run_end ci r s i] else [])"
| "star_ends ci r s i =
     i # concat (map (star_ends ci r s) (filter (\<lambda>j. i < j \<and> j \<le> length s) (ends ci r s i)))"
  by pat_completeness auto
termination
  by (relation "measures
        [\<lambda>x. case x of Inl (ci, r, s, i) \<Rightarrow> 2 * size r | Inr (ci, r, s, i) \<Rightarrow> 2 * size r + 1,
         \<lambda>x. case x of Inl _ \<Rightarrow> 0 | Inr (ci, r, s, i) \<Rightarrow> length s - i]") auto

text \<open>Unanchored search, as \<open>pcre_exec\<close> tries every start position.\<close>

definition rx_find :: "bool \<Rightarrow> rx \<Rightarrow> string \<Rightarrow> bool" where
  "rx_find ci r s = list_ex (\<lambda>i. ends ci r s i \<noteq> []) [0..<Suc (length s)]"

datatype rx_error = RxSyntax string | RxUnsupported string

datatype last_item = NoItem | Atom | Anchor | Quantified | Lazy

type_synonym frame = "rx list \<times> rx list \<times> last_item"

definition seq_of :: "rx list \<Rightarrow> rx" where
  "seq_of rs = foldr RSeq rs REps"

definition close_group :: "rx list \<Rightarrow> rx list \<Rightarrow> rx" where
  "close_group alts items = foldl (\<lambda>acc a. RAlt a acc) (seq_of (rev items)) alts"

definition is_alnum :: "char \<Rightarrow> bool" where
  "is_alnum c = (let n = of_char c :: nat in
     (48 \<le> n \<and> n \<le> 57) \<or> (65 \<le> n \<and> n \<le> 90) \<or> (97 \<le> n \<and> n \<le> 122))"

text \<open>The class escapes \<open>\d \D \w \W \s \S\<close> (\<open>\s\<close> includes the
  vertical tab, as in PCRE2), and the escapes of control characters.\<close>

definition escape_class :: "char \<Rightarrow> (char \<times> char) list option" where
  "escape_class d =
     (if d = CHR ''d'' then Some [(CHR ''0'', CHR ''9'')]
      else if d = CHR ''D'' then Some [(CHR 0x00, CHR ''/''), (CHR '':'', CHR 0xFF)]
      else if d = CHR ''w'' then Some [(CHR ''0'', CHR ''9''), (CHR ''A'', CHR ''Z''), (CHR ''_'', CHR ''_''), (CHR ''a'', CHR ''z'')]
      else if d = CHR ''W'' then
        Some [(CHR 0x00, CHR ''/''), (CHR '':'', CHR ''@''), (CHR ''['', CHR ''^''), (CHR 0x60, CHR 0x60), (CHR ''{'', CHR 0xFF)]
      else if d = CHR ''s'' then Some [(CHR 0x09, CHR 0x0D), (CHR '' '', CHR '' '')]
      else if d = CHR ''S'' then Some [(CHR 0x00, CHR 0x08), (CHR 0x0E, CHR 0x1F), (CHR ''!'', CHR 0xFF)]
      else None)"

definition escape_char :: "char \<Rightarrow> char option" where
  "escape_char d =
     (if d = CHR ''n'' then Some (CHR 0x0A) else if d = CHR ''t'' then Some (CHR 0x09)
      else if d = CHR ''r'' then Some (CHR 0x0D) else if d = CHR ''f'' then Some (CHR 0x0C)
      else if d = CHR ''a'' then Some (CHR 0x07) else if d = CHR ''e'' then Some (CHR 0x1B)
      else None)"

text \<open>One item of a character class, starting with \<open>c\<close> and followed by
  \<open>cs\<close>: a class escape (its ranges) or a single character, with the number of
  characters of \<open>cs\<close> it consumes. In a class, \<open>\b\<close> is the backspace.\<close>

definition class_atom :: "char \<Rightarrow> string \<Rightarrow> rx_error + (((char \<times> char) list + char) \<times> nat)" where
  "class_atom c cs =
     (if c = CHR 0x5C then
        (case cs of
           [] \<Rightarrow> Inl (RxSyntax (CHR 0x5C # '' at end of pattern''))
         | d # _ \<Rightarrow>
             (case escape_class d of
                Some rs \<Rightarrow> Inr (Inl rs, 1)
              | None \<Rightarrow>
                  (case escape_char d of
                     Some e \<Rightarrow> Inr (Inr e, 1)
                   | None \<Rightarrow>
                       if d = CHR ''b'' then Inr (Inr (CHR 0x08), 1)
                       else if is_alnum d then Inl (RxUnsupported ''escape sequence'')
                       else Inr (Inr d, 1))))
      else if c = CHR ''['' \<and> take 1 cs \<in> {'':'', ''.'', ''=''} then Inl (RxUnsupported ''POSIX class'')
      else Inr (Inr c, 0))"

text \<open>The items of a class up to its closing bracket, with ranges \<open>a-b\<close>;
  returns the ranges and the rest of the pattern.\<close>

function class_items :: "(char \<times> char) list \<Rightarrow> string \<Rightarrow> rx_error + ((char \<times> char) list \<times> string)" where
  "class_items acc [] = Inl (RxSyntax ''missing terminating ] for character class'')"
| "class_items acc (c # cs) =
     (if c = CHR '']'' then Inr (acc, cs)
      else case class_atom c cs of
        Inl e \<Rightarrow> Inl e
      | Inr (Inl rs, k) \<Rightarrow>
          (case drop k cs of
             d # e # rest \<Rightarrow>
               if d = CHR ''-'' \<and> e \<noteq> CHR '']'' then Inl (RxSyntax ''invalid range in character class'')
               else class_items (acc @ rs) (drop k cs)
           | _ \<Rightarrow> class_items (acc @ rs) (drop k cs))
      | Inr (Inr a, k) \<Rightarrow>
          (case drop k cs of
             d # e # rest \<Rightarrow>
               if d = CHR ''-'' \<and> e \<noteq> CHR '']'' then
                 (case class_atom e rest of
                    Inl err \<Rightarrow> Inl err
                  | Inr (Inl _, _) \<Rightarrow> Inl (RxSyntax ''invalid range in character class'')
                  | Inr (Inr b, k') \<Rightarrow>
                      if (of_char b :: nat) < of_char a then Inl (RxSyntax ''range out of order in character class'')
                      else class_items (acc @ [(a, b)]) (drop k' rest))
               else class_items (acc @ [(a, a)]) (drop k cs)
           | _ \<Rightarrow> class_items (acc @ [(a, a)]) (drop k cs)))"
  by pat_completeness auto
termination
  by (relation "measure (\<lambda>(acc, cs). length cs)") (auto dest: arg_cong [where f = length])

text \<open>A class after its \<open>[\<close>: an optional \<open>^\<close>, a \<open>]\<close> in first position
  taken literally, the items; returns the number of characters consumed.\<close>

definition parse_class :: "string \<Rightarrow> rx_error + (bool \<times> (char \<times> char) list \<times> nat)" where
  "parse_class cs =
     (let neg = (take 1 cs = ''^'');
          body = (if neg then tl cs else cs);
          r = (case body of
                 d # rest \<Rightarrow> if d = CHR '']'' then class_items [(d, d)] rest else class_items [] body
               | [] \<Rightarrow> class_items [] [])
      in case r of
           Inl e \<Rightarrow> Inl e
         | Inr (rs, rest) \<Rightarrow> Inr (neg, rs, length cs - length rest))"

text \<open>A counted repetition after its \<open>{\<close>: \<open>{m}\<close>, \<open>{m,}\<close> or \<open>{m,n}\<close>,
  with the number of characters consumed; anything else is not a quantifier
  and the \<open>{\<close> is a literal.\<close>

definition parse_count :: "string \<Rightarrow> (nat \<times> nat option \<times> nat) option" where
  "parse_count cs =
     (let ds1 = takeWhile is_digit cs; r1 = dropWhile is_digit cs in
      if ds1 = [] then None
      else case r1 of
        d # r2 \<Rightarrow>
          if d = CHR ''}'' then Some (digits_val ds1, Some (digits_val ds1), length cs - length r2)
          else if d = CHR '','' then
            (let ds2 = takeWhile is_digit r2; r3 = dropWhile is_digit r2 in
             case r3 of
               e # r4 \<Rightarrow>
                 if e = CHR ''}'' then Some (digits_val ds1, if ds2 = [] then None else Some (digits_val ds2), length cs - length r4)
                 else None
             | [] \<Rightarrow> None)
          else None
      | [] \<Rightarrow> None)"

text \<open>\<open>rep m r t\<close> is \<open>m\<close> copies of \<open>r\<close> followed by \<open>t\<close>; \<open>counted m n r\<close>
  is \<open>r{m,n}\<close> (\<open>r{m,}\<close> when \<open>n = None\<close>); \<open>*\<close>, \<open>+\<close> and \<open>?\<close> are
  \<open>{0,}\<close>, \<open>{1,}\<close> and \<open>{0,1}\<close>.\<close>

fun rep :: "nat \<Rightarrow> rx \<Rightarrow> rx \<Rightarrow> rx" where
  "rep 0 r t = t"
| "rep (Suc m) r t = RSeq r (rep m r t)"

definition counted :: "nat \<Rightarrow> nat option \<Rightarrow> rx \<Rightarrow> rx" where
  "counted m n r = rep m r (case n of None \<Rightarrow> RStar r | Some n' \<Rightarrow> rep (n' - m) (RAlt r REps) REps)"

definition is_single :: "rx \<Rightarrow> bool" where
  "is_single r = (case r of RLit _ \<Rightarrow> True | RAny \<Rightarrow> True | RClass _ _ \<Rightarrow> True | _ \<Rightarrow> False)"

text \<open>The possessive forms modelled: \<open>r{m,}+\<close> of a one-character item.\<close>

definition possessive :: "nat \<Rightarrow> nat option \<Rightarrow> rx \<Rightarrow> rx option" where
  "possessive m n r = (if is_single r \<and> n = None then Some (rep m r (RPoss r)) else None)"

text \<open>A quantifier \<open>{m,n}\<close> applied to the last item, followed by \<open>rest\<close>: a
  following \<open>?\<close> makes it lazy (the same matches), a following \<open>+\<close>
  possessive. Returns the new items and the number of characters of \<open>rest\<close>
  consumed.\<close>

definition apply_quant :: "last_item \<Rightarrow> rx list \<Rightarrow> nat \<Rightarrow> nat option \<Rightarrow> string \<Rightarrow>
    rx_error + (rx list \<times> last_item \<times> nat)" where
  "apply_quant lk items m n rest =
     (case lk of
        NoItem \<Rightarrow> Inl (RxSyntax ''quantifier does not follow a repeatable item'')
      | Anchor \<Rightarrow> Inl (RxUnsupported ''quantified assertion'')
      | Quantified \<Rightarrow> Inl (RxUnsupported ''repeated quantifier'')
      | Lazy \<Rightarrow> Inl (RxUnsupported ''repeated quantifier'')
      | Atom \<Rightarrow>
          (case items of
             [] \<Rightarrow> Inl (RxSyntax ''quantifier does not follow a repeatable item'')
           | r # items' \<Rightarrow>
               (case rest of
                  d # _ \<Rightarrow>
                    if d = CHR ''?'' then Inr (counted m n r # items', Lazy, 1)
                    else if d = CHR ''+'' then
                      (case possessive m n r of
                         Some r' \<Rightarrow> Inr (r' # items', Lazy, 1)
                       | None \<Rightarrow> Inl (RxUnsupported ''possessive quantifier''))
                    else Inr (counted m n r # items', Quantified, 0)
                | [] \<Rightarrow> Inr (counted m n r # items', Quantified, 0))))"

function parse_rx :: "rx list \<Rightarrow> rx list \<Rightarrow> last_item \<Rightarrow> frame list \<Rightarrow> string \<Rightarrow> rx_error + rx" where
  "parse_rx alts items lk st [] =
     (if st = [] then Inr (close_group alts items) else Inl (RxSyntax ''missing closing parenthesis''))"
| "parse_rx alts items lk st (c # cs) =
     (if c = CHR 0x5C then
        (case cs of
           [] \<Rightarrow> Inl (RxSyntax (CHR 0x5C # '' at end of pattern''))
         | d # cs' \<Rightarrow>
             (case escape_class d of
                Some rs \<Rightarrow> parse_rx alts (RClass False rs # items) Atom st cs'
              | None \<Rightarrow>
                  (case escape_char d of
                     Some e \<Rightarrow> parse_rx alts (RLit e # items) Atom st cs'
                   | None \<Rightarrow>
                       if is_alnum d then Inl (RxUnsupported ''escape sequence'')
                       else parse_rx alts (RLit d # items) Atom st cs')))
      else if c = CHR ''('' then
        (case cs of
           d # _ \<Rightarrow> if d = CHR ''?'' \<or> d = CHR ''*'' then Inl (RxUnsupported ''group extension'')
                    else parse_rx [] [] NoItem ((alts, items, lk) # st) cs
         | [] \<Rightarrow> parse_rx [] [] NoItem ((alts, items, lk) # st) cs)
      else if c = CHR '')'' then
        (case st of
           [] \<Rightarrow> Inl (RxSyntax ''unmatched closing parenthesis'')
         | (alts', items', _) # st' \<Rightarrow> parse_rx alts' (close_group alts items # items') Atom st' cs)
      else if c = CHR ''|'' then parse_rx (seq_of (rev items) # alts) [] NoItem st cs
      else if c = CHR ''*'' \<or> c = CHR ''+'' \<or> c = CHR ''?'' then
        (case apply_quant lk items (if c = CHR ''+'' then 1 else 0) (if c = CHR ''?'' then Some 1 else None) cs of
           Inl e \<Rightarrow> Inl e
         | Inr (items', lk', k) \<Rightarrow> parse_rx alts items' lk' st (drop k cs))
      else if c = CHR ''{'' then
        (case parse_count cs of
           None \<Rightarrow> parse_rx alts (RLit c # items) Atom st cs
         | Some (m, n, k) \<Rightarrow>
             if 65535 < m \<or> (case n of Some n' \<Rightarrow> 65535 < n' | None \<Rightarrow> False)
             then Inl (RxSyntax ''number too big in {} quantifier'')
             else if (case n of Some n' \<Rightarrow> n' < m | None \<Rightarrow> False)
             then Inl (RxSyntax ''numbers out of order in {} quantifier'')
             else
               (case apply_quant lk items m n (drop k cs) of
                  Inl e \<Rightarrow> Inl e
                | Inr (items', lk', k') \<Rightarrow> parse_rx alts items' lk' st (drop k' (drop k cs))))
      else if c = CHR ''['' then
        (case parse_class cs of
           Inl e \<Rightarrow> Inl e
         | Inr (neg, rs, k) \<Rightarrow> parse_rx alts (RClass neg rs # items) Atom st (drop k cs))
      else if c = CHR ''.'' then parse_rx alts (RAny # items) Atom st cs
      else if c = CHR ''^'' then parse_rx alts (RBol # items) Anchor st cs
      else if c = CHR ''$'' then parse_rx alts (REol # items) Anchor st cs
      else parse_rx alts (RLit c # items) Atom st cs)"
  by pat_completeness auto
termination
  by (relation "measure (\<lambda>(alts, items, lk, st, cs). length cs)") auto

definition rx_compile :: "string \<Rightarrow> rx_error + rx" where
  "rx_compile p =
     (if CHR 0x00 \<in> set p then Inl (RxSyntax ''regular expression cannot contain an embedded null byte'')
      else parse_rx [] [] NoItem [] p)"

definition meta_chars :: string where
  "meta_chars = CHR 0x5C # ''()|*+?.^$[{''"

definition literal_pattern :: "string \<Rightarrow> bool" where
  "literal_pattern p = list_all (\<lambda>c. c \<notin> set meta_chars \<and> c \<noteq> CHR 0x00) p"

declare newline_def [model_simps] char_eq_def [model_simps] rx_find_def [model_simps]
  ends.simps [model_simps] star_ends.simps [model_simps]

declare star_ends.simps [simp del] run_end.simps [simp del]

inductive_cases mt_REpsE [elim!]: "mt ci REps s i j"
inductive_cases mt_RLitE [elim!]: "mt ci (RLit c) s i j"
inductive_cases mt_RAnyE [elim!]: "mt ci RAny s i j"
inductive_cases mt_RClassE [elim!]: "mt ci (RClass neg rs) s i j"
inductive_cases mt_RPossE [elim!]: "mt ci (RPoss r) s i j"
inductive_cases mt_RBolE [elim!]: "mt ci RBol s i j"
inductive_cases mt_REolE [elim!]: "mt ci REol s i j"
inductive_cases mt_RSeqE [elim!]: "mt ci (RSeq r1 r2) s i k"
inductive_cases mt_RAltE [elim!]: "mt ci (RAlt r1 r2) s i j"
inductive_cases mt_RStarE: "mt ci (RStar r) s i k"

section \<open>The matcher computes the semantics\<close>

lemma run_end_iff:
  "i \<le> length s \<Longrightarrow>
   run_end ci r s i = j \<longleftrightarrow>
   i \<le> j \<and> j \<le> length s \<and> (\<forall>k. i \<le> k \<and> k < j \<longrightarrow> single ci r (s ! k)) \<and>
   (j = length s \<or> \<not> single ci r (s ! j))"
proof (induction ci r s i rule: run_end.induct)
  case (1 ci r s i)
  show ?case
  proof (cases "i < length s \<and> single ci r (s ! i)")
    case True
    then have step: "run_end ci r s i = run_end ci r s (Suc i)" by (subst run_end.simps) simp
    have ih: "run_end ci r s (Suc i) = j \<longleftrightarrow>
      Suc i \<le> j \<and> j \<le> length s \<and> (\<forall>k. Suc i \<le> k \<and> k < j \<longrightarrow> single ci r (s ! k)) \<and>
      (j = length s \<or> \<not> single ci r (s ! j))"
      using "1.IH" True by simp
    have rng: "(\<forall>k. i \<le> k \<and> k < j \<longrightarrow> single ci r (s ! k)) \<longleftrightarrow>
               (\<forall>k. Suc i \<le> k \<and> k < j \<longrightarrow> single ci r (s ! k))"
      using True by (metis Suc_le_eq le_eq_less_or_eq)
    show ?thesis
    proof
      assume "run_end ci r s i = j"
      with step ih rng show "i \<le> j \<and> j \<le> length s \<and> (\<forall>k. i \<le> k \<and> k < j \<longrightarrow> single ci r (s ! k)) \<and>
        (j = length s \<or> \<not> single ci r (s ! j))" by simp
    next
      assume h: "i \<le> j \<and> j \<le> length s \<and> (\<forall>k. i \<le> k \<and> k < j \<longrightarrow> single ci r (s ! k)) \<and>
        (j = length s \<or> \<not> single ci r (s ! j))"
      have "j \<noteq> i" using h True by auto
      with h have "Suc i \<le> j" by simp
      with h step ih rng show "run_end ci r s i = j" by simp
    qed
  next
    case False
    then have ri: "run_end ci r s i = i" by (subst run_end.simps) auto
    show ?thesis
    proof
      assume "run_end ci r s i = j"
      with ri False "1.prems" show "i \<le> j \<and> j \<le> length s \<and> (\<forall>k. i \<le> k \<and> k < j \<longrightarrow> single ci r (s ! k)) \<and>
        (j = length s \<or> \<not> single ci r (s ! j))" by auto
    next
      assume h: "i \<le> j \<and> j \<le> length s \<and> (\<forall>k. i \<le> k \<and> k < j \<longrightarrow> single ci r (s ! k)) \<and>
        (j = length s \<or> \<not> single ci r (s ! j))"
      have "\<not> i < j"
      proof
        assume "i < j"
        with h have "i < length s" and "single ci r (s ! i)" by auto
        with False show False by simp
      qed
      with h ri show "run_end ci r s i = j" by simp
    qed
  qed
qed

lemma star_ends_self: "i \<in> set (star_ends ci r s i)"
  by (subst star_ends.simps) simp

lemma ends_sound:
  "j \<in> set (ends ci r s i) \<Longrightarrow> mt ci r s i j"
  "j \<in> set (star_ends ci r s i) \<Longrightarrow> mt ci (RStar r) s i j"
proof (induction ci r s i and ci r s i arbitrary: j and j rule: ends_star_ends.induct)
  case (11 ci r s i)
  show ?case
  proof (cases "j = i")
    case True
    then show ?thesis by (simp add: mt.star0)
  next
    case False
    with "11.prems" obtain j' where j': "j' \<in> set (ends ci r s i)" "i < j'" "j' \<le> length s"
      and j: "j \<in> set (star_ends ci r s j')"
      by (auto simp: star_ends.simps [of ci r s i])
    have "mt ci r s i j'" using "11.IH"(1) j'(1) .
    moreover have "mt ci (RStar r) s j' j" using "11.IH"(2) [of j' j] j' j by simp
    ultimately show ?thesis by (rule mt.star)
  qed
next
  case (7 ci r1 r2 s i)
  then show ?case by (auto intro: mt.seq)
next
  case (10 ci r s i)
  then have "i \<le> length s" and "j = run_end ci r s i" by (simp_all split: if_splits)
  with run_end_iff [of i s ci r j] show ?case by (auto intro: mt.poss)
qed (auto intro: mt.eps mt.lit mt.any mt.cls mt.bol mt.eol mt.alt1 mt.alt2 split: if_splits)

lemma mt_progress: "mt ci r s i j \<Longrightarrow> i \<le> j \<and> (i < j \<longrightarrow> j \<le> length s)"
  by (induction rule: mt.induct) auto

lemma ends_complete: "mt ci r s i j \<Longrightarrow> j \<in> set (ends ci r s i)"
proof (induction rule: mt.induct)
  case (star ci r s i j k)
  show ?case
  proof (cases "i = j")
    case True
    with star.IH(2) show ?thesis by simp
  next
    case False
    with mt_progress [OF star.hyps(1)] have "i < j" "j \<le> length s" by auto
    with star.IH show ?thesis by (auto simp: star_ends.simps [of ci r s i])
  qed
next
  case (seq ci r1 s i j r2 k)
  then show ?case by auto
next
  case (poss i j s ci r)
  then have "run_end ci r s i = j" using run_end_iff [of i s ci r j] by simp
  with poss show ?case by simp
qed (simp_all add: star_ends_self)

theorem ends_iff_mt: "j \<in> set (ends ci r s i) \<longleftrightarrow> mt ci r s i j"
  using ends_sound(1) ends_complete by blast

lemma rx_find_iff: "rx_find ci r s \<longleftrightarrow> (\<exists>i \<le> length s. \<exists>j. mt ci r s i j)"
proof -
  have "rx_find ci r s \<longleftrightarrow> (\<exists>i \<le> length s. ends ci r s i \<noteq> [])"
    unfolding rx_find_def list_ex_iff by (auto simp del: upt_Suc simp: less_Suc_eq_le)
  also have "\<dots> \<longleftrightarrow> (\<exists>i \<le> length s. \<exists>j. mt ci r s i j)"
    by (metis ends_sound(1) ends_complete ex_in_conv set_empty)
  finally show ?thesis .
qed

section \<open>Patterns without metacharacters\<close>

lemma parse_rx_literal:
  "list_all (\<lambda>c. c \<notin> set meta_chars) cs \<Longrightarrow>
   parse_rx alts items lk st cs = parse_rx alts (rev (map RLit cs) @ items) (if cs = [] then lk else Atom) st []"
proof (induction cs arbitrary: items lk)
  case Nil
  then show ?case by simp
next
  case (Cons c cs)
  then have "c \<notin> set meta_chars" and rest: "list_all (\<lambda>c. c \<notin> set meta_chars) cs" by auto
  then have "parse_rx alts items lk st (c # cs) = parse_rx alts (RLit c # items) Atom st cs"
    by (simp add: meta_chars_def)
  also have "\<dots> = parse_rx alts (rev (map RLit (c # cs)) @ items) Atom st []"
    using Cons.IH [OF rest, of "RLit c # items" Atom] by simp
  finally show ?case by simp
qed

lemma rx_compile_no_null: "rx_compile p = Inr r \<Longrightarrow> CHR 0x00 \<notin> set p"
  by (auto simp: rx_compile_def split: if_splits)

lemma rx_compile_literal:
  "literal_pattern p \<Longrightarrow> rx_compile p = Inr (seq_of (map RLit p))"
proof -
  assume lp: "literal_pattern p"
  then have "list_all (\<lambda>c. c \<notin> set meta_chars) p" and "CHR 0x00 \<notin> set p"
    by (auto simp: literal_pattern_def list_all_iff)
  then show ?thesis
    by (simp add: rx_compile_def parse_rx_literal close_group_def rev_map)
qed

lemma mt_seq_of_lits:
  "i \<le> length s \<Longrightarrow>
   (\<exists>j. mt True (seq_of (map RLit q)) s i j) \<longleftrightarrow> prefix (lower_str q) (drop i (lower_str s))"
proof (induction q arbitrary: i)
  case Nil
  then show ?case by (auto simp: seq_of_def intro: mt.eps)
next
  case (Cons c q)
  show ?case
  proof (cases "i < length s")
    case True
    then have "drop i (lower_str s) = lower_char (s ! i) # drop (Suc i) (lower_str s)"
      by (simp add: Cons_nth_drop_Suc [symmetric] lower_str_def)
    moreover have lit: "mt True (RLit c) s i (Suc i)" if "lower_char c = lower_char (s ! i)"
      using True that by (simp add: mt.lit char_eq_def)
    have "(\<exists>j. mt True (seq_of (map RLit (c # q))) s i j) \<longleftrightarrow>
                   lower_char c = lower_char (s ! i) \<and> (\<exists>j. mt True (seq_of (map RLit q)) s (Suc i) j)"
    proof
      assume "\<exists>j. mt True (seq_of (map RLit (c # q))) s i j"
      then show "lower_char c = lower_char (s ! i) \<and> (\<exists>j. mt True (seq_of (map RLit q)) s (Suc i) j)"
        by (auto simp: seq_of_def char_eq_def)
    next
      assume h: "lower_char c = lower_char (s ! i) \<and> (\<exists>j. mt True (seq_of (map RLit q)) s (Suc i) j)"
      then obtain j where j: "mt True (seq_of (map RLit q)) s (Suc i) j" by blast
      from h have "mt True (RLit c) s i (Suc i)" by (intro lit) blast
      from this j have "mt True (RSeq (RLit c) (seq_of (map RLit q))) s i j" by (rule mt.seq)
      then have "mt True (seq_of (map RLit (c # q))) s i j" by (simp add: seq_of_def)
      then show "\<exists>j. mt True (seq_of (map RLit (c # q))) s i j" ..
    qed
    ultimately show ?thesis using Cons.IH [of "Suc i"] True by auto
  next
    case False
    then show ?thesis using Cons.prems by (auto simp: seq_of_def)
  qed
qed

lemma sublist_iff_prefix_drop: "sublist xs ys \<longleftrightarrow> (\<exists>i \<le> length ys. prefix xs (drop i ys))"
proof
  assume "sublist xs ys"
  then obtain ps ss where ys: "ys = ps @ xs @ ss" by (auto simp: sublist_def)
  then have "drop (length ps) ys = xs @ ss" by simp
  then show "\<exists>i \<le> length ys. prefix xs (drop i ys)"
    using ys by (intro exI [of _ "length ps"]) simp
next
  assume "\<exists>i \<le> length ys. prefix xs (drop i ys)"
  then obtain i ss where "drop i ys = xs @ ss" by (auto simp: prefix_def)
  then have "ys = take i ys @ xs @ ss" by (metis append_take_drop_id)
  then show "sublist xs ys" by (metis sublist_appendI)
qed

lemma rx_find_literal:
  assumes "literal_pattern p"
  shows "rx_compile p = Inr (seq_of (map RLit p)) \<and> (rx_find True (seq_of (map RLit p)) s \<longleftrightarrow> ci_contains p s)"
proof -
  have "rx_find True (seq_of (map RLit p)) s \<longleftrightarrow>
        (\<exists>i \<le> length s. prefix (lower_str p) (drop i (lower_str s)))"
    unfolding rx_find_iff using mt_seq_of_lits by blast
  also have "\<dots> \<longleftrightarrow> ci_contains p s"
    by (simp add: ci_contains_def sublist_iff_prefix_drop)
  finally show ?thesis using rx_compile_literal [OF assms] by simp
qed

section \<open>Possessive repetition\<close>

lemma mt_single:
  "is_single r \<Longrightarrow> mt ci r s j k \<Longrightarrow> j < length s \<and> single ci r (s ! j) \<and> k = Suc j"
  by (cases r) (auto simp: is_single_def)

text \<open>A possessive run never gives a character back to a following item that
  matches the same characters: \<open>x*+x\<close> matches nothing.\<close>

lemma poss_no_giveback: "is_single r \<Longrightarrow> \<not> mt ci (RSeq (RPoss r) (RSeq r t)) s i k"
proof
  assume r: "is_single r" and m: "mt ci (RSeq (RPoss r) (RSeq r t)) s i k"
  from m obtain j where run: "mt ci (RPoss r) s i j" and rest: "mt ci (RSeq r t) s j k"
    by (rule mt_RSeqE)
  from rest obtain j' where next_item: "mt ci r s j j'" by (rule mt_RSeqE)
  from run have "j = length s \<or> \<not> single ci r (s ! j)" by (rule mt_RPossE)
  with mt_single [OF r next_item] show False by simp
qed

lemma rx_compile_poss:
  assumes "c \<notin> set meta_chars" and "c \<noteq> CHR 0x00"
  shows "rx_compile [c, CHR ''*'', CHR ''+'', c] = Inr (RSeq (RPoss (RLit c)) (RSeq (RLit c) REps))"
proof -
  have "c \<noteq> CHR 0x5C" "c \<noteq> CHR ''(''" "c \<noteq> CHR '')''" "c \<noteq> CHR ''|''" "c \<noteq> CHR ''*''" "c \<noteq> CHR ''+''"
    "c \<noteq> CHR ''?''" "c \<noteq> CHR ''{''" "c \<noteq> CHR ''[''" "c \<noteq> CHR ''.''" "c \<noteq> CHR ''^''" "c \<noteq> CHR ''$''"
    using assms(1) by (auto simp: meta_chars_def)
  with assms(2) show ?thesis
    by (simp add: rx_compile_def apply_quant_def possessive_def is_single_def close_group_def seq_of_def)
qed

end
