(* ===== verification/Store.thy ===== *)
theory Store
  imports Json Regex
begin

text \<open>
  The Document Store Gateway: \<open>database.py\<close> (\<open>db\<close>, \<open>create_document\<close>,
  \<open>get_documents\<close>) over a MongoDB database, and the two direct uses of the
  driver in \<open>src/main.py\<close> (\<open>db["product"].find_one\<close> and
  \<open>db.list_collection_names\<close>). \<open>database.py\<close> is not under \<open>src/\<close>: the
  operations follow the spec's contract (\<open>insert\<close>, \<open>find\<close> with a filter and a
  limit, \<open>findOne\<close>, \<open>listCollectionNames\<close>) with MongoDB's documented semantics.

  The state is a record: whether \<open>db\<close> was initialised (\<open>db_ready\<close>), whether
  the server answers (\<open>online\<close>; when it does not, every operation raises), the
  collections in creation order, each a list of documents in insertion order,
  the counter that stands for the ObjectId generator, and the database name
  (\<open>db.name\<close>).

  A filter is a document. It is compiled into a \<open>query\<close> first (MongoDB
  parses the whole filter, and rejects an invalid \<open>$regex\<close> pattern, before it
  looks at any document) and then matched against each document:
  \<^item> \<open>{field: v}\<close> holds when the field equals \<open>v\<close> or is an array containing
    \<open>v\<close>, and for \<open>v = null\<close> also when the field is missing;
  \<^item> \<open>{field: {$regex: p, $options: o}}\<close> holds when the field is a string,
    or an array with a string, in which the pattern is found;
  \<^item> \<open>{$or: [f1, ...]}\<close> holds when one of the non-empty list of filters holds;
  \<^item> the top-level entries are a conjunction.
  Other operators and regex options other than \<open>i\<close> are not used by the
  program and are reported as \<open>Unmodelled\<close>.
\<close>

section \<open>Exceptions\<close>

text \<open>The Python exceptions the handlers can meet, and \<open>str(e)\<close> of each.
  \<open>HTTPException\<close> is Starlette's, whose \<open>str\<close> is \<open>"code: detail"\<close>. A
  server error is pymongo's \<open>OperationFailure\<close> with the server's error code,
  code name and message; its \<open>str\<close> is the message followed by
  \<open>", full error: "\<close> and the server's reply, here the reply of a standalone
  server (\<open>{'ok': 0.0, 'errmsg': ..., 'code': ..., 'codeName': ...}\<close>; a
  replica set adds cluster-time fields, which are not modelled).\<close>

datatype exc =
    InvalidId string
  | HTTPException nat string
  | StoreError string
  | OperationFailure nat string string
  | Unmodelled string

fun exc_str :: "exc \<Rightarrow> string" where
  "exc_str (InvalidId m) = m"
| "exc_str (HTTPException code detail) = dec_str code @ '': '' @ detail"
| "exc_str (StoreError m) = m"
| "exc_str (OperationFailure code name m) =
     m @ '', full error: {'' @ [CHR 0x27] @ ''ok'' @ [CHR 0x27] @ '': 0.0, '' @ [CHR 0x27] @ ''errmsg'' @ [CHR 0x27] @ '': '' @
     py_repr m @ '', '' @ [CHR 0x27] @ ''code'' @ [CHR 0x27] @ '': '' @ dec_str code @ '', '' @
     [CHR 0x27] @ ''codeName'' @ [CHR 0x27] @ '': '' @ py_repr name @ ''}''"
| "exc_str (Unmodelled m) = m"

section \<open>State\<close>

record store =
  db_ready :: bool
  online :: bool
  colls :: "(string \<times> doc list) list"
  next_id :: nat
  db_name :: string

definition coll_docs :: "store \<Rightarrow> string \<Rightarrow> doc list" where
  "coll_docs s c = (case dict_get (colls s) c of None \<Rightarrow> [] | Some ds \<Rightarrow> ds)"

definition not_available_msg :: string where
  "not_available_msg = ''Database not available. Check DATABASE_URL and DATABASE_NAME environment variables.''"

definition offline_msg :: string where
  "offline_msg = ''No servers available: server selection timeout''"

section \<open>Queries\<close>

datatype cond = CEq bson | CRegex bool rx

datatype query = QField string cond | QOr "query list" | QAnd "query list"

definition regex_options_ok :: "string \<Rightarrow> bool" where
  "regex_options_ok opts = list_all (\<lambda>c. c = CHR ''i'') opts"

definition compile_regex :: "string \<Rightarrow> string \<Rightarrow> exc + cond" where
  "compile_regex p opts =
     (if \<not> regex_options_ok opts then Inl (Unmodelled ''regex options other than i'')
      else if CHR 0x00 \<in> set p
      then Inl (OperationFailure 2 ''BadValue'' ''Regular expression cannot contain an embedded null byte'')
      else case rx_compile p of
        Inl (RxSyntax m) \<Rightarrow> Inl (OperationFailure 51091 ''Location51091'' (''Regular expression is invalid: '' @ m))
      | Inl (RxUnsupported m) \<Rightarrow> Inl (Unmodelled m)
      | Inr r \<Rightarrow> Inr (CRegex (CHR ''i'' \<in> set opts) r))"

text \<open>An operator document of a field entry, such as
  \<open>{"$regex": q, "$options": "i"}\<close>. Only \<open>$regex\<close> and \<open>$options\<close> are
  modelled.\<close>

definition compile_ops :: "doc \<Rightarrow> exc + cond" where
  "compile_ops kvs =
     (if list_all (\<lambda>k. k = ''$regex'' \<or> k = ''$options'') (map fst kvs) then
        (case dict_get kvs ''$regex'' of
           None \<Rightarrow> Inl (OperationFailure 2 ''BadValue'' ''$options needs a $regex'')
         | Some (VStr p) \<Rightarrow>
             (case dict_get kvs ''$options'' of
                None \<Rightarrow> compile_regex p []
              | Some (VStr opts) \<Rightarrow> compile_regex p opts
              | Some _ \<Rightarrow> Inl (OperationFailure 2 ''BadValue'' ''$options has to be a string''))
         | Some _ \<Rightarrow> Inl (OperationFailure 2 ''BadValue'' ''$regex has to be a string''))
      else Inl (Unmodelled ''query operator''))"

definition is_operator :: "string \<Rightarrow> bool" where
  "is_operator k = (take 1 k = ''$'')"

text \<open>The value of a field entry: an operator document (its first key starts with
  \<open>$\<close>) or a value to compare with.\<close>

fun compile_cond :: "bson \<Rightarrow> exc + cond" where
  "compile_cond (VDoc ((k, v) # kvs)) =
     (if is_operator k then compile_ops ((k, v) # kvs) else Inr (CEq (VDoc ((k, v) # kvs))))"
| "compile_cond v = Inr (CEq v)"

fun compile_filter :: "doc \<Rightarrow> exc + query list"
  and compile_or :: "bson list \<Rightarrow> exc + query list" where
  "compile_filter [] = Inr []"
| "compile_filter ((k, v) # kvs) =
     (case (if k = ''$or'' then
              (case v of
                 VList ds \<Rightarrow>
                   if ds = [] then Inl (OperationFailure 2 ''BadValue'' ''$and/$or/$nor must be a nonempty array'')
                   else (case compile_or ds of Inl e \<Rightarrow> Inl e | Inr qs \<Rightarrow> Inr (QOr qs))
               | _ \<Rightarrow> Inl (OperationFailure 2 ''BadValue'' ''$or must be an array''))
            else if is_operator k then Inl (Unmodelled ''top-level operator'')
            else (case compile_cond v of Inl e \<Rightarrow> Inl e | Inr c \<Rightarrow> Inr (QField k c))) of
        Inl e \<Rightarrow> Inl e
      | Inr q \<Rightarrow> (case compile_filter kvs of Inl e \<Rightarrow> Inl e | Inr qs \<Rightarrow> Inr (q # qs)))"
| "compile_or [] = Inr []"
| "compile_or (d # ds) =
     (case d of
        VDoc kvs \<Rightarrow>
          (case compile_filter kvs of
             Inl e \<Rightarrow> Inl e
           | Inr qs \<Rightarrow> (case compile_or ds of Inl e \<Rightarrow> Inl e | Inr rs \<Rightarrow> Inr (QAnd qs # rs)))
      | _ \<Rightarrow> Inl (OperationFailure 2 ''BadValue'' ''$or/$and/$nor entries need to be full objects''))"


section \<open>Matching\<close>

text \<open>Equality on a field: the field equals the value or is an array that
  contains it; a missing field equals \<open>null\<close>.\<close>

definition eq_match :: "bson \<Rightarrow> bson option \<Rightarrow> bool" where
  "eq_match v x =
     (case x of
        None \<Rightarrow> v = VNull
      | Some y \<Rightarrow> y = v \<or> (case y of VList ys \<Rightarrow> v \<in> set ys | _ \<Rightarrow> False))"

definition str_regex :: "bool \<Rightarrow> rx \<Rightarrow> bson \<Rightarrow> bool" where
  "str_regex ci r y = (case y of VStr t \<Rightarrow> rx_find ci r t | _ \<Rightarrow> False)"

definition regex_match :: "bool \<Rightarrow> rx \<Rightarrow> bson option \<Rightarrow> bool" where
  "regex_match ci r x =
     (case x of
        Some (VList ys) \<Rightarrow> list_ex (str_regex ci r) ys
      | Some y \<Rightarrow> str_regex ci r y
      | None \<Rightarrow> False)"

fun q_match :: "query \<Rightarrow> doc \<Rightarrow> bool" where
  "q_match (QField k (CEq v)) d = eq_match v (dict_get d k)"
| "q_match (QField k (CRegex ci r)) d = regex_match ci r (dict_get d k)"
| "q_match (QOr qs) d = list_ex (\<lambda>q. q_match q d) qs"
| "q_match (QAnd qs) d = list_all (\<lambda>q. q_match q d) qs"

definition filter_match :: "query list \<Rightarrow> doc \<Rightarrow> bool" where
  "filter_match qs d = list_all (\<lambda>q. q_match q d) qs"

section \<open>Operations\<close>

text \<open>\<open>cursor.limit(n)\<close>: \<open>0\<close> is no limit, a negative limit is its absolute
  value (returned in a single batch).\<close>

definition mongo_limit :: "int \<Rightarrow> 'a list \<Rightarrow> 'a list" where
  "mongo_limit n xs = (if n = 0 then xs else take (nat \<bar>n\<bar>) xs)"

text \<open>\<open>get_documents(collection, filter, limit)\<close> of \<open>database.py\<close>:
  \<open>list(db[collection].find(filter).limit(limit))\<close>, raising when \<open>db\<close> is
  \<open>None\<close>.\<close>

definition get_documents :: "store \<Rightarrow> string \<Rightarrow> doc \<Rightarrow> int \<Rightarrow> exc + doc list" where
  "get_documents s c flt n =
     (if \<not> db_ready s then Inl (StoreError not_available_msg)
      else if \<not> online s then Inl (StoreError offline_msg)
      else case compile_filter flt of
        Inl e \<Rightarrow> Inl e
      | Inr qs \<Rightarrow> Inr (mongo_limit n (filter (filter_match qs) (coll_docs s c))))"

text \<open>\<open>Collection.find_one(filter)\<close> on an existing collection handle: the first
  matching document in natural order.\<close>

definition find_one :: "store \<Rightarrow> string \<Rightarrow> doc \<Rightarrow> exc + doc option" where
  "find_one s c flt =
     (if \<not> online s then Inl (StoreError offline_msg)
      else case compile_filter flt of
        Inl e \<Rightarrow> Inl e
      | Inr qs \<Rightarrow> Inr (find (filter_match qs) (coll_docs s c)))"

text \<open>\<open>Collection.insert_one(doc)\<close>: a fresh ObjectId is generated and stored as
  the first field \<open>_id\<close>. The program never inserts a document with an
  \<open>_id\<close> of its own; that case is outside the model.\<close>

definition insert_one :: "store \<Rightarrow> string \<Rightarrow> doc \<Rightarrow> exc + (oid \<times> store)" where
  "insert_one s c d =
     (if \<not> online s then Inl (StoreError offline_msg)
      else if dict_has d ''_id'' then Inl (Unmodelled ''client-supplied _id'')
      else
        let x = word_of_nat (next_id s) :: oid
        in Inr (x, s\<lparr>colls := dict_set (colls s) c (coll_docs s c @ [(''_id'', VOid x) # d]),
                    next_id := Suc (next_id s)\<rparr>))"

text \<open>\<open>create_document(collection, data)\<close> of \<open>database.py\<close>: insert the
  dumped model and return \<open>str(inserted_id)\<close>.\<close>

definition create_document :: "store \<Rightarrow> string \<Rightarrow> doc \<Rightarrow> exc + (string \<times> store)" where
  "create_document s c d =
     (if \<not> db_ready s then Inl (StoreError not_available_msg)
      else case insert_one s c d of
        Inl e \<Rightarrow> Inl e
      | Inr (x, s') \<Rightarrow> Inr (oid_str x, s'))"

definition list_collection_names :: "store \<Rightarrow> exc + string list" where
  "list_collection_names s =
     (if \<not> online s then Inl (StoreError offline_msg) else Inr (map fst (colls s)))"

section \<open>Store invariant\<close>

text \<open>Every stored document starts with its ObjectId \<open>_id\<close>, issued below the
  counter, and has no second \<open>_id\<close>; the ids of a collection are distinct;
  collection names are distinct; the counter has not passed the id space.\<close>

fun doc_id :: "doc \<Rightarrow> oid option" where
  "doc_id ((k, VOid x) # _) = (if k = ''_id'' then Some x else None)"
| "doc_id _ = None"

definition doc_ok :: "nat \<Rightarrow> doc \<Rightarrow> bool" where
  "doc_ok n d =
     (case d of
        (k, VOid x) # rest \<Rightarrow> k = ''_id'' \<and> \<not> dict_has rest ''_id'' \<and> unat x < n
      | _ \<Rightarrow> False)"

definition store_inv :: "store \<Rightarrow> bool" where
  "store_inv s =
     (distinct (map fst (colls s)) \<and> next_id s \<le> 2 ^ 96 \<and>
      list_all (\<lambda>(c, ds). list_all (doc_ok (next_id s)) ds \<and> distinct (map doc_id ds)) (colls s))"

declare coll_docs_def [model_simps] eq_match_def [model_simps] str_regex_def [model_simps]
  regex_match_def [model_simps] filter_match_def [model_simps] mongo_limit_def [model_simps]
  get_documents_def [model_simps] find_one_def [model_simps] insert_one_def [model_simps]
  create_document_def [model_simps] compile_regex_def [model_simps] compile_ops_def [model_simps]
  is_operator_def [model_simps] regex_options_ok_def [model_simps] doc_ok_def [model_simps]
  store_inv_def [model_simps] list_collection_names_def [model_simps]


section \<open>Store lemmas\<close>

lemma is_operator_simps [simp]:
  "is_operator (c # k) \<longleftrightarrow> c = CHR ''$''" "\<not> is_operator []"
  by (simp_all add: is_operator_def)

lemma coll_docs_set:
  "coll_docs (s\<lparr>colls := dict_set (colls s) c ds, next_id := n\<rparr>) c' = (if c' = c then ds else coll_docs s c')"
  by (simp add: coll_docs_def dict_get_set)

lemma insert_one_Inr:
  "online s \<Longrightarrow> \<not> dict_has d ''_id'' \<Longrightarrow>
   insert_one s c d = Inr (word_of_nat (next_id s),
     s\<lparr>colls := dict_set (colls s) c (coll_docs s c @ [(''_id'', VOid (word_of_nat (next_id s))) # d]),
       next_id := Suc (next_id s)\<rparr>)"
  by (simp add: insert_one_def Let_def)

lemma compile_filter_id [simp]:
  "compile_filter [(''_id'', VOid x)] = Inr [QField ''_id'' (CEq (VOid x))]"
  by (simp add: is_operator_def)

lemma regex_match_never: "(\<And>u. \<not> rx_find ci r u) \<Longrightarrow> \<not> regex_match ci r x"
  by (auto simp: regex_match_def str_regex_def list_ex_iff split: option.splits bson.splits)

lemma regex_match_mt:
  "regex_match ci r x \<longleftrightarrow>
   (\<exists>u. (x = Some (VStr u) \<or> (\<exists>ys. x = Some (VList ys) \<and> VStr u \<in> set ys)) \<and>
        (\<exists>i \<le> length u. \<exists>j. mt ci r u i j))"
proof (cases x)
  case (Some y)
  then show ?thesis
  proof (cases y)
    case (VList ys)
    have "list_ex (str_regex ci r) ys \<longleftrightarrow> (\<exists>u. VStr u \<in> set ys \<and> rx_find ci r u)"
    proof
      assume "list_ex (str_regex ci r) ys"
      then obtain z where z: "z \<in> set ys" and m: "str_regex ci r z" by (auto simp: list_ex_iff)
      from m obtain u where "z = VStr u" and "rx_find ci r u"
        by (cases z) (simp_all add: str_regex_def)
      with z show "\<exists>u. VStr u \<in> set ys \<and> rx_find ci r u" by blast
    next
      assume "\<exists>u. VStr u \<in> set ys \<and> rx_find ci r u"
      then show "list_ex (str_regex ci r) ys" by (force simp: list_ex_iff str_regex_def)
    qed
    with Some VList show ?thesis by (auto simp: regex_match_def rx_find_iff)
  qed (auto simp: regex_match_def str_regex_def rx_find_iff)
qed (simp add: regex_match_def)

lemma filter_match_id:
  "dict_get d ''_id'' = Some (VOid y) \<Longrightarrow> filter_match [QField ''_id'' (CEq (VOid x))] d \<longleftrightarrow> y = x"
  by (simp add: filter_match_def eq_match_def)

lemma doc_ok_get_id:
  assumes "doc_ok n d"
  shows "\<exists>y. dict_get d ''_id'' = Some (VOid y) \<and> unat y < n \<and> doc_id d = Some y"
proof -
  obtain k x rest where d: "d = (k, VOid x) # rest" and "k = ''_id''" and "unat x < n"
    using assms by (auto simp: doc_ok_def split: list.splits prod.splits bson.splits)
  then show ?thesis by (simp add: dict_get_def)
qed

lemma store_inv_docs:
  assumes "store_inv s" and "d \<in> set (coll_docs s c)"
  shows "doc_ok (next_id s) d"
proof (cases "dict_get (colls s) c")
  case None
  with assms(2) show ?thesis by (simp add: coll_docs_def)
next
  case (Some ds)
  then have "(c, ds) \<in> set (colls s)" by (simp add: dict_get_def map_of_SomeD)
  with assms(1) have "list_all (doc_ok (next_id s)) ds"
    by (auto simp: store_inv_def list_all_iff)
  moreover from Some assms(2) have "d \<in> set ds" by (simp add: coll_docs_def)
  ultimately show ?thesis by (simp add: list_all_iff)
qed

lemma store_inv_ids:
  assumes "store_inv s"
  shows "distinct (map doc_id (coll_docs s c))"
proof (cases "dict_get (colls s) c")
  case None then show ?thesis by (simp add: coll_docs_def)
next
  case (Some ds)
  then have "(c, ds) \<in> set (colls s)" by (simp add: dict_get_def map_of_SomeD)
  with assms Some show ?thesis by (auto simp: store_inv_def list_all_iff coll_docs_def)
qed

text \<open>In a collection of well-formed documents with distinct ids, the lookup
  by id finds the document that has it.\<close>

lemma find_stored:
  assumes "\<forall>d' \<in> set ds. doc_ok n d'" and "distinct (map doc_id ds)"
    and "d \<in> set ds" and "doc_id d = Some x"
  shows "find (filter_match [QField ''_id'' (CEq (VOid x))]) ds = Some d"
  using assms
proof (induction ds)
  case Nil then show ?case by simp
next
  case (Cons d' ds)
  obtain y where y: "dict_get d' ''_id'' = Some (VOid y)" and idy: "doc_id d' = Some y"
    using doc_ok_get_id [of n d'] Cons.prems(1) by auto
  show ?case
  proof (cases "y = x")
    case True
    have "d = d'"
    proof (rule ccontr)
      assume "d \<noteq> d'"
      with Cons.prems(3) have "d \<in> set ds" by simp
      then have "doc_id d' \<in> set (map doc_id ds)" using Cons.prems(4) idy True by force
      with Cons.prems(2) show False by simp
    qed
    with y True show ?thesis by (simp add: filter_match_id)
  next
    case False
    with Cons.prems(4) idy have "d \<noteq> d'" by auto
    with Cons.prems have "d \<in> set ds" by simp
    with Cons.IH Cons.prems False y show ?thesis by (simp add: filter_match_id)
  qed
qed

lemma unat_word_of_nat_oid: "n < 2 ^ 96 \<Longrightarrow> unat (word_of_nat n :: oid) = n"
  by (simp add: unat_of_nat take_bit_nat_eq_self_iff)

lemma find_new_id:
  assumes "\<forall>d \<in> set ds. doc_ok n d" and "n < 2 ^ 96"
  shows "find (filter_match [QField ''_id'' (CEq (VOid (word_of_nat n)))])
           (ds @ [(''_id'', VOid (word_of_nat n)) # d]) = Some ((''_id'', VOid (word_of_nat n)) # d)"
  using assms(1)
proof (induction ds)
  case Nil
  have "filter_match [QField ''_id'' (CEq (VOid (word_of_nat n)))] ((''_id'', VOid (word_of_nat n)) # d)"
    by (simp add: filter_match_id dict_get_def)
  then show ?case by simp
next
  case (Cons d' ds)
  obtain y where y: "dict_get d' ''_id'' = Some (VOid y)" and "unat y < n"
    using doc_ok_get_id [of n d'] Cons.prems by auto
  moreover have "unat (word_of_nat n :: oid) = n" using assms(2) by (rule unat_word_of_nat_oid)
  ultimately have "\<not> filter_match [QField ''_id'' (CEq (VOid (word_of_nat n)))] d'"
    by (auto simp: filter_match_id)
  with Cons show ?case by simp
qed


lemma doc_ok_mono: "doc_ok n d \<Longrightarrow> n \<le> m \<Longrightarrow> doc_ok m d"
  by (auto simp: doc_ok_def split: list.splits prod.splits bson.splits)

lemma insert_one_inv:
  assumes inv: "store_inv s" and room: "next_id s < 2 ^ 96"
    and ins: "insert_one s c d = Inr (x, s')"
  shows "store_inv s'"
proof -
  let ?n = "next_id s"
  let ?new = "(''_id'', VOid x) # d"
  from ins have on: "online s" and noid: "\<not> dict_has d ''_id''" and x: "x = word_of_nat ?n"
    and s': "s' = s\<lparr>colls := dict_set (colls s) c (coll_docs s c @ [?new]), next_id := Suc ?n\<rparr>"
    by (auto simp: insert_one_def Let_def split: if_splits)
  have ux: "unat x = ?n" using room x by (simp add: unat_word_of_nat_oid)
  have old: "\<forall>d' \<in> set (coll_docs s c). doc_ok ?n d'"
    using inv by (auto intro: store_inv_docs)
  have new_ok: "doc_ok (Suc ?n) ?new"
    using noid ux by (simp add: doc_ok_def)
  have ids_old: "distinct (map doc_id (coll_docs s c))"
    using inv by (rule store_inv_ids)
  have fresh: "doc_id ?new \<notin> set (map doc_id (coll_docs s c))"
  proof
    assume "doc_id ?new \<in> set (map doc_id (coll_docs s c))"
    then obtain d' where "d' \<in> set (coll_docs s c)" and "doc_id d' = Some x" by auto
    moreover from this old obtain y where "doc_id d' = Some y" and "unat y < ?n"
      using doc_ok_get_id by blast
    ultimately show False using ux by simp
  qed
  have entry: "list_all (doc_ok (Suc ?n)) (coll_docs s c @ [?new]) \<and>
               distinct (map doc_id (coll_docs s c @ [?new]))"
    using old new_ok ids_old fresh by (auto simp: list_all_iff intro: doc_ok_mono)
  have others: "\<forall>(c', ds) \<in> set (colls s). list_all (doc_ok (Suc ?n)) ds \<and> distinct (map doc_id ds)"
    using inv by (fastforce simp: store_inv_def list_all_iff intro: doc_ok_mono)
  have "\<forall>(c', ds) \<in> set (dict_set (colls s) c (coll_docs s c @ [?new])).
          list_all (doc_ok (Suc ?n)) ds \<and> distinct (map doc_id ds)"
    using set_dict_set_subset [of "colls s" c "coll_docs s c @ [?new]"] entry others by blast
  then show ?thesis
    using inv room s' by (auto simp: store_inv_def list_all_iff distinct_keys_dict_set)
qed


lemma create_document_Inr:
  "db_ready s \<Longrightarrow> online s \<Longrightarrow> \<not> dict_has d ''_id'' \<Longrightarrow>
   create_document s c d = Inr (oid_str (word_of_nat (next_id s)),
     s\<lparr>colls := dict_set (colls s) c (coll_docs s c @ [(''_id'', VOid (word_of_nat (next_id s))) # d]),
       next_id := Suc (next_id s)\<rparr>)"
  by (simp add: create_document_def insert_one_Inr)

lemma dec_str_404: "dec_str 404 = ''404''"
  by code_simp

end
