(* ===== verification/QueryBuilder.thy ===== *)
theory QueryBuilder
  imports Store
begin

text \<open>
  The Query Builder: lines 38--47 of \<open>list_products\<close> in \<open>src/main.py\<close>, which
  turn the optional query parameters \<open>category\<close> and \<open>q\<close> into the filter
  document handed to \<open>get_documents\<close>:
\<^verbatim>\<open>filter_dict = {}
if category:
    filter_dict["category"] = category
if q:
    filter_dict["$or"] = [
        {"title": {"$regex": q, "$options": "i"}},
        {"description": {"$regex": q, "$options": "i"}},
        {"category": {"$regex": q, "$options": "i"}},
    ]\<close>
  The spec's contract for it is \<open>product_selected\<close>: exact category equality
  when a category is given, and case-insensitive substring containment of \<open>q\<close>
  in one of title, description and category when \<open>q\<close> is given. The
  refinement theorem shows that the filter the code builds, as the store
  evaluates it, selects exactly these products when \<open>q\<close> has no regex
  metacharacter and neither parameter is the empty string; other patterns are
  interpreted as regular expressions, and an empty parameter is ignored where
  the contract would test it.
\<close>

definition regex_clause :: "string \<Rightarrow> string \<Rightarrow> bson" where
  "regex_clause field q = VDoc [(field, VDoc [(''$regex'', VStr q), (''$options'', VStr ''i'')])]"

definition search_fields :: "string list" where
  "search_fields = [''title'', ''description'', ''category'']"

text \<open>\<open>if category:\<close> and \<open>if q:\<close> skip \<open>None\<close> and the empty string.\<close>

definition build_filter :: "string option \<Rightarrow> string option \<Rightarrow> doc" where
  "build_filter category q =
     (let filter_dict = [];
          filter_dict =
            (case category of
               Some c \<Rightarrow> if py_truthy_str category then dict_set filter_dict ''category'' (VStr c) else filter_dict
             | None \<Rightarrow> filter_dict);
          filter_dict =
            (case q of
               Some t \<Rightarrow>
                 if py_truthy_str q
                 then dict_set filter_dict ''$or'' (VList (map (\<lambda>f. regex_clause f t) search_fields))
                 else filter_dict
             | None \<Rightarrow> filter_dict)
      in filter_dict)"

section \<open>The contract\<close>

text \<open>A field contains \<open>t\<close> case-insensitively: a string field, or a string of
  an array field.\<close>

definition field_contains :: "string \<Rightarrow> bson option \<Rightarrow> bool" where
  "field_contains t x =
     (case x of
        Some (VStr s) \<Rightarrow> ci_contains t s
      | Some (VList ys) \<Rightarrow> list_ex (\<lambda>y. case y of VStr s \<Rightarrow> ci_contains t s | _ \<Rightarrow> False) ys
      | _ \<Rightarrow> False)"

text \<open>The spec's contract (section 4.1): a given category must equal the
  product's category, a given term must be contained in one of the three
  fields.\<close>

definition product_selected :: "string option \<Rightarrow> string option \<Rightarrow> doc \<Rightarrow> bool" where
  "product_selected category q d =
     ((case category of
         Some c \<Rightarrow> eq_match (VStr c) (dict_get d ''category'')
       | None \<Rightarrow> True) \<and>
      (case q of
         Some t \<Rightarrow> list_ex (\<lambda>f. field_contains t (dict_get d f)) search_fields
       | None \<Rightarrow> True))"

text \<open>What the code selects for a search term that compiles to the regular
  expression \<open>r\<close>: the category condition, and a match of \<open>r\<close> in one of the
  three fields.\<close>

definition regex_selected :: "string option \<Rightarrow> rx \<Rightarrow> doc \<Rightarrow> bool" where
  "regex_selected category r d =
     ((case category of
         Some c \<Rightarrow> c = [] \<or> eq_match (VStr c) (dict_get d ''category'')
       | None \<Rightarrow> True) \<and>
      list_ex (\<lambda>f. regex_match True r (dict_get d f)) search_fields)"

declare regex_clause_def [model_simps] search_fields_def [model_simps] build_filter_def [model_simps]
  field_contains_def [model_simps] product_selected_def [model_simps]


section \<open>The filter the store evaluates\<close>

lemma compile_regex_rx: "rx_compile t = Inr r \<Longrightarrow> compile_regex t ''i'' = Inr (CRegex True r)"
  by (simp add: compile_regex_def regex_options_ok_def rx_compile_no_null)

lemma compile_or_rx:
  "rx_compile t = Inr r \<Longrightarrow>
   compile_or (map (\<lambda>f. regex_clause f t) search_fields) =
   Inr (map (\<lambda>f. QAnd [QField f (CRegex True r)]) search_fields)"
  by (simp add: search_fields_def regex_clause_def compile_ops_def is_operator_def compile_regex_rx dict_get_def)

lemma compile_regex_syntax:
  "rx_compile t = Inl (RxSyntax m) \<Longrightarrow> CHR 0x00 \<notin> set t \<Longrightarrow>
   compile_regex t ''i'' = Inl (OperationFailure 51091 ''Location51091'' (''Regular expression is invalid: '' @ m))"
  by (simp add: compile_regex_def regex_options_ok_def)

lemma compile_filter_syntax:
  assumes "rx_compile t = Inl (RxSyntax m)" and "CHR 0x00 \<notin> set t" and "t \<noteq> []"
  shows "compile_filter (build_filter category (Some t)) =
         Inl (OperationFailure 51091 ''Location51091'' (''Regular expression is invalid: '' @ m))"
  using assms by (cases category)
    (simp_all add: build_filter_def search_fields_def regex_clause_def compile_ops_def is_operator_def
       dict_get_def compile_regex_syntax)

lemma filter_match_build_filter_rx:
  assumes "rx_compile t = Inr r" and "t \<noteq> []"
  shows "\<exists>qs. compile_filter (build_filter category (Some t)) = Inr qs \<and>
               (filter_match qs d \<longleftrightarrow> regex_selected category r d)"
proof -
  have c: "compile_filter (build_filter category (Some t)) =
     Inr ((case category of Some c \<Rightarrow> if c \<noteq> [] then [QField ''category'' (CEq (VStr c))] else [] | None \<Rightarrow> []) @
          [QOr (map (\<lambda>f. QAnd [QField f (CRegex True r)]) search_fields)])"
    using assms by (cases category)
      (auto simp del: compile_or.simps simp: build_filter_def compile_or_rx is_operator_def,
       auto simp: search_fields_def)
  show ?thesis
    by (rule exI, rule conjI [OF c]) (cases category; simp add: filter_match_def regex_selected_def search_fields_def)
qed

lemma compile_regex_literal:
  "literal_pattern t \<Longrightarrow> compile_regex t ''i'' = Inr (CRegex True (seq_of (map RLit t)))"
  by (simp add: compile_regex_rx rx_compile_literal)

lemma compile_or_search_fields:
  "literal_pattern t \<Longrightarrow>
   compile_or [regex_clause ''title'' t, regex_clause ''description'' t, regex_clause ''category'' t] =
   Inr (map (\<lambda>f. QAnd [QField f (CRegex True (seq_of (map RLit t)))]) search_fields)"
  by (simp add: search_fields_def regex_clause_def compile_ops_def is_operator_def
      compile_regex_literal dict_get_def)

lemma compile_build_filter:
  assumes "\<forall>t. q = Some t \<longrightarrow> literal_pattern t"
  shows "compile_filter (build_filter category q) =
     Inr ((case category of Some c \<Rightarrow> if c \<noteq> [] then [QField ''category'' (CEq (VStr c))] else [] | None \<Rightarrow> []) @
          (case q of Some t \<Rightarrow> if t \<noteq> [] then
             [QOr (map (\<lambda>f. QAnd [QField f (CRegex True (seq_of (map RLit t)))]) search_fields)] else []
           | None \<Rightarrow> []))"
  using assms
  by (auto simp del: compile_or.simps
      simp: build_filter_def compile_or_search_fields is_operator_def search_fields_def
      split: option.splits)


lemma regex_match_literal:
  assumes "literal_pattern t"
  shows "regex_match True (seq_of (map RLit t)) x \<longleftrightarrow> field_contains t x"
proof -
  have f: "rx_find True (seq_of (map RLit t)) s \<longleftrightarrow> ci_contains t s" for s
    using rx_find_literal [OF assms] by blast
  have g: "str_regex True (seq_of (map RLit t)) = (\<lambda>y. case y of VStr s \<Rightarrow> ci_contains t s | _ \<Rightarrow> False)"
  proof
    fix y show "str_regex True (seq_of (map RLit t)) y = (case y of VStr s \<Rightarrow> ci_contains t s | _ \<Rightarrow> False)"
      by (cases y) (simp_all add: str_regex_def f)
  qed
  show ?thesis
    by (cases x rule: option.exhaust; case_tac "the x")
       (simp_all add: regex_match_def field_contains_def g)
qed

lemma filter_match_build_filter:
  assumes "\<forall>t. q = Some t \<longrightarrow> literal_pattern t" and "category \<noteq> Some []" and "q \<noteq> Some []"
  shows "\<exists>qs. compile_filter (build_filter category q) = Inr qs \<and>
               (filter_match qs d \<longleftrightarrow> product_selected category q d)"
proof -
  have lit: "\<And>t. q = Some t \<Longrightarrow> regex_match True (seq_of (map RLit t)) x \<longleftrightarrow> field_contains t x" for x
    using assms regex_match_literal by blast
  show ?thesis
    using compile_build_filter [OF assms(1), of category] assms(2,3)
    by (cases category; cases q)
       (auto simp: filter_match_def product_selected_def search_fields_def lit)
qed


lemma build_filter_match:
  assumes "pred_option literal_pattern q" and "category \<noteq> Some []" and "q \<noteq> Some []"
    and "compile_filter (build_filter category q) = Inr qs"
  shows "filter_match qs d \<longleftrightarrow> product_selected category q d"
proof -
  have "\<forall>t. q = Some t \<longrightarrow> literal_pattern t" using assms(1) by (cases q) auto
  from filter_match_build_filter [OF this assms(2,3), of d] assms(4) show ?thesis by auto
qed

end
