(* ===== verification/Pricing.thy ===== *)
theory Pricing
  imports Prelude
begin

text \<open>
  The Order Pricing Engine: lines 82--83 of \<open>create_order\<close> in \<open>src/main.py\<close>,
\<^verbatim>\<open>subtotal = sum(item.price * item.quantity for item in body.items)
total = subtotal + (body.shipping or 0)\<close>
  The order body is the pydantic model \<open>Order\<close> (items, optional shipping) with
  its \<open>OrderItem\<close>s (product reference, price, quantity). The number type of
  prices is a parameter \<open>'a\<close>: the definitions only use \<open>+\<close>, \<open>*\<close>, \<open>0\<close> and the
  conversion of the integer quantity, in the code's order of evaluation. At
  exact (rational) arithmetic these are the spec's decimal subtotal and total;
  theories \<open>Float\<close> and \<open>Float_Range\<close> compute them as the code does, on
  Python floats, and measure the difference.
\<close>

record 'a order_item =
  product_id :: string
  price :: 'a
  quantity :: int

record 'a order_body =
  items :: "'a order_item list"
  shipping :: "'a option"

text \<open>\<open>item.price * item.quantity\<close>: the integer quantity is converted to the
  price's number type, as Python converts an \<open>int\<close> operand of a \<open>float\<close> product.\<close>

definition line_amount :: "'a::ring_1 order_item \<Rightarrow> 'a" where
  "line_amount it = price it * of_int (quantity it)"

definition subtotal :: "'a::ring_1 order_item list \<Rightarrow> 'a" where
  "subtotal its = py_sum (map line_amount its)"

definition total :: "'a::ring_1 order_body \<Rightarrow> 'a" where
  "total b = subtotal (items b) + py_or_zero (shipping b)"

declare line_amount_def [model_simps] subtotal_def [model_simps] total_def [model_simps]

section \<open>Subtotal as a sum\<close>

lemma subtotal_Nil [simp]: "subtotal [] = 0"
  by (simp add: subtotal_def)

lemma subtotal_Cons [simp]: "subtotal (it # its) = line_amount it + subtotal its"
  by (simp add: subtotal_def)

lemma subtotal_append: "subtotal (xs @ ys) = subtotal xs + subtotal ys"
  by (simp add: subtotal_def)

lemma line_amount_nonneg:
  "0 \<le> price it \<Longrightarrow> 0 \<le> quantity it \<Longrightarrow> 0 \<le> line_amount (it :: 'a::linordered_idom order_item)"
  by (simp add: line_amount_def)

lemma subtotal_nonneg_items:
  "(\<And>it. it \<in> set its \<Longrightarrow> 0 \<le> price it \<and> 0 \<le> quantity it) \<Longrightarrow>
   0 \<le> subtotal (its :: 'a::linordered_idom order_item list)"
  unfolding subtotal_def py_sum_sum_list
  by (rule sum_list_nonneg) (auto intro: line_amount_nonneg)

end
