(* ===== verification/Api.thy ===== *)
theory Api
  imports QueryBuilder Pricing
begin

text \<open>
  The API Surface: the FastAPI handlers of \<open>src/main.py\<close>. Each handler is a
  function of the store (and of its request parameters) that returns the HTTP
  response and, for the two that write, the new store. The body of every
  handler is wrapped in \<open>try: ... except Exception as e: raise
  HTTPException(status_code=500, detail=str(e))\<close>; the model keeps that shape:
  the \<open>try\<close> body is a function into \<open>exc + bson\<close> and \<open>raise_500\<close> is the
  \<open>except\<close> clause, which turns every exception, an \<open>HTTPException\<close> raised in
  the body included, into a 500 response.
  Request bodies arrive validated by pydantic (\<open>Product\<close>, \<open>Order\<close>); the
  validation itself (a 422 response) happens before the handler and is not
  part of this theory.
\<close>

datatype response = Ok nat bson | Err nat string

text \<open>The \<open>except Exception as e\<close> clause of every handler.\<close>

definition raise_500 :: "exc + bson \<Rightarrow> nat \<Rightarrow> response" where
  "raise_500 r code = (case r of Inl e \<Rightarrow> Err 500 (exc_str e) | Inr v \<Rightarrow> Ok code v)"

section \<open>GET /\<close>

definition read_root :: response where
  "read_root = Ok 200 (VDoc [(''message'', VStr ''E-Commerce API running'')])"

section \<open>GET /api/products\<close>

text \<open>Line 51 (and 72): \<open>p["_id"] = str(p["_id"]) if "_id" in p else None\<close>.\<close>

definition stringify_id :: "doc \<Rightarrow> doc" where
  "stringify_id p =
     (case dict_get p ''_id'' of
        Some v \<Rightarrow> dict_set p ''_id'' (VStr (py_str v))
      | None \<Rightarrow> dict_set p ''_id'' VNull)"

definition list_products_body :: "store \<Rightarrow> string option \<Rightarrow> string option \<Rightarrow> int \<Rightarrow> exc + bson" where
  "list_products_body s category q limit =
     (case get_documents s ''product'' (build_filter category q) limit of
        Inl e \<Rightarrow> Inl e
      | Inr products \<Rightarrow> Inr (VDoc [(''items'', VList (map (\<lambda>p. VDoc (stringify_id p)) products))]))"

definition list_products :: "store \<Rightarrow> string option \<Rightarrow> string option \<Rightarrow> int \<Rightarrow> response" where
  "list_products s category q limit = raise_500 (list_products_body s category q limit) 200"

section \<open>POST /api/products\<close>

definition create_product :: "store \<Rightarrow> doc \<Rightarrow> response \<times> store" where
  "create_product s body =
     (case create_document s ''product'' body of
        Inl e \<Rightarrow> (Err 500 (exc_str e), s)
      | Inr (pid, s') \<Rightarrow> (Ok 201 (VDoc [(''id'', VStr pid)]), s'))"

section \<open>GET /api/products/{product_id}\<close>

text \<open>\<open>db["product"]\<close> is evaluated before the argument \<open>ObjectId(product_id)\<close>,
  and the lookup runs last; \<open>if not doc\<close> holds for \<open>None\<close> and for an empty
  document. The \<open>HTTPException(404)\<close> is raised inside the \<open>try\<close>.\<close>

definition none_subscript_msg :: string where
  "none_subscript_msg = [CHR 0x27] @ ''NoneType'' @ [CHR 0x27] @ '' object is not subscriptable''"

definition get_product_body :: "store \<Rightarrow> string \<Rightarrow> exc + bson" where
  "get_product_body s pid =
     (if \<not> db_ready s then Inl (StoreError none_subscript_msg)
      else case oid_parse pid of
        None \<Rightarrow>
          if length pid = 24 \<and> py_fromhex pid \<noteq> None
          then Inl (Unmodelled ''ObjectId of fewer than 12 bytes'')
          else Inl (InvalidId (invalid_id_msg pid))
      | Some x \<Rightarrow>
          (case find_one s ''product'' [(''_id'', VOid x)] of
             Inl e \<Rightarrow> Inl e
           | Inr None \<Rightarrow> Inl (HTTPException 404 ''Product not found'')
           | Inr (Some d) \<Rightarrow>
               if d = [] then Inl (HTTPException 404 ''Product not found'')
               else Inr (VDoc (stringify_id d))))"

definition get_product :: "store \<Rightarrow> string \<Rightarrow> response" where
  "get_product s pid = raise_500 (get_product_body s pid) 200"

section \<open>POST /api/orders\<close>

text \<open>\<open>body.model_dump()\<close> of the validated \<open>Order\<close>, whose prices are the
  doubles pydantic read from the request (theory \<open>Float\<close>, \<open>parse_order\<close>),
  stored unchanged; the subtotal and total are recorded here as the exact sums
  of those doubles, while the code rounds each operation (theory \<open>Float\<close>).
  The dump holds its items and its
  shipping, in the schema's field order.\<close>

definition dump_item :: "rat order_item \<Rightarrow> bson" where
  "dump_item it =
     VDoc [(''product_id'', VStr (product_id it)), (''price'', VFloat (price it)),
           (''quantity'', VInt (quantity it))]"

definition dump_order :: "rat order_body \<Rightarrow> doc" where
  "dump_order b =
     [(''items'', VList (map dump_item (items b))),
      (''shipping'', case shipping b of None \<Rightarrow> VNull | Some x \<Rightarrow> VFloat x)]"

text \<open>The Python values of \<open>subtotal\<close> and \<open>total\<close>: \<open>sum\<close> of an empty
  generator is the integer \<open>0\<close>, and \<open>0 + (shipping or 0)\<close> stays an integer
  when the shipping is absent or zero; otherwise they are floats.\<close>

definition subtotal_value :: "rat order_body \<Rightarrow> bson" where
  "subtotal_value b = (if items b = [] then VInt 0 else VFloat (subtotal (items b)))"

definition total_value :: "rat order_body \<Rightarrow> bson" where
  "total_value b =
     (if items b = [] \<and> py_or_zero (shipping b) = 0 then VInt 0 else VFloat (total b))"

text \<open>Lines 84--86: the dumped body with the server's \<open>subtotal\<close> and \<open>total\<close>.\<close>

definition order_payload :: "rat order_body \<Rightarrow> doc" where
  "order_payload b =
     (let payload = dump_order b;
          payload = dict_set payload ''subtotal'' (subtotal_value b);
          payload = dict_set payload ''total'' (total_value b)
      in payload)"

definition create_order :: "store \<Rightarrow> rat order_body \<Rightarrow> response \<times> store" where
  "create_order s body =
     (case create_document s ''order'' (order_payload body) of
        Inl e \<Rightarrow> (Err 500 (exc_str e), s)
      | Inr (oid, s') \<Rightarrow> (Ok 201 (VDoc [(''id'', VStr oid), (''total'', total_value body)]), s'))"

section \<open>GET /test\<close>

text \<open>The status strings of \<open>test_database\<close> start with emoji, written here as
  their UTF-8 bytes: U+2705, U+274C and U+26A0 U+FE0F.\<close>

definition check_mark :: string where
  "check_mark = [CHR 0xE2, CHR 0x9C, CHR 0x85]"

definition cross_mark :: string where
  "cross_mark = [CHR 0xE2, CHR 0x9D, CHR 0x8C]"

definition warning_sign :: string where
  "warning_sign = [CHR 0xE2, CHR 0x9A, CHR 0xA0, CHR 0xEF, CHR 0xB8, CHR 0x8F]"

text \<open>Lines 94--127. The outer \<open>try\<close> has nothing that raises in the model:
  reading \<open>db.name\<close> of a pymongo database does not. The environment is
  \<open>os.getenv\<close>; an empty variable is falsy.\<close>

definition test_database :: "store \<Rightarrow> (string \<Rightarrow> string option) \<Rightarrow> response" where
  "test_database s env =
     (let response =
            [(''backend'', VStr (check_mark @ '' Running'')),
             (''database'', VStr (cross_mark @ '' Not Available'')),
             (''database_url'', VNull),
             (''database_name'', VNull),
             (''connection_status'', VStr ''Not Connected''),
             (''collections'', VList [])];
          response =
            (if db_ready s then
               (let response = dict_set response ''database'' (VStr (check_mark @ '' Available''));
                    response = dict_set response ''database_url'' (VStr (check_mark @ '' Configured''));
                    response = dict_set response ''database_name'' (VStr (db_name s));
                    response = dict_set response ''connection_status'' (VStr ''Connected'')
                in case list_collection_names s of
                     Inr collections \<Rightarrow>
                       dict_set (dict_set response ''collections'' (VList (map VStr (take 10 collections))))
                         ''database'' (VStr (check_mark @ '' Connected & Working''))
                   | Inl e \<Rightarrow>
                       dict_set response ''database''
                         (VStr (warning_sign @ ''  Connected but Error: '' @ take 50 (exc_str e))))
             else dict_set response ''database'' (VStr (warning_sign @ ''  Available but not initialized'')));
          response = dict_set response ''database_url''
            (VStr (if py_truthy_str (env ''DATABASE_URL'') then check_mark @ '' Set'' else cross_mark @ '' Not Set''));
          response = dict_set response ''database_name''
            (VStr (if py_truthy_str (env ''DATABASE_NAME'') then check_mark @ '' Set'' else cross_mark @ '' Not Set''))
      in Ok 200 (VDoc response))"

declare raise_500_def [model_simps] read_root_def [model_simps] stringify_id_def [model_simps]
  list_products_body_def [model_simps] list_products_def [model_simps]
  create_product_def [model_simps] get_product_body_def [model_simps] get_product_def [model_simps]
  dump_item_def [model_simps] dump_order_def [model_simps] subtotal_value_def [model_simps]
  total_value_def [model_simps] order_payload_def [model_simps] create_order_def [model_simps]
  none_subscript_msg_def [model_simps] test_database_def [model_simps] check_mark_def [model_simps]
  cross_mark_def [model_simps] warning_sign_def [model_simps]


section \<open>Handler lemmas\<close>

lemma keys_order_payload: "map fst (order_payload b) = [''items'', ''shipping'', ''subtotal'', ''total'']"
  by (simp add: order_payload_def dump_order_def)

lemma order_payload_no_id: "\<not> dict_has (order_payload b) ''_id''"
  by (simp add: dict_has_def keys_order_payload)

lemma stringify_id_stored: "\<not> dict_has d ''_id'' \<Longrightarrow>
  stringify_id ((''_id'', VOid x) # d) = (''_id'', VStr (oid_str x)) # d"
  by (simp add: stringify_id_def dict_get_def)

lemma list_products_regex:
  assumes "db_ready s" and "online s" and "rx_compile t = Inr r" and "t \<noteq> []"
  shows "list_products s category (Some t) n =
         Ok 200 (VDoc [(''items'', VList (map (\<lambda>p. VDoc (stringify_id p))
            (mongo_limit n (filter (regex_selected category r) (coll_docs s ''product'')))))])"
proof -
  obtain qs where c: "compile_filter (build_filter category (Some t)) = Inr qs"
    using filter_match_build_filter_rx [OF assms(3,4), of category] by blast
  have m: "filter_match qs d \<longleftrightarrow> regex_selected category r d" for d
    using filter_match_build_filter_rx [OF assms(3,4), of category d] c by auto
  have "filter (filter_match qs) ds = filter (regex_selected category r) ds" for ds
    using m by (induction ds) auto
  then show ?thesis
    using assms c by (simp add: list_products_def list_products_body_def get_documents_def raise_500_def)
qed

section \<open>Properties of the handlers\<close>



text \<open>
  C2: \<open>GET /api/products/{id}\<close> for a well-formed identifier that no product
  has does not answer 404: the \<open>HTTPException(404)\<close> raised inside the
  \<open>try\<close> is caught by \<open>except Exception\<close> and re-raised as a 500 whose
  detail is \<open>"404: Product not found"\<close>.
\<close>

theorem get_product_missing_500:
  assumes "db_ready s" and "online s" and "oid_parse pid = Some x"
    and "list_all (\<lambda>d. \<not> eq_match (VOid x) (dict_get d ''_id'')) (coll_docs s ''product'')"
  shows "get_product s pid = Err 500 ''404: Product not found''"
proof -
  have "find (filter_match [QField ''_id'' (CEq (VOid x))]) (coll_docs s ''product'') = None"
    using assms(4) by (simp add: find_None_iff filter_match_def list_all_iff)
  then show ?thesis
    using assms by (simp add: get_product_def get_product_body_def raise_500_def find_one_def
        dec_str_404 is_operator_def)
qed

theorem get_product_missing_500_witness:
  "db_ready \<lparr>db_ready = True, online = True, colls = [], next_id = 0, db_name = ''shop''\<rparr> \<and> online \<lparr>db_ready = True, online = True, colls = [], next_id = 0, db_name = ''shop''\<rparr> \<and> oid_parse (oid_str 5) = Some 5 \<and>
   list_all (\<lambda>d. \<not> eq_match (VOid 5) (dict_get d ''_id'')) (coll_docs \<lparr>db_ready = True, online = True, colls = [], next_id = 0, db_name = ''shop''\<rparr> ''product'') \<and>
   get_product \<lparr>db_ready = True, online = True, colls = [], next_id = 0, db_name = ''shop''\<rparr> (oid_str 5) = Err 500 ''404: Product not found''"
  using get_product_missing_500 [of "\<lparr>db_ready = True, online = True, colls = [], next_id = 0, db_name = ''shop''\<rparr>" "oid_str 5" 5]
  by (simp add: coll_docs_def dict_get_def)

text \<open>
  C3: a product identifier that does not have 24 characters, or that
  \<open>bytes.fromhex\<close> rejects, is answered with 500 and bson's \<open>InvalidId\<close>
  message, the identifier shown by \<open>repr\<close>, not with a validation error.
\<close>

theorem get_product_invalid_id:
  assumes "db_ready s" and "length pid \<noteq> 24 \<or> py_fromhex pid = None"
  shows "get_product s pid =
    Err 500 (py_repr pid @ '' is not a valid ObjectId, it must be a 12-byte input or a 24-character hex string'')"
proof -
  have "oid_parse pid = None" using assms(2) oid_parse_fromhex [of pid] by auto
  with assms show ?thesis by (simp add: get_product_def get_product_body_def raise_500_def invalid_id_msg_def)
qed

theorem get_product_invalid_id_witness:
  "db_ready \<lparr>db_ready = True, online = True, colls = [], next_id = 0, db_name = ''shop''\<rparr> \<and>
   py_fromhex ''it's'' = None \<and>
   get_product \<lparr>db_ready = True, online = True, colls = [], next_id = 0, db_name = ''shop''\<rparr> ''it's'' =
     Err 500 ([CHR 0x22] @ ''it's'' @ [CHR 0x22] @
       '' is not a valid ObjectId, it must be a 12-byte input or a 24-character hex string'')"
  using get_product_invalid_id [of "\<lparr>db_ready = True, online = True, colls = [], next_id = 0, db_name = ''shop''\<rparr>" "''it's''"]
  by (simp add: py_repr_def repr_char_def Let_def hex_digit_val_def ascii_space_def)

text \<open>
  C4: an empty \<open>category\<close> parameter is ignored (\<open>if category:\<close> is false
  for the empty string): listing with \<open>category=""\<close> is listing without a
  category, although the spec asks for exact equality when it is present.
\<close>

theorem list_products_empty_category:
  "list_products s (Some []) q n = list_products s None q n"
  by (simp add: list_products_def list_products_body_def build_filter_def)

text \<open>
  C8: \<open>GET /test\<close> always answers 200. Its connection status says whether the
  database was initialised, and its \<open>database_url\<close> and \<open>database_name\<close>
  fields end up reporting only whether the environment variables
  \<open>DATABASE_URL\<close> and \<open>DATABASE_NAME\<close> are set (the later assignments
  overwrite the database's own name); at most ten collection names are listed.
\<close>

theorem test_database_reports:
  "\<exists>r. test_database s env = Ok 200 (VDoc r) \<and>
     dict_get r ''connection_status'' = Some (VStr (if db_ready s then ''Connected'' else ''Not Connected'')) \<and>
     dict_get r ''database_url'' =
       Some (VStr (if py_truthy_str (env ''DATABASE_URL'') then check_mark @ '' Set'' else cross_mark @ '' Not Set'')) \<and>
     dict_get r ''database_name'' =
       Some (VStr (if py_truthy_str (env ''DATABASE_NAME'') then check_mark @ '' Set'' else cross_mark @ '' Not Set'')) \<and>
     (\<exists>cs. dict_get r ''collections'' = Some (VList cs) \<and> length cs \<le> 10)"
proof (cases "db_ready s")
  case False
  then show ?thesis by (simp add: test_database_def Let_def dict_get_def)
next
  case True
  show ?thesis
  proof (cases "list_collection_names s")
    case (Inl e)
    with True show ?thesis by (simp add: test_database_def Let_def dict_get_def)
  next
    case (Inr cs)
    with True show ?thesis by (simp add: test_database_def Let_def dict_get_def)
  qed
qed

end
