(* ===== verification/App.thy ===== *)
theory App
  imports Api
begin

text \<open>
  The application as a state machine over the store. A request is one of the
  six endpoints with its parameters; \<open>handle\<close> dispatches it to its handler
  (FastAPI's routing) and returns the response and the new store. The
  reachable stores are those of a fresh, empty database after any sequence of
  JSON requests and of changes in the server's availability. Over them: the
  store invariant, append-only collections, list-then-get consistency, the
  limit, the status codes and the answers of an uninitialised database.
\<close>

datatype request =
    GetRoot
  | ListProducts "string option" "string option" int
  | CreateProduct doc
  | GetProduct string
  | CreateOrder "rat order_body"
  | TestDatabase

fun handle :: "(string \<Rightarrow> string option) \<Rightarrow> store \<Rightarrow> request \<Rightarrow> response \<times> store" where
  "handle env s GetRoot = (read_root, s)"
| "handle env s (ListProducts category q limit) = (list_products s category q limit, s)"
| "handle env s (CreateProduct body) = create_product s body"
| "handle env s (GetProduct pid) = (get_product s pid, s)"
| "handle env s (CreateOrder body) = create_order s body"
| "handle env s TestDatabase = (test_database s env, s)"

text \<open>Request bodies arrive as JSON: a product body holds no ObjectId.\<close>

definition req_json :: "request \<Rightarrow> bool" where
  "req_json req = (case req of CreateProduct body \<Rightarrow> json_doc body | _ \<Rightarrow> True)"

definition init_store :: "bool \<Rightarrow> string \<Rightarrow> store" where
  "init_store ready name = \<lparr>db_ready = ready, online = True, colls = [], next_id = 0, db_name = name\<rparr>"

inductive reachable :: "store \<Rightarrow> bool" where
  start: "reachable (init_store ready name)"
| request: "reachable s \<Longrightarrow> req_json req \<Longrightarrow> reachable (snd (handle env s req))"
| availability: "reachable s \<Longrightarrow> reachable (s\<lparr>online := b\<rparr>)"

text \<open>A store reached by one \<open>POST /api/products\<close> on a fresh database,
  used by the examples below.\<close>

definition shop_one :: store where
  "shop_one = snd (handle (\<lambda>_. None) (init_store True ''shop'') (CreateProduct [(''title'', VStr ''Mug'')]))"

section \<open>Each request writes at most one document\<close>

lemma create_document_insert:
  "create_document s c d = Inr (i, s') \<Longrightarrow> \<exists>x. insert_one s c d = Inr (x, s')"
  by (auto simp: create_document_def split: if_splits sum.splits)

lemma handle_cases:
  "snd (handle env s req) = s \<or> (\<exists>c d x. insert_one s c d = Inr (x, snd (handle env s req)))"
proof (cases req)
  case (CreateProduct body)
  then show ?thesis
    by (auto simp: create_product_def dest: create_document_insert split: sum.splits)
next
  case (CreateOrder body)
  then show ?thesis
    by (auto simp: create_order_def dest: create_document_insert split: sum.splits)
qed simp_all

lemma insert_one_next_id: "insert_one s c d = Inr (x, s') \<Longrightarrow> next_id s' = Suc (next_id s)"
  by (auto simp: insert_one_def Let_def split: if_splits)

lemma insert_one_docs:
  "insert_one s c d = Inr (x, s') \<Longrightarrow>
   coll_docs s' c' = (if c' = c then coll_docs s c @ [(''_id'', VOid x) # d] else coll_docs s c')"
  by (auto simp: insert_one_def Let_def coll_docs_set split: if_splits)

lemma next_id_handle_mono: "next_id s \<le> next_id (snd (handle env s req))"
  using handle_cases [of env s req] insert_one_next_id by fastforce

section \<open>The store invariant in every reachable state\<close>

lemma store_inv_online [simp]: "store_inv (s\<lparr>online := b\<rparr>) = store_inv s"
  by (simp add: store_inv_def)

lemma reachable_store_inv:
  "reachable s \<Longrightarrow> next_id s \<le> 2 ^ 96 \<Longrightarrow> store_inv s"
proof (induction rule: reachable.induct)
  case (start ready name)
  then show ?case by (simp add: init_store_def store_inv_def)
next
  case (request s req env)
  let ?s' = "snd (handle env s req)"
  have "next_id s \<le> 2 ^ 96"
    using request.prems next_id_handle_mono [of s env req] by linarith
  then have inv: "store_inv s" by (rule request.IH)
  from handle_cases [of env s req] show ?case
  proof
    assume "?s' = s"
    with inv show ?thesis by simp
  next
    assume "\<exists>c d x. insert_one s c d = Inr (x, ?s')"
    then obtain c d x where ins: "insert_one s c d = Inr (x, ?s')" by blast
    with request.prems have "next_id s < 2 ^ 96"
      using insert_one_next_id [OF ins] by linarith
    then show ?thesis using inv ins by (simp add: insert_one_inv [OF inv _ ins])
  qed
next
  case (availability s b)
  then show ?case by simp
qed

lemma get_documents_subset:
  "get_documents s c flt n = Inr ds \<Longrightarrow> set ds \<subseteq> set (coll_docs s c)"
  by (auto simp: get_documents_def mongo_limit_def split: if_splits sum.splits dest: in_set_takeD)

lemma get_documents_ready:
  "get_documents s c flt n = Inr ds \<Longrightarrow> db_ready s \<and> online s"
  by (simp add: get_documents_def split: if_splits)

lemma get_product_stored:
  assumes inv: "store_inv s" and ready: "db_ready s" and on: "online s"
    and d: "d \<in> set (coll_docs s ''product'')"
  shows "\<exists>x rest. d = (''_id'', VOid x) # rest \<and>
           get_product s (oid_str x) = Ok 200 (VDoc ((''_id'', VStr (oid_str x)) # rest))"
proof -
  have ok: "doc_ok (next_id s) d" using inv d by (rule store_inv_docs)
  then obtain x rest where dx: "d = (''_id'', VOid x) # rest" and noid: "\<not> dict_has rest ''_id''"
    by (auto simp: doc_ok_def split: list.splits prod.splits bson.splits)
  have "find (filter_match [QField ''_id'' (CEq (VOid x))]) (coll_docs s ''product'') = Some d"
    using find_stored [of "coll_docs s ''product''" "next_id s" d x] inv d dx
    by (auto intro: store_inv_docs store_inv_ids)
  then have "get_product s (oid_str x) = Ok 200 (VDoc (stringify_id d))"
    by (simp add: get_product_def get_product_body_def find_one_def raise_500_def ready on dx)
  with dx noid show ?thesis by (simp add: stringify_id_stored)
qed

lemma shop_one_eq: "shop_one = \<lparr>db_ready = True, online = True,
   colls = [(''product'', [[(''_id'', VOid 0), (''title'', VStr ''Mug'')]])], next_id = 1, db_name = ''shop''\<rparr>"
  by (simp add: shop_one_def init_store_def create_product_def create_document_def insert_one_def
      coll_docs_def dict_get_def dict_has_def)

lemma reachable_shop_one: "reachable shop_one"
  unfolding shop_one_def by (rule reachable.request) (rule reachable.start, simp add: req_json_def)

section \<open>Properties of the running application\<close>

text \<open>
  C9: in every reachable store, each product that \<open>GET /api/products\<close>
  lists, whatever its filter and limit, carries its id as a 24-digit hex string,
  and \<open>GET /api/products/{id}\<close> with that id answers 200 with the same JSON.
\<close>

theorem listed_products_fetchable:
  assumes "reachable s" and "next_id s \<le> 2 ^ 96"
    and "list_products s category q n = Ok 200 (VDoc [(''items'', VList listed)])"
    and "item \<in> set listed"
  shows "\<exists>x rest. item = VDoc ((''_id'', VStr (oid_str x)) # rest) \<and> get_product s (oid_str x) = Ok 200 item"
proof -
  have inv: "store_inv s" using assms(1,2) by (rule reachable_store_inv)
  obtain ds where ds: "get_documents s ''product'' (build_filter category q) n = Inr ds"
    and listed: "listed = map (\<lambda>p. VDoc (stringify_id p)) ds"
    using assms(3) by (auto simp: list_products_def list_products_body_def raise_500_def split: sum.splits)
  from assms(4) listed obtain d where "d \<in> set ds" and item: "item = VDoc (stringify_id d)" by auto
  then have d: "d \<in> set (coll_docs s ''product'')" using get_documents_subset [OF ds] by blast
  have "db_ready s" and "online s" using get_documents_ready [OF ds] by auto
  from get_product_stored [OF inv this d] obtain x rest where
    dx: "d = (''_id'', VOid x) # rest" and
    get: "get_product s (oid_str x) = Ok 200 (VDoc ((''_id'', VStr (oid_str x)) # rest))" by blast
  have "\<not> dict_has rest ''_id''"
    using store_inv_docs [OF inv d] dx by (simp add: doc_ok_def)
  with dx item have "item = VDoc ((''_id'', VStr (oid_str x)) # rest)" by (simp add: stringify_id_stored)
  with get show ?thesis by blast
qed

theorem listed_products_fetchable_witness:
  "reachable shop_one \<and> next_id shop_one \<le> 2 ^ 96 \<and>
   list_products shop_one None None 0 =
     Ok 200 (VDoc [(''items'', VList [VDoc [(''_id'', VStr (oid_str 0)), (''title'', VStr ''Mug'')]])]) \<and>
   VDoc [(''_id'', VStr (oid_str 0)), (''title'', VStr ''Mug'')] \<in>
     set [VDoc [(''_id'', VStr (oid_str 0)), (''title'', VStr ''Mug'')]] \<and>
   (\<exists>x rest. VDoc [(''_id'', VStr (oid_str 0)), (''title'', VStr ''Mug'')] = VDoc ((''_id'', VStr (oid_str x)) # rest) \<and>
      get_product shop_one (oid_str x) = Ok 200 (VDoc [(''_id'', VStr (oid_str 0)), (''title'', VStr ''Mug'')]))"
proof -
  note r = reachable_shop_one
  have l: "list_products shop_one None None 0 =
     Ok 200 (VDoc [(''items'', VList [VDoc [(''_id'', VStr (oid_str 0)), (''title'', VStr ''Mug'')]])])"
    by (simp add: shop_one_eq list_products_def list_products_body_def raise_500_def get_documents_def
        build_filter_def coll_docs_def dict_get_def filter_match_def mongo_limit_def stringify_id_def)
  have n: "next_id shop_one \<le> 2 ^ 96" by (simp add: shop_one_eq)
  show ?thesis
    using listed_products_fetchable [OF r n l, of "VDoc [(''_id'', VStr (oid_str 0)), (''title'', VStr ''Mug'')]"]
      r n l by simp
qed

text \<open>
  C10: the store is append-only: a request leaves every collection as it was
  or appends one document, whose \<open>_id\<close> is the fresh ObjectId of the
  store's counter; no request changes or deletes a stored document.
\<close>

theorem handle_append_only:
  "coll_docs (snd (handle env s req)) c = coll_docs s c \<or>
   (\<exists>d. coll_docs (snd (handle env s req)) c = coll_docs s c @ [(''_id'', VOid (word_of_nat (next_id s))) # d])"
proof -
  from handle_cases [of env s req] show ?thesis
  proof
    assume "snd (handle env s req) = s"
    then show ?thesis by simp
  next
    assume "\<exists>c' d x. insert_one s c' d = Inr (x, snd (handle env s req))"
    then obtain c' d x where ins: "insert_one s c' d = Inr (x, snd (handle env s req))" by blast
    then have "x = word_of_nat (next_id s)" by (simp add: insert_one_def Let_def split: if_splits)
    with insert_one_docs [OF ins, of c] show ?thesis by auto
  qed
qed

text \<open>
  C11: the \<open>limit\<close> query parameter acts by its absolute value, and a
  limit of 0 lists every matching product (as a limit as large as the
  collection does).
\<close>

theorem list_products_limit:
  "list_products s category q (- n) = list_products s category q n \<and>
   list_products s category q 0 = list_products s category q (int (length (coll_docs s ''product'')))"
proof -
  have "mongo_limit 0 (filter P (coll_docs s ''product'')) =
        mongo_limit (int (length (coll_docs s ''product''))) (filter P (coll_docs s ''product''))" for P
    by (simp add: mongo_limit_def)
  then show ?thesis
    by (simp add: list_products_def list_products_body_def get_documents_def mongo_limit_def
        split: sum.splits)
qed

text \<open>
  C17: a non-zero limit bounds the listing: \<open>GET /api/products\<close> with
  \<open>limit = n \<noteq> 0\<close> lists at most \<open>|n|\<close> products.
\<close>

theorem list_products_limit_bound:
  assumes "n \<noteq> 0" and "list_products s category q n = Ok 200 (VDoc [(''items'', VList listed)])"
  shows "length listed \<le> nat \<bar>n\<bar>"
  using assms
  by (auto simp: list_products_def list_products_body_def raise_500_def get_documents_def mongo_limit_def
      split: sum.splits if_splits)

theorem list_products_limit_bound_witness:
  "(-1 :: int) \<noteq> 0 \<and>
   list_products shop_one None None (-1) =
     Ok 200 (VDoc [(''items'', VList [VDoc [(''_id'', VStr (oid_str 0)), (''title'', VStr ''Mug'')]])]) \<and>
   length [VDoc [(''_id'', VStr (oid_str 0)), (''title'', VStr ''Mug'')]] \<le> nat \<bar>-1 :: int\<bar>"
proof -
  have l: "list_products shop_one None None (-1) =
     Ok 200 (VDoc [(''items'', VList [VDoc [(''_id'', VStr (oid_str 0)), (''title'', VStr ''Mug'')]])])"
    by (simp add: shop_one_eq list_products_def list_products_body_def raise_500_def get_documents_def
        build_filter_def coll_docs_def dict_get_def filter_match_def mongo_limit_def stringify_id_def)
  show ?thesis using list_products_limit_bound [OF _ l] l by simp
qed

text \<open>
  C18: every request that reaches a handler (past FastAPI's validation) is
  answered with 200, 201 or 500: no request ever gets a
  404 (the spec's answer for a missing product) or any other client error,
  because each handler turns every exception into a 500.
\<close>

theorem handle_status_codes:
  "(\<exists>v. fst (handle env s req) = Ok 200 v) \<or> (\<exists>v. fst (handle env s req) = Ok 201 v) \<or>
   (\<exists>m. fst (handle env s req) = Err 500 m)"
proof (cases req)
  case TestDatabase
  then show ?thesis
    by (cases "db_ready s"; cases "list_collection_names s") (simp_all add: test_database_def Let_def)
qed (auto simp: read_root_def list_products_def get_product_def raise_500_def create_product_def
     create_order_def split: sum.splits)

text \<open>
  C22: while the database is not initialised (\<open>db is None\<close>), the four
  endpoints that use it answer 500 and change nothing: listing, creating a
  product and creating an order report the gateway's "Database not available"
  message, and fetching a product reports the \<open>TypeError\<close> of subscripting
  \<open>None\<close> (\<open>db["product"]\<close> is evaluated first), whatever the identifier.
\<close>

theorem uninitialised_db_errors:
  assumes "\<not> db_ready s"
  shows "handle env s (ListProducts category q n) = (Err 500 not_available_msg, s) \<and>
         handle env s (CreateProduct body) = (Err 500 not_available_msg, s) \<and>
         handle env s (CreateOrder order) = (Err 500 not_available_msg, s) \<and>
         handle env s (GetProduct pid) = (Err 500 none_subscript_msg, s)"
  using assms by (simp add: list_products_def list_products_body_def get_documents_def raise_500_def
      create_product_def create_order_def create_document_def get_product_def get_product_body_def)

theorem uninitialised_db_errors_witness:
  "\<not> db_ready (init_store False ''shop'') \<and>
   handle (\<lambda>_. None) (init_store False ''shop'') (GetProduct ''zz'') = (Err 500 none_subscript_msg, init_store False ''shop'')"
  using uninitialised_db_errors [of "init_store False ''shop''" "\<lambda>_. None"] by (simp add: init_store_def)

end
