(* ===== verification/Interleaving.thy ===== *)
theory Interleaving
  imports App
begin

text \<open>
  Ordering of requests. Each handler of \<open>src/main.py\<close> makes at most one write
  to the store, and whether that write happens depends only on whether the
  database is initialised and reachable and on the request itself. So the
  documents a sequence of requests stores do not depend on the order in which
  the requests are served: only the identifiers they receive do. The stored
  contents of a collection are compared as a multiset of documents without
  their \<open>_id\<close>.
\<close>

definition contents :: "store \<Rightarrow> string \<Rightarrow> doc multiset" where
  "contents s c = mset (map tl (coll_docs s c))"

text \<open>The document a request adds to collection \<open>c\<close>.\<close>

fun added :: "store \<Rightarrow> request \<Rightarrow> string \<Rightarrow> doc multiset" where
  "added s (CreateProduct body) c =
     (if db_ready s \<and> online s \<and> \<not> dict_has body ''_id'' \<and> c = ''product'' then {#body#} else {#})"
| "added s (CreateOrder body) c =
     (if db_ready s \<and> online s \<and> c = ''order'' then {#order_payload body#} else {#})"
| "added s _ c = {#}"

definition run_requests :: "(string \<Rightarrow> string option) \<Rightarrow> store \<Rightarrow> request list \<Rightarrow> store" where
  "run_requests env s reqs = foldl (\<lambda>s' req. snd (handle env s' req)) s reqs"

text \<open>The server answering a sequence of requests one after the other: the
  responses in order and the final store.\<close>

primrec serve :: "(string \<Rightarrow> string option) \<Rightarrow> store \<Rightarrow> request list \<Rightarrow> response list \<times> store" where
  "serve env s [] = ([], s)"
| "serve env s (req # reqs) =
     (let (r, s') = handle env s req; (rs, s'') = serve env s' reqs in (r # rs, s''))"

section \<open>Lemmas\<close>

lemma insert_one_contents:
  "insert_one s c d = Inr (x, s') \<Longrightarrow> contents s' c' = contents s c' + (if c' = c then {#d#} else {#})"
  by (simp add: contents_def insert_one_docs)

lemma insert_one_flags: "insert_one s c d = Inr (x, s') \<Longrightarrow> db_ready s' = db_ready s \<and> online s' = online s"
  by (auto simp: insert_one_def Let_def split: if_splits)

lemma handle_flags:
  "db_ready (snd (handle env s req)) = db_ready s \<and> online (snd (handle env s req)) = online s"
  using handle_cases [of env s req] insert_one_flags by fastforce

lemma handle_contents: "contents (snd (handle env s req)) c = contents s c + added s req c"
proof (cases req)
  case (CreateProduct body)
  then show ?thesis
    by (auto simp: create_product_def create_document_def insert_one_def Let_def contents_def
        coll_docs_set split: sum.splits if_splits)
next
  case (CreateOrder body)
  then show ?thesis
    by (auto simp: create_order_def create_document_def insert_one_def Let_def contents_def
        coll_docs_set order_payload_no_id split: sum.splits if_splits)
qed simp_all

lemma added_flags:
  "db_ready s' = db_ready s \<Longrightarrow> online s' = online s \<Longrightarrow> added s' req c = added s req c"
  by (cases req) simp_all

lemma run_requests_contents:
  "contents (run_requests env s reqs) c = contents s c + sum_mset (image_mset (\<lambda>req. added s req c) (mset reqs))"
proof (induction reqs arbitrary: s)
  case Nil
  then show ?case by (simp add: run_requests_def)
next
  case (Cons req reqs)
  let ?s1 = "snd (handle env s req)"
  have "run_requests env s (req # reqs) = run_requests env ?s1 reqs" by (simp add: run_requests_def)
  moreover have "image_mset (\<lambda>r. added ?s1 r c) (mset reqs) = image_mset (\<lambda>r. added s r c) (mset reqs)"
    using handle_flags [of env s req] by (intro image_mset_cong added_flags) simp_all
  ultimately show ?case using Cons.IH [of ?s1] by (simp add: handle_contents add.assoc)
qed

lemma create_product_up:
  assumes "db_ready s" and "online s" and "\<not> dict_has b ''_id''"
  shows "(\<exists>pid. fst (create_product s b) = Ok 201 (VDoc [(''id'', VStr pid)])) \<and>
         map tl (coll_docs (snd (create_product s b)) ''product'') = map tl (coll_docs s ''product'') @ [b] \<and>
         db_ready (snd (create_product s b)) \<and> online (snd (create_product s b))"
  using assms by (simp add: create_product_def create_document_def insert_one_def Let_def coll_docs_set)

lemma serve_creates:
  "db_ready s \<Longrightarrow> online s \<Longrightarrow> list_all (\<lambda>b. \<not> dict_has b ''_id'') bodies \<Longrightarrow>
   serve env s (map CreateProduct bodies) = (rs, s') \<Longrightarrow>
   list_all (\<lambda>r. \<exists>pid. r = Ok 201 (VDoc [(''id'', VStr pid)])) rs \<and> length rs = length bodies \<and>
   map tl (coll_docs s' ''product'') = map tl (coll_docs s ''product'') @ bodies"
proof (induction bodies arbitrary: s rs)
  case Nil
  then show ?case by simp
next
  case (Cons b bodies)
  let ?s1 = "snd (create_product s b)"
  let ?r = "serve env ?s1 (map CreateProduct bodies)"
  have "serve env s (map CreateProduct (b # bodies)) = (fst (create_product s b) # fst ?r, snd ?r)"
    by (simp add: Let_def split_def)
  then have rs: "rs = fst (create_product s b) # fst ?r" and s': "snd ?r = s'" using Cons.prems(4) by simp_all
  have rs': "serve env ?s1 (map CreateProduct bodies) = (fst ?r, s')" using s' by (cases ?r) simp
  have up: "\<exists>pid. fst (create_product s b) = Ok 201 (VDoc [(''id'', VStr pid)])"
    "map tl (coll_docs ?s1 ''product'') = map tl (coll_docs s ''product'') @ [b]" "db_ready ?s1" "online ?s1"
    using create_product_up [of s b] Cons.prems(1-3) by simp_all
  have "list_all (\<lambda>r. \<exists>pid. r = Ok 201 (VDoc [(''id'', VStr pid)])) (fst ?r) \<and> length (fst ?r) = length bodies \<and>
        map tl (coll_docs s' ''product'') = map tl (coll_docs ?s1 ''product'') @ bodies"
    using Cons.IH [OF up(3,4) _ rs'] Cons.prems(3) by simp
  with up rs show ?case by simp
qed

section \<open>Properties\<close>

text \<open>
  C16: serving the same requests in any order stores the same documents: if two
  request sequences are permutations of each other, every collection ends with
  the same multiset of documents (without their \<open>_id\<close>).
\<close>

theorem requests_order_independent:
  assumes "mset reqs = mset reqs'"
  shows "contents (run_requests env s reqs) c = contents (run_requests env s reqs') c"
  using assms by (simp add: run_requests_contents)

theorem requests_order_independent_witness:
  "mset [CreateProduct [(''title'', VStr ''Mug'')], CreateProduct [(''title'', VStr ''Tea'')]] =
     mset [CreateProduct [(''title'', VStr ''Tea'')], CreateProduct [(''title'', VStr ''Mug'')]] \<and>
   contents (run_requests (\<lambda>_. None) (init_store True ''shop'')
       [CreateProduct [(''title'', VStr ''Mug'')], CreateProduct [(''title'', VStr ''Tea'')]]) ''product'' =
   contents (run_requests (\<lambda>_. None) (init_store True ''shop'')
       [CreateProduct [(''title'', VStr ''Tea'')], CreateProduct [(''title'', VStr ''Mug'')]]) ''product''"
  using requests_order_independent [of "[CreateProduct [(''title'', VStr ''Mug'')], CreateProduct [(''title'', VStr ''Tea'')]]"
      "[CreateProduct [(''title'', VStr ''Tea'')], CreateProduct [(''title'', VStr ''Mug'')]]"
      "\<lambda>_. None" "init_store True ''shop''" "''product''"]
  by simp

text \<open>
  C21: while the database is initialised and reachable, no product submission
  is lost: serving any finite sequence of product creations whose bodies carry
  no \<open>_id\<close> answers every one of them with 201 and an id, and the product
  collection ends with all the submitted products, in submission order, after
  the ones it held.
\<close>

theorem product_creations_progress:
  assumes "db_ready s" and "online s" and "list_all (\<lambda>b. \<not> dict_has b ''_id'') bodies"
  shows "list_all (\<lambda>r. \<exists>pid. r = Ok 201 (VDoc [(''id'', VStr pid)])) (fst (serve env s (map CreateProduct bodies))) \<and>
         length (fst (serve env s (map CreateProduct bodies))) = length bodies \<and>
         map tl (coll_docs (snd (serve env s (map CreateProduct bodies))) ''product'') =
           map tl (coll_docs s ''product'') @ bodies"
  using serve_creates [OF assms prod.collapse [symmetric]] .

theorem product_creations_progress_witness:
  "db_ready (init_store True ''shop'') \<and> online (init_store True ''shop'') \<and>
   list_all (\<lambda>b. \<not> dict_has b ''_id'') [[(''title'', VStr ''Mug'')], [(''title'', VStr ''Tea'')]] \<and>
   length (fst (serve (\<lambda>_. None) (init_store True ''shop'')
     (map CreateProduct [[(''title'', VStr ''Mug'')], [(''title'', VStr ''Tea'')]]))) = 2"
  using product_creations_progress [of "init_store True ''shop''" "[[(''title'', VStr ''Mug'')], [(''title'', VStr ''Tea'')]]" "\<lambda>_. None"]
  by (simp add: init_store_def dict_has_def)

end
