(* ===== verification/Server.thy ===== *)
theory Server
  imports Json
begin

text \<open>
  The server entry point, lines 130--133 of \<open>src/main.py\<close>:
\<^verbatim>\<open>if __name__ == "__main__":
    import uvicorn
    port = int(os.getenv("PORT", 8000))
    uvicorn.run(app, host="0.0.0.0", port=port)\<close>
  \<open>os.getenv\<close> returns the string value of \<open>PORT\<close> when it is set and the
  integer \<open>8000\<close> otherwise; \<open>int\<close> of a string is Python's \<open>int(s)\<close> in
  base 10: surrounding whitespace is stripped, an optional sign, decimal digits
  with single underscores between them, and a \<open>ValueError\<close> for anything else.
  \<open>server_config\<close> returns the host and port handed to \<open>uvicorn.run\<close>; the
  socket binding inside uvicorn is not modelled. Python accepts non-ASCII
  decimal digits and spaces, which a byte string cannot represent; such input is
  reported as \<open>StartupUnmodelled\<close>.
\<close>

datatype startup_error = ValueError string | StartupUnmodelled string

text \<open>The ASCII characters for which \<open>str.isspace\<close> holds.\<close>

definition py_isspace :: "char \<Rightarrow> bool" where
  "py_isspace c = (let n = of_char c :: nat in (9 \<le> n \<and> n \<le> 13) \<or> (28 \<le> n \<and> n \<le> 32))"

definition py_strip :: "string \<Rightarrow> string" where
  "py_strip s = rev (dropWhile py_isspace (rev (dropWhile py_isspace s)))"

text \<open>A base-10 integer literal without sign: \<open>digit (_? digit)*\<close>.\<close>

definition dec_literal :: "string \<Rightarrow> bool" where
  "dec_literal t =
     (t \<noteq> [] \<and> is_digit (hd t) \<and> is_digit (last t) \<and>
      list_all (\<lambda>c. is_digit c \<or> c = CHR ''_'') t \<and> \<not> sublist ''__'' t)"

definition py_int :: "string \<Rightarrow> startup_error + int" where
  "py_int s =
     (if \<not> list_all (\<lambda>c. of_char c < (128 :: nat)) s then Inl (StartupUnmodelled ''non-ASCII text'')
      else
        let t = py_strip s;
            (neg, body) =
              (case t of
                 c # cs \<Rightarrow> if c = CHR ''-'' then (True, cs) else if c = CHR ''+'' then (False, cs) else (False, t)
               | [] \<Rightarrow> (False, []))
        in if dec_literal body
           then Inr ((if neg then -1 else 1) * int (digits_val (filter is_digit body)))
           else Inl (ValueError s))"

definition server_config :: "(string \<Rightarrow> string option) \<Rightarrow> startup_error + (string \<times> int)" where
  "server_config env =
     (let port = (case env ''PORT'' of None \<Rightarrow> Inr 8000 | Some p \<Rightarrow> py_int p)
      in case port of Inl e \<Rightarrow> Inl e | Inr n \<Rightarrow> Inr (''0.0.0.0'', n))"

section \<open>Lemmas\<close>

lemma digit_not_space: "is_digit c \<Longrightarrow> \<not> py_isspace c"
  by (simp add: is_digit_def py_isspace_def Let_def)

lemma py_strip_no_space:
  assumes "s \<noteq> []" and "\<not> py_isspace (hd s)" and "\<not> py_isspace (last s)"
  shows "py_strip s = s"
proof -
  obtain c cs where s: "s = c # cs" using assms(1) by (cases s) auto
  have "dropWhile py_isspace s = s" using assms(2) s by simp
  moreover have "dropWhile py_isspace (rev s) = rev s"
    using assms(1,3) by (cases "rev s") (auto simp: last_rev [symmetric] simp del: last_rev)
  ultimately show ?thesis by (simp add: py_strip_def)
qed

lemma set_py_strip: "c \<in> set s \<Longrightarrow> \<not> py_isspace c \<Longrightarrow> c \<in> set (py_strip s)"
proof -
  assume c: "c \<in> set s" and ns: "\<not> py_isspace c"
  have keep: "c \<in> set xs \<Longrightarrow> c \<in> set (dropWhile py_isspace xs)" for xs
    using ns by (induction xs) auto
  show ?thesis using keep [OF c] keep [of "rev (dropWhile py_isspace s)"] by (simp add: py_strip_def)
qed

lemma dec_literal_dec_str: "dec_literal (dec_str n)"
proof -
  have d: "list_all is_digit (dec_str n)" using dec_str_digits by blast
  then have "CHR ''_'' \<notin> set (dec_str n)" by (auto simp: list_all_iff is_digit_def)
  then have "\<not> sublist ''__'' (dec_str n)" by (auto dest: set_mono_sublist)
  with d show ?thesis
    by (simp add: dec_literal_def list_all_iff)
qed

lemma minus_not_space: "\<not> py_isspace (CHR ''-'')"
  by (simp add: py_isspace_def)

lemma dec_str_ascii: "list_all (\<lambda>c. of_char c < (128 :: nat)) (dec_str n)"
  using dec_str_digits [of n] by (fastforce simp: list_all_iff is_digit_def Let_def)

lemma dec_str_ends:
  "is_digit (hd (dec_str n)) \<and> is_digit (last (dec_str n)) \<and> filter is_digit (dec_str n) = dec_str n"
  using dec_str_digits [of n] by (simp add: list_all_iff filter_id_conv)

lemma py_int_str: "py_int (py_str (VInt i)) = Inr i"
proof (cases "i < 0")
  case True
  let ?ds = "dec_str (nat (- i))"
  have e: "is_digit (hd ?ds)" "is_digit (last ?ds)" "filter is_digit ?ds = ?ds" using dec_str_ends by blast+
  have "py_strip (CHR ''-'' # ?ds) = CHR ''-'' # ?ds"
    using e by (intro py_strip_no_space) (simp_all add: digit_not_space minus_not_space)
  with True e show ?thesis
    using dec_str_ascii [of "nat (- i)"] dec_literal_dec_str [of "nat (- i)"] dec_str_digits [of "nat (- i)"]
    by (simp add: py_int_def)
next
  case False
  let ?ds = "dec_str (nat i)"
  have e: "is_digit (hd ?ds)" "is_digit (last ?ds)" "filter is_digit ?ds = ?ds" using dec_str_ends by blast+
  have "py_strip ?ds = ?ds"
    using e by (intro py_strip_no_space) (simp_all add: digit_not_space)
  moreover obtain c cs where ds: "?ds = c # cs" by (cases ?ds) auto
  moreover have "c \<noteq> CHR ''-''" "c \<noteq> CHR ''+''" using e(1) ds by (auto simp: is_digit_def)
  ultimately show ?thesis
    using False e dec_str_ascii [of "nat i"] dec_literal_dec_str [of "nat i"] dec_str_digits [of "nat i"]
    by (simp add: py_int_def)
qed

lemma py_int_invalid_char:
  assumes "list_all (\<lambda>c. of_char c < (128 :: nat)) p" and "c \<in> set p"
    and "\<not> is_digit c" and "\<not> py_isspace c" and "c \<notin> set ''+-_''"
  shows "py_int p = Inl (ValueError p)"
proof -
  have t: "c \<in> set (py_strip p)" using assms(2,4) by (rule set_py_strip)
  have no_lit: "\<not> dec_literal b" if "c \<in> set b" for b
    using that assms(3,5) by (auto simp: dec_literal_def list_all_iff)
  show ?thesis
  proof (cases "py_strip p")
    case Nil
    with t show ?thesis by simp
  next
    case (Cons x xs)
    with t assms(5) have "c \<in> set xs \<or> (x \<noteq> CHR ''-'' \<and> x \<noteq> CHR ''+'')" by auto
    with Cons t assms(1) no_lit show ?thesis by (auto simp: py_int_def)
  qed
qed

section \<open>Properties of the start-up\<close>

text \<open>
  C14: the port round trip: with \<open>PORT\<close> set to \<open>str(i)\<close> of any integer
  \<open>i\<close>, the server is started on \<open>0.0.0.0\<close> with port \<open>i\<close>; with
  \<open>PORT\<close> unset, on port 8000.
\<close>

theorem server_config_port:
  "server_config (env(''PORT'' := Some (py_str (VInt i)))) = Inr (''0.0.0.0'', i) \<and>
   server_config (env(''PORT'' := None)) = Inr (''0.0.0.0'', 8000)"
  by (simp add: server_config_def py_int_str del: py_str.simps)

text \<open>
  C15: a \<open>PORT\<close> value holding a character that is no digit, whitespace, sign
  or underscore (a letter, a dot, ...) stops the start-up with a
  \<open>ValueError\<close> for that value; there is no fall-back to port 8000.
\<close>

theorem server_config_invalid:
  assumes "list_all (\<lambda>c. of_char c < (128 :: nat)) p" and "c \<in> set p"
    and "\<not> is_digit c" and "\<not> py_isspace c" and "c \<notin> set ''+-_''"
  shows "server_config (env(''PORT'' := Some p)) = Inl (ValueError p)"
  using py_int_invalid_char [OF assms] by (simp add: server_config_def)

theorem server_config_invalid_witness:
  "list_all (\<lambda>c. of_char c < (128 :: nat)) ''80a'' \<and> CHR ''a'' \<in> set ''80a'' \<and>
   \<not> is_digit (CHR ''a'') \<and> \<not> py_isspace (CHR ''a'') \<and> CHR ''a'' \<notin> set ''+-_'' \<and>
   server_config ((\<lambda>_. None)(''PORT'' := Some ''80a'')) = Inl (ValueError ''80a'')"
  using server_config_invalid [of "''80a''" "CHR ''a''" "\<lambda>_. None"]
  by (simp add: is_digit_def py_isspace_def)

end
