(* ===== verification/Catalogue.thy ===== *)
theory Catalogue
  imports App
begin

text \<open>
  The abstract specification of the system's state, from the spec's data model
  (section 3) and its component contracts (section 4): a catalogue of products,
  each an identifier assigned by the store with the fields given, and a list of
  orders, each an identifier and the order as submitted (its items and its
  shipping). Both lists only grow, in creation order. The concrete store
  refines it: \<open>abs_store\<close> reads the catalogue off the store (a product
  document is its \<open>_id\<close> and its fields; an order document is decoded back into
  the submitted order) and every request changes the store as \<open>spec_step\<close>
  changes the catalogue. The derived subtotal and total are not part of this
  abstraction: the code computes them in floating point, which theories
  \<open>Float\<close> and \<open>Float_Range\<close> relate to the spec's decimal sums.
\<close>

record catalogue =
  cat_products :: "(oid \<times> doc) list"
  cat_orders :: "(oid \<times> rat order_body) list"

section \<open>The specification\<close>

text \<open>One request: when the gateway is available (\<open>ok\<close>) a product or an order
  is inserted under the identifier \<open>x\<close> the store assigns; otherwise (a generic
  server error) nothing changes. A product body carrying its own \<open>_id\<close> is
  outside the model and is not inserted. Reads leave the catalogue alone.\<close>

fun spec_step :: "bool \<Rightarrow> oid \<Rightarrow> catalogue \<Rightarrow> request \<Rightarrow> catalogue" where
  "spec_step ok x C (CreateProduct body) =
     (if ok \<and> \<not> dict_has body ''_id'' then C\<lparr>cat_products := cat_products C @ [(x, body)]\<rparr> else C)"
| "spec_step ok x C (CreateOrder b) =
     (if ok then C\<lparr>cat_orders := cat_orders C @ [(x, b)]\<rparr> else C)"
| "spec_step ok x C _ = C"

section \<open>Reading the catalogue off the store\<close>

definition decode_item :: "bson \<Rightarrow> rat order_item option" where
  "decode_item v =
     (case v of
        VDoc [(k1, VStr p), (k2, VFloat x), (k3, VInt q)] \<Rightarrow>
          if k1 = ''product_id'' \<and> k2 = ''price'' \<and> k3 = ''quantity''
          then Some \<lparr>product_id = p, price = x, quantity = q\<rparr> else None
      | _ \<Rightarrow> None)"

definition decode_shipping :: "bson \<Rightarrow> rat option option" where
  "decode_shipping v = (case v of VNull \<Rightarrow> Some None | VFloat x \<Rightarrow> Some (Some x) | _ \<Rightarrow> None)"

text \<open>An order record as \<open>create_order\<close> stores it, after its \<open>_id\<close>: items,
  shipping, subtotal and total, in this order; the submitted order is read from
  the first two.\<close>

definition decode_order :: "doc \<Rightarrow> rat order_body option" where
  "decode_order d =
     (case d of
        [(k1, VList its), (k2, sh), (k3, _), (k4, _)] \<Rightarrow>
          if k1 = ''items'' \<and> k2 = ''shipping'' \<and> k3 = ''subtotal'' \<and> k4 = ''total'' then
            (case (those (map decode_item its), decode_shipping sh) of
               (Some is, Some s) \<Rightarrow> Some \<lparr>items = is, shipping = s\<rparr>
             | _ \<Rightarrow> None)
          else None
      | _ \<Rightarrow> None)"

definition abs_product :: "doc \<Rightarrow> oid \<times> doc" where
  "abs_product d = (case d of (_, VOid x) # rest \<Rightarrow> (x, rest) | _ \<Rightarrow> (0, d))"

definition abs_order :: "doc \<Rightarrow> oid \<times> rat order_body" where
  "abs_order d =
     (case d of
        (_, VOid x) # rest \<Rightarrow>
          (case decode_order rest of Some b \<Rightarrow> (x, b) | None \<Rightarrow> (x, \<lparr>items = [], shipping = None\<rparr>))
      | _ \<Rightarrow> (0, \<lparr>items = [], shipping = None\<rparr>))"

definition abs_store :: "store \<Rightarrow> catalogue" where
  "abs_store s = \<lparr>cat_products = map abs_product (coll_docs s ''product''),
                  cat_orders = map abs_order (coll_docs s ''order'')\<rparr>"

section \<open>Lemmas\<close>

lemma decode_dump_item: "decode_item (dump_item it) = Some it"
  by (simp add: decode_item_def dump_item_def)

lemma those_map_decode_item: "those (map (decode_item \<circ> dump_item) its) = Some its"
  by (induction its) (simp_all add: decode_dump_item)

lemma abs_store_insert:
  assumes "insert_one s c d = Inr (x, s')"
  shows "abs_store s' =
     (if c = ''product'' then (abs_store s)\<lparr>cat_products := cat_products (abs_store s) @ [(x, d)]\<rparr>
      else if c = ''order'' then (abs_store s)\<lparr>cat_orders := cat_orders (abs_store s) @ [abs_order ((''_id'', VOid x) # d)]\<rparr>
      else abs_store s)"
  using insert_one_docs [OF assms] by (simp add: abs_store_def abs_product_def)

lemma decode_order_payload: "decode_order (order_payload b) = Some b"
proof (cases b)
  case (fields its sh)
  then show ?thesis
    by (cases sh) (simp_all add: decode_order_def order_payload_def dump_order_def those_map_decode_item
        decode_shipping_def)
qed

lemma abs_order_payload: "abs_order ((''_id'', VOid x) # order_payload b) = (x, b)"
  by (simp add: abs_order_def decode_order_payload)

section \<open>Refinement\<close>

text \<open>
  C19: every request changes the store as the specification changes the
  catalogue: reading the catalogue off the store after the request gives the
  specification's step from the catalogue before it, with the gateway available
  exactly when the database is initialised and reachable, and the identifier the
  store assigns next. Products are stored with exactly the fields posted, orders
  with exactly the items and shipping submitted, each once and in request order;
  reads change nothing.
\<close>

theorem handle_refines_spec:
  "abs_store (snd (handle env s req)) =
   spec_step (db_ready s \<and> online s) (word_of_nat (next_id s)) (abs_store s) req"
proof (cases req)
  case (CreateProduct body)
  show ?thesis
  proof (cases "db_ready s \<and> online s \<and> \<not> dict_has body ''_id''")
    case True
    then have "insert_one s ''product'' body = Inr (word_of_nat (next_id s), snd (handle env s req))"
      using CreateProduct by (simp add: create_product_def create_document_Inr insert_one_Inr)
    with True CreateProduct show ?thesis by (simp add: abs_store_insert)
  next
    case False
    with CreateProduct show ?thesis
      by (auto simp: create_product_def create_document_def insert_one_def)
  qed
next
  case (CreateOrder b)
  show ?thesis
  proof (cases "db_ready s \<and> online s")
    case True
    then have "insert_one s ''order'' (order_payload b) = Inr (word_of_nat (next_id s), snd (handle env s req))"
      using CreateOrder by (simp add: create_order_def create_document_Inr insert_one_Inr order_payload_no_id)
    with True CreateOrder show ?thesis by (simp add: abs_store_insert abs_order_payload)
  next
    case False
    with CreateOrder show ?thesis
      by (auto simp: create_order_def create_document_def insert_one_def)
  qed
qed simp_all

end
