(* ===== verification/Float.thy ===== *)
theory Float
  imports Pricing "HOL-Library.Log_Nat"
begin

text \<open>
  Python floats. Prices and shipping costs arrive as JSON numbers that pydantic
  turns into Python \<open>float\<close>s, IEEE 754 binary64 values, and lines 82--83 of
  \<open>src/main.py\<close> compute the subtotal and total with float multiplication and
  addition, each rounded to the nearest double (ties to even). A finite double
  is represented by its exact rational value; \<open>to_double x\<close> is the double
  nearest to \<open>x\<close>, or \<open>None\<close> when the result leaves the range of normal
  doubles (an overflow to infinity, or a subnormal), which the model does not
  follow. The integer quantity is converted to a double before the
  multiplication, as CPython does for \<open>float * int\<close>.
\<close>

text \<open>\<open>flog2 a\<close> is \<open>\<lfloor>log\<^sub>2 a\<rfloor>\<close> for a positive rational \<open>a\<close>, from the bit
  lengths of its numerator and denominator.\<close>

definition flog2 :: "rat \<Rightarrow> int" where
  "flog2 a = (let (p, q) = quotient_of a; k = bitlen p - bitlen q in if 2 powi k \<le> a then k else k - 1)"

text \<open>Rounding to the nearest integer, ties to even.\<close>

definition round_even :: "rat \<Rightarrow> int" where
  "round_even m =
     (let f = \<lfloor>m\<rfloor>; d = m - of_int f in
      if d < 1 / 2 then f else if 1 / 2 < d then f + 1 else if even f then f else f + 1)"

text \<open>The double nearest to \<open>x\<close>: its 53-bit significand is \<open>|x| / 2^e\<close>
  rounded, with \<open>e = \<lfloor>log\<^sub>2 |x|\<rfloor> - 52\<close>.\<close>

definition to_double :: "rat \<Rightarrow> rat option" where
  "to_double x =
     (if x = 0 then Some 0
      else
        let a = \<bar>x\<bar>; e = flog2 a - 52; y = sgn x * of_int (round_even (a / 2 powi e)) * 2 powi e
        in if a < 2 powi (-1022) \<or> 2 powi 1024 \<le> \<bar>y\<bar> then None else Some y)"

text \<open>The value \<open>to_double\<close> rounds to, before the range check.\<close>

definition rounded :: "rat \<Rightarrow> rat" where
  "rounded x = sgn x * of_int (round_even (\<bar>x\<bar> / 2 powi (flog2 \<bar>x\<bar> - 52))) * 2 powi (flog2 \<bar>x\<bar> - 52)"

definition f_add :: "rat \<Rightarrow> rat \<Rightarrow> rat option" where
  "f_add x y = to_double (x + y)"

definition f_mul :: "rat \<Rightarrow> rat \<Rightarrow> rat option" where
  "f_mul x y = to_double (x * y)"

text \<open>\<open>item.price * item.quantity\<close>: the quantity converted to a double, then
  the rounded product.\<close>

definition line_amount_f :: "rat order_item \<Rightarrow> rat option" where
  "line_amount_f it =
     (case to_double (of_int (quantity it)) of None \<Rightarrow> None | Some q \<Rightarrow> f_mul (price it) q)"

text \<open>\<open>sum(...)\<close> from the integer \<open>0\<close>, left to right, each addition rounded;
  \<open>0 + x\<close> is exact.\<close>

definition subtotal_f :: "rat order_item list \<Rightarrow> rat option" where
  "subtotal_f its =
     foldl (\<lambda>acc it. case acc of None \<Rightarrow> None
                      | Some s \<Rightarrow> (case line_amount_f it of None \<Rightarrow> None | Some v \<Rightarrow> f_add s v))
       (Some 0) its"

definition total_f :: "rat order_body \<Rightarrow> rat option" where
  "total_f b = (case subtotal_f (items b) of None \<Rightarrow> None | Some st \<Rightarrow> f_add st (py_or_zero (shipping b)))"

text \<open>The prices and the shipping cost of the JSON body as pydantic reads them:
  each decimal number becomes the nearest double (Python's \<open>float\<close> of a
  decimal literal is correctly rounded).\<close>

definition parse_item :: "rat order_item \<Rightarrow> rat order_item option" where
  "parse_item it = map_option (\<lambda>p. it\<lparr>price := p\<rparr>) (to_double (price it))"

definition parse_order :: "rat order_body \<Rightarrow> rat order_body option" where
  "parse_order b =
     (case (those (map parse_item (items b)),
            case shipping b of None \<Rightarrow> Some None | Some x \<Rightarrow> map_option Some (to_double x)) of
        (Some its, Some sh) \<Rightarrow> Some \<lparr>items = its, shipping = sh\<rparr>
      | _ \<Rightarrow> None)"

text \<open>The order of the float example: three items at \<open>0.1\<close>, no shipping.\<close>

abbreviation tenths_order :: "rat order_body" where
  "tenths_order \<equiv> \<lparr>items = [\<lparr>product_id = ''a'', price = 1 / 10, quantity = 3\<rparr>], shipping = None\<rparr>"

section \<open>Rounding\<close>

lemma flog2:
  assumes "0 < a"
  shows "2 powi flog2 a \<le> a \<and> a < 2 powi (flog2 a + 1)"
proof -
  obtain p q where pq: "quotient_of a = (p, q)" by (cases "quotient_of a")
  have q0: "0 < q" using pq by (rule quotient_of_denom_pos)
  have a: "a = of_int p / of_int q" using pq by (rule quotient_of_div)
  have p0: "0 < p" using assms q0 a by (simp add: zero_less_divide_iff)
  have bp: "2 ^ nat (bitlen p - 1) \<le> p" "p < 2 ^ nat (bitlen p)" using bitlen_bounds [OF p0] by auto
  have bq: "2 ^ nat (bitlen q - 1) \<le> q" "q < 2 ^ nat (bitlen q)" using bitlen_bounds [OF q0] by auto
  have lp: "1 \<le> bitlen p" and lq: "1 \<le> bitlen q"
    using bp(2) bq(2) p0 q0 by (auto simp: bitlen_def floorlog_def)
  have pw: "(2 :: rat) powi n = of_int (2 ^ nat n)" if "0 \<le> n" for n :: int
    using that by (metis nat_0_le of_int_numeral of_int_power power_int_of_nat)
  let ?k = "bitlen p - bitlen q"
  have rp: "2 powi (bitlen p - 1) \<le> (of_int p :: rat)" "of_int p < (2 powi bitlen p :: rat)"
    using bp lp by (simp_all add: pw del: of_int_power flip: of_int_le_iff of_int_less_iff)
  have rq: "2 powi (bitlen q - 1) \<le> (of_int q :: rat)" "of_int q < (2 powi bitlen q :: rat)"
    using bq lq by (simp_all add: pw del: of_int_power flip: of_int_le_iff of_int_less_iff)
  have lo: "2 powi (?k - 1) < a"
  proof -
    have "(2 :: rat) powi (?k - 1) * of_int q < 2 powi (?k - 1) * 2 powi bitlen q"
      using rq(2) by simp
    also have "\<dots> = 2 powi (bitlen p - 1)" by (simp flip: power_int_add)
    also have "\<dots> \<le> of_int p" by (rule rp(1))
    finally show ?thesis using q0 a by (simp add: pos_less_divide_eq)
  qed
  have hi: "a < 2 powi (?k + 1)"
  proof -
    have "(of_int p :: rat) < 2 powi bitlen p" by (rule rp(2))
    also have "\<dots> = 2 powi (?k + 1) * 2 powi (bitlen q - 1)" by (simp flip: power_int_add)
    also have "\<dots> \<le> 2 powi (?k + 1) * of_int q" using rq(1) by simp
    finally show ?thesis using q0 a by (simp add: divide_less_eq)
  qed
  show ?thesis
  proof (cases "2 powi ?k \<le> a")
    case True
    then show ?thesis using hi pq by (simp add: flog2_def)
  next
    case False
    then show ?thesis using lo pq by (simp add: flog2_def)
  qed
qed

lemma round_even_err: "\<bar>of_int (round_even m) - m\<bar> \<le> 1 / 2"
proof -
  have f: "of_int \<lfloor>m\<rfloor> \<le> m" "m < of_int \<lfloor>m\<rfloor> + 1" by linarith+
  then show ?thesis
    unfolding round_even_def Let_def by (simp add: abs_le_iff split: if_split; linarith)
qed

lemma round_even_nonneg: "0 \<le> m \<Longrightarrow> 0 \<le> round_even m"
  by (auto simp: round_even_def Let_def)

lemma pow2_shift: "(2 :: rat) ^ n * 2 powi (k - int n) = 2 powi k"
  by (simp add: power_int_add [symmetric] flip: power_int_of_nat)

lemma abs_scale: "0 < (p :: rat) \<Longrightarrow> \<bar>of_int r * p - a\<bar> = \<bar>of_int r - a / p\<bar> * p"
proof -
  assume p: "0 < p"
  have "of_int r * p - a = (of_int r - a / p) * p" using p by (simp add: left_diff_distrib)
  then show ?thesis using p by (simp add: abs_mult)
qed

text \<open>Each rounding is within half a unit in the last place, a relative error of
  at most \<open>2^-53\<close>, and keeps the sign.\<close>

lemma to_double_rounded:
  "to_double x =
     (if x = 0 then Some 0 else if \<bar>x\<bar> < 2 powi (-1022) \<or> 2 powi 1024 \<le> \<bar>rounded x\<bar> then None else Some (rounded x))"
  by (simp add: to_double_def rounded_def Let_def)

lemma round_even_ge_floor: "\<lfloor>m\<rfloor> \<le> round_even m"
  by (simp add: round_even_def Let_def)

lemma rounded_close:
  assumes "x \<noteq> 0"
  shows "\<bar>rounded x - x\<bar> \<le> \<bar>x\<bar> / 2 ^ 53 \<and> 2 powi flog2 \<bar>x\<bar> \<le> \<bar>rounded x\<bar> \<and> (0 \<le> x \<longrightarrow> 0 \<le> rounded x)"
proof -
  let ?a = "\<bar>x\<bar>" let ?e = "flog2 ?a - 52" let ?m = "?a / 2 powi ?e" let ?r = "round_even ?m"
  have a0: "0 < ?a" using assms by simp
  have y: "rounded x = sgn x * of_int ?r * 2 powi ?e" by (simp add: rounded_def)
  have lo: "2 powi flog2 ?a \<le> ?a" using flog2 [OF a0] by blast
  have pe: "(0 :: rat) < 2 powi ?e" by simp
  have sh: "(2 :: rat) ^ 52 * 2 powi ?e = 2 powi flog2 ?a"
    using pow2_shift [of 52 "flog2 ?a"] by simp
  have m52: "2 ^ 52 \<le> ?m" using sh lo pe by (simp add: le_divide_eq)
  have r52: "2 ^ 52 \<le> ?r"
  proof -
    have "(2 :: int) ^ 52 \<le> \<lfloor>?m\<rfloor>" using m52 by (simp add: le_floor_iff)
    then show ?thesis using round_even_ge_floor [of ?m] by linarith
  qed
  have r0: "0 \<le> ?r" using r52 by simp
  have ya: "\<bar>rounded x\<bar> = of_int ?r * 2 powi ?e" using r0 assms by (simp add: y abs_mult abs_sgn_eq)
  have "(2 :: rat) powi flog2 ?a \<le> of_int ?r * 2 powi ?e"
  proof -
    have "(2 :: rat) ^ 52 \<le> of_int ?r" using r52 by (metis of_int_le_iff of_int_numeral of_int_power)
    then show ?thesis unfolding sh [symmetric] using pe by (intro mult_right_mono) simp_all
  qed
  then have big: "2 powi flog2 ?a \<le> \<bar>rounded x\<bar>" by (simp add: ya)
  have err: "\<bar>of_int ?r - ?m\<bar> \<le> 1 / 2" by (rule round_even_err)
  have "\<bar>of_int ?r * 2 powi ?e - ?a\<bar> = \<bar>of_int ?r - ?m\<bar> * 2 powi ?e"
    using pe by (rule abs_scale)
  also have "\<dots> \<le> 1 / 2 * 2 powi ?e" using err pe by (intro mult_right_mono) simp_all
  also have "\<dots> \<le> ?a / 2 ^ 53"
  proof -
    have "1 / 2 * 2 powi ?e * 2 ^ 53 = 2 ^ 52 * (2 powi ?e :: rat)" by (simp add: field_simps)
    also have "\<dots> \<le> ?m * 2 powi ?e" using m52 pe by (intro mult_right_mono) simp_all
    also have "\<dots> = ?a" using pe by simp
    finally show ?thesis by (simp add: le_divide_eq)
  qed
  finally have close: "\<bar>of_int ?r * 2 powi ?e - ?a\<bar> \<le> ?a / 2 ^ 53" .
  have "\<bar>rounded x - x\<bar> = \<bar>of_int ?r * 2 powi ?e - ?a\<bar>"
    using assms by (cases "0 < x") (simp_all add: y abs_minus_commute algebra_simps)
  with close have "\<bar>rounded x - x\<bar> \<le> ?a / 2 ^ 53" by simp
  moreover have "0 \<le> x \<longrightarrow> 0 \<le> rounded x" using r0 by (auto simp: y sgn_if)
  ultimately show ?thesis using big by blast
qed

lemma to_double_err:
  assumes "to_double x = Some y"
  shows "\<bar>y - x\<bar> \<le> \<bar>x\<bar> / 2 ^ 53 \<and> (0 \<le> x \<longrightarrow> 0 \<le> y)"
proof (cases "x = 0")
  case True
  with assms show ?thesis by (simp add: to_double_def)
next
  case False
  with assms have "y = rounded x" by (simp add: to_double_rounded split: if_splits)
  with rounded_close [OF False] show ?thesis by simp
qed

lemma to_double_bounds:
  assumes "to_double x = Some y" and "0 \<le> x"
  shows "0 \<le> y \<and> x * (1 - 1 / 2 ^ 53) \<le> y \<and> y \<le> x * (1 + 1 / 2 ^ 53)"
proof -
  have e: "\<bar>y - x\<bar> \<le> x / 2 ^ 53" and y0: "0 \<le> y" using to_double_err [OF assms(1)] assms(2) by auto
  define c where "c = x / 2 ^ 53"
  from e have e': "\<bar>y - x\<bar> \<le> c" unfolding c_def .
  then have "y - x \<le> c" "x - y \<le> c" by (simp_all add: abs_le_iff)
  moreover have "x * (1 - 1 / 2 ^ 53) = x - c" "x * (1 + 1 / 2 ^ 53) = x + c"
    by (simp_all add: c_def algebra_simps)
  ultimately show ?thesis using y0 by simp
qed

section \<open>Accumulated rounding error of the order total\<close>

lemma line_amount_f_bounds:
  assumes "0 \<le> price it" and "0 \<le> quantity it" and "line_amount_f it = Some v"
  shows "0 \<le> v \<and> line_amount it * (1 - 1 / 2 ^ 53) ^ 2 \<le> v \<and> v \<le> line_amount it * (1 + 1 / 2 ^ 53) ^ 2"
proof -
  let ?L = "1 - 1 / 2 ^ 53 :: rat" and ?H = "1 + 1 / 2 ^ 53 :: rat"
  obtain q where q: "to_double (of_int (quantity it)) = Some q" and v: "f_mul (price it) q = Some v"
    using assms(3) by (auto simp: line_amount_f_def split: option.splits)
  have qb: "0 \<le> q" "of_int (quantity it) * ?L \<le> q" "q \<le> of_int (quantity it) * ?H"
    using to_double_bounds [OF q] assms(2) by simp_all
  have pq: "0 \<le> price it * q" using assms(1) qb(1) by simp
  have vb: "0 \<le> v" "price it * q * ?L \<le> v" "v \<le> price it * q * ?H"
    using to_double_bounds [OF v [unfolded f_mul_def] pq] by simp_all
  have "line_amount it * ?L ^ 2 = price it * (of_int (quantity it) * ?L) * ?L"
    by (simp add: line_amount_def power2_eq_square)
  also have "\<dots> \<le> price it * q * ?L" using assms(1) qb(2) by (intro mult_right_mono mult_left_mono) simp_all
  finally have lo: "line_amount it * ?L ^ 2 \<le> v" using vb(2) by simp
  have "price it * q * ?H \<le> price it * (of_int (quantity it) * ?H) * ?H"
    using assms(1) qb(3) by (intro mult_right_mono mult_left_mono) simp_all
  also have "\<dots> = line_amount it * ?H ^ 2" by (simp add: line_amount_def power2_eq_square)
  finally have hi: "v \<le> line_amount it * ?H ^ 2" using vb(3) by simp
  show ?thesis using vb(1) lo hi by blast
qed

lemma subtotal_f_snoc:
  "subtotal_f (its @ [it]) =
     (case subtotal_f its of None \<Rightarrow> None
      | Some s \<Rightarrow> (case line_amount_f it of None \<Rightarrow> None | Some v \<Rightarrow> f_add s v))"
  by (simp add: subtotal_f_def)

text \<open>The sum of \<open>n\<close> non-negative line amounts carries at most \<open>n + 2\<close>
  roundings of relative error \<open>2^-53\<close> each, in either direction.\<close>

lemma subtotal_f_bounds:
  assumes "list_all (\<lambda>it. 0 \<le> price it \<and> 0 \<le> quantity it) its" and "subtotal_f its = Some t"
  shows "0 \<le> t \<and> subtotal its * (1 - 1 / 2 ^ 53) ^ (length its + 2) \<le> t \<and>
         t \<le> subtotal its * (1 + 1 / 2 ^ 53) ^ (length its + 2)"
  using assms
proof (induction its arbitrary: t rule: rev_induct)
  case Nil
  then show ?case by (simp add: subtotal_f_def)
next
  case (snoc it its)
  let ?L = "1 - 1 / 2 ^ 53 :: rat" and ?H = "1 + 1 / 2 ^ 53 :: rat" and ?n = "length its"
  obtain s v where s: "subtotal_f its = Some s" and v: "line_amount_f it = Some v" and t: "f_add s v = Some t"
    using snoc.prems(2) by (auto simp: subtotal_f_snoc split: option.splits)
  have nn: "list_all (\<lambda>it. 0 \<le> price it \<and> 0 \<le> quantity it) its" "0 \<le> price it" "0 \<le> quantity it"
    using snoc.prems(1) by simp_all
  have sb: "0 \<le> s" "subtotal its * ?L ^ (?n + 2) \<le> s" "s \<le> subtotal its * ?H ^ (?n + 2)"
    using snoc.IH [OF nn(1) s] by simp_all
  have vb: "0 \<le> v" "line_amount it * ?L ^ 2 \<le> v" "v \<le> line_amount it * ?H ^ 2"
    using line_amount_f_bounds [OF nn(2,3) v] by simp_all
  have S0: "0 \<le> subtotal its" using nn(1) by (intro subtotal_nonneg_items) (simp add: list_all_iff)
  have w0: "0 \<le> line_amount it" using nn(2,3) by (rule line_amount_nonneg)
  have tb: "0 \<le> t" "(s + v) * ?L \<le> t" "t \<le> (s + v) * ?H"
    using to_double_bounds [OF t [unfolded f_add_def]] sb(1) vb(1) by simp_all
  have L2: "?L ^ (?n + 2) \<le> ?L ^ 2" by (rule power_decreasing) simp_all
  have H2: "?H ^ 2 \<le> ?H ^ (?n + 2)" by (rule power_increasing) simp_all
  have "(subtotal its + line_amount it) * ?L ^ (?n + 2) =
        subtotal its * ?L ^ (?n + 2) + line_amount it * ?L ^ (?n + 2)" by (rule distrib_right)
  also have "\<dots> \<le> subtotal its * ?L ^ (?n + 2) + line_amount it * ?L ^ 2"
    using mult_left_mono [OF L2 w0] by (rule add_left_mono)
  also have "\<dots> \<le> s + v" using sb(2) vb(2) by (rule add_mono)
  finally have lo: "(subtotal its + line_amount it) * ?L ^ (?n + 2) * ?L \<le> (s + v) * ?L"
    by (rule mult_right_mono) simp
  have "s + v \<le> subtotal its * ?H ^ (?n + 2) + line_amount it * ?H ^ 2" using sb(3) vb(3) by (rule add_mono)
  also have "\<dots> \<le> subtotal its * ?H ^ (?n + 2) + line_amount it * ?H ^ (?n + 2)"
    using mult_left_mono [OF H2 w0] by (rule add_left_mono)
  also have "\<dots> = (subtotal its + line_amount it) * ?H ^ (?n + 2)" by (rule distrib_right [symmetric])
  finally have hi: "(s + v) * ?H \<le> (subtotal its + line_amount it) * ?H ^ (?n + 2) * ?H"
    by (rule mult_right_mono) simp
  have eL: "subtotal (its @ [it]) * ?L ^ (length (its @ [it]) + 2) = (subtotal its + line_amount it) * ?L ^ (?n + 2) * ?L"
    by (simp only: subtotal_append subtotal_Cons subtotal_Nil add_0_right length_append_singleton
        add_Suc power_Suc2 mult.assoc)
  have eH: "subtotal (its @ [it]) * ?H ^ (length (its @ [it]) + 2) = (subtotal its + line_amount it) * ?H ^ (?n + 2) * ?H"
    by (simp only: subtotal_append subtotal_Cons subtotal_Nil add_0_right length_append_singleton
        add_Suc power_Suc2 mult.assoc)
  show ?case unfolding eL eH using tb lo hi by linarith
qed

lemma total_f_bounds:
  assumes "list_all (\<lambda>it. 0 \<le> price it \<and> 0 \<le> quantity it) (items b)"
    and "0 \<le> py_or_zero (shipping b)" and "total_f b = Some t"
  shows "total b * (1 - 1 / 2 ^ 53) ^ (length (items b) + 3) \<le> t \<and>
         t \<le> total b * (1 + 1 / 2 ^ 53) ^ (length (items b) + 3)"
proof -
  let ?L = "1 - 1 / 2 ^ 53 :: rat" and ?H = "1 + 1 / 2 ^ 53 :: rat" and ?n = "length (items b)"
  let ?S = "subtotal (items b)" and ?sh = "py_or_zero (shipping b)"
  obtain st where st: "subtotal_f (items b) = Some st" and t: "f_add st ?sh = Some t"
    using assms(3) by (auto simp: total_f_def split: option.splits)
  have sb: "0 \<le> st" "?S * ?L ^ (?n + 2) \<le> st" "st \<le> ?S * ?H ^ (?n + 2)"
    using subtotal_f_bounds [OF assms(1) st] by simp_all
  have tb: "(st + ?sh) * ?L \<le> t" "t \<le> (st + ?sh) * ?H"
    using to_double_bounds [OF t [unfolded f_add_def]] sb(1) assms(2) by simp_all
  have L1: "?L ^ (?n + 2) \<le> 1" by (rule power_le_one) simp_all
  have H1: "1 \<le> ?H ^ (?n + 2)" by (rule one_le_power) simp
  have "(?S + ?sh) * ?L ^ (?n + 2) = ?S * ?L ^ (?n + 2) + ?sh * ?L ^ (?n + 2)" by (rule distrib_right)
  also have "\<dots> \<le> ?S * ?L ^ (?n + 2) + ?sh" using mult_left_mono [OF L1 assms(2)] by simp
  also have "\<dots> \<le> st + ?sh" using sb(2) by simp
  finally have lo: "(?S + ?sh) * ?L ^ (?n + 2) * ?L \<le> (st + ?sh) * ?L" by (rule mult_right_mono) simp
  have "st + ?sh \<le> ?S * ?H ^ (?n + 2) + ?sh" using sb(3) by simp
  also have "\<dots> \<le> ?S * ?H ^ (?n + 2) + ?sh * ?H ^ (?n + 2)" using mult_left_mono [OF H1 assms(2)] by simp
  also have "\<dots> = (?S + ?sh) * ?H ^ (?n + 2)" by (rule distrib_right [symmetric])
  finally have hi: "(st + ?sh) * ?H \<le> (?S + ?sh) * ?H ^ (?n + 2) * ?H" by (rule mult_right_mono) simp
  have eL: "total b * ?L ^ (?n + 3) = (?S + ?sh) * ?L ^ (?n + 2) * ?L"
    by (simp only: total_def numeral_3_eq_3 numeral_2_eq_2 add_Suc_right power_Suc2 mult.assoc)
  have eH: "total b * ?H ^ (?n + 3) = (?S + ?sh) * ?H ^ (?n + 2) * ?H"
    by (simp only: total_def numeral_3_eq_3 numeral_2_eq_2 add_Suc_right power_Suc2 mult.assoc)
  show ?thesis unfolding eL eH using tb lo hi by linarith
qed

section \<open>From the submitted decimals to the code's total\<close>

lemma those_parse_items:
  "those (map parse_item ds) = Some its \<Longrightarrow>
   list_all2 (\<lambda>d it. to_double (price d) = Some (price it) \<and> quantity it = quantity d) ds its"
  by (induction ds arbitrary: its) (auto simp: parse_item_def split: option.splits)

lemma parsed_subtotal_bounds:
  assumes "list_all2 (\<lambda>d it. to_double (price d) = Some (price it) \<and> quantity it = quantity d) ds its"
    and "list_all (\<lambda>it. 0 \<le> price it \<and> 0 \<le> quantity it) ds"
  shows "list_all (\<lambda>it. 0 \<le> price it \<and> 0 \<le> quantity it) its \<and>
         subtotal ds * (1 - 1 / 2 ^ 53) \<le> subtotal its \<and> subtotal its \<le> subtotal ds * (1 + 1 / 2 ^ 53)"
  using assms
proof (induction rule: list_all2_induct)
  case Nil
  then show ?case by simp
next
  case (Cons d ds it its)
  let ?L = "1 - 1 / 2 ^ 53 :: rat" and ?H = "1 + 1 / 2 ^ 53 :: rat"
  have d0: "0 \<le> price d" "0 \<le> quantity d" using Cons.prems by simp_all
  have pb: "0 \<le> price it" "price d * ?L \<le> price it" "price it \<le> price d * ?H"
    using to_double_bounds [of "price d" "price it"] Cons.hyps(1) d0(1) by simp_all
  have q: "quantity it = quantity d" using Cons.hyps(1) by simp
  have qn: "(0 :: rat) \<le> of_int (quantity d)" using d0(2) by simp
  have "line_amount d * ?L = price d * ?L * of_int (quantity d)" by (simp add: line_amount_def algebra_simps)
  also have "\<dots> \<le> line_amount it" using mult_right_mono [OF pb(2) qn] q by (simp add: line_amount_def)
  finally have lo: "line_amount d * ?L \<le> line_amount it" .
  have "line_amount it \<le> price d * ?H * of_int (quantity d)"
    using mult_right_mono [OF pb(3) qn] q by (simp add: line_amount_def)
  also have "\<dots> = line_amount d * ?H" by (simp add: line_amount_def algebra_simps)
  finally have hi: "line_amount it \<le> line_amount d * ?H" .
  have ih: "list_all (\<lambda>it. 0 \<le> price it \<and> 0 \<le> quantity it) its"
    "subtotal ds * ?L \<le> subtotal its" "subtotal its \<le> subtotal ds * ?H"
    using Cons.IH Cons.prems by simp_all
  show ?case using ih lo hi pb(1) d0(2) q by (simp add: distrib_right)
qed

lemma parse_order_bounds:
  assumes "parse_order bd = Some b"
    and "list_all (\<lambda>it. 0 \<le> price it \<and> 0 \<le> quantity it) (items bd)" and "0 \<le> py_or_zero (shipping bd)"
  shows "length (items b) = length (items bd) \<and> list_all (\<lambda>it. 0 \<le> price it \<and> 0 \<le> quantity it) (items b) \<and>
         0 \<le> py_or_zero (shipping b) \<and>
         total bd * (1 - 1 / 2 ^ 53) \<le> total b \<and> total b \<le> total bd * (1 + 1 / 2 ^ 53)"
proof -
  let ?L = "1 - 1 / 2 ^ 53 :: rat" and ?H = "1 + 1 / 2 ^ 53 :: rat"
  obtain its sh where its: "those (map parse_item (items bd)) = Some its"
    and sh: "(case shipping bd of None \<Rightarrow> Some None | Some x \<Rightarrow> map_option Some (to_double x)) = Some sh"
    and b: "b = \<lparr>items = its, shipping = sh\<rparr>"
    using assms(1) by (auto simp: parse_order_def split: option.splits)
  have rel: "list_all2 (\<lambda>d it. to_double (price d) = Some (price it) \<and> quantity it = quantity d) (items bd) its"
    using its by (rule those_parse_items)
  have sbd: "list_all (\<lambda>it. 0 \<le> price it \<and> 0 \<le> quantity it) its"
    "subtotal (items bd) * ?L \<le> subtotal its" "subtotal its \<le> subtotal (items bd) * ?H"
    using parsed_subtotal_bounds [OF rel assms(2)] by simp_all
  have shb: "0 \<le> py_or_zero sh \<and> py_or_zero (shipping bd) * ?L \<le> py_or_zero sh \<and>
             py_or_zero sh \<le> py_or_zero (shipping bd) * ?H"
  proof (cases "shipping bd")
    case None
    with sh show ?thesis by simp
  next
    case (Some x)
    with sh obtain y where y: "to_double x = Some y" and "sh = Some y" by auto
    with Some assms(3) to_double_bounds [OF y] show ?thesis by simp
  qed
  have "length its = length (items bd)" using rel by (rule list_all2_lengthD [symmetric])
  with b sbd shb show ?thesis by (simp add: total_def distrib_right)
qed

text \<open>First-order bounds on the accumulated factors.\<close>

lemma pow_lower: "0 \<le> u \<Longrightarrow> u \<le> 1 \<Longrightarrow> 1 - of_nat n * u \<le> (1 - u :: rat) ^ n"
proof (induction n)
  case 0
  then show ?case by simp
next
  case (Suc n)
  have "1 - of_nat (Suc n) * u \<le> (1 - of_nat n * u) * (1 - u)"
    using Suc.prems by (simp add: algebra_simps)
  also have "\<dots> \<le> (1 - u) ^ n * (1 - u)" using Suc by (intro mult_right_mono) simp_all
  finally show ?case by (simp add: power_Suc2 mult.commute)
qed

lemma pow_upper: "0 \<le> u \<Longrightarrow> of_nat n * u \<le> 1 / 2 \<Longrightarrow> (1 + u :: rat) ^ n \<le> 1 + 2 * of_nat n * u"
proof (induction n)
  case 0
  then show ?case by simp
next
  case (Suc n)
  have nu: "of_nat n * u \<le> 1 / 2" using Suc.prems by (simp add: algebra_simps)
  have "(1 + u) ^ Suc n = (1 + u) ^ n * (1 + u)" by (simp add: power_Suc2)
  also have "\<dots> \<le> (1 + 2 * of_nat n * u) * (1 + u)" using Suc.IH [OF Suc.prems(1) nu] Suc.prems(1)
    by (intro mult_right_mono) simp_all
  also have "\<dots> = 1 + (2 * of_nat n + 1) * u + 2 * (of_nat n * u) * u" by (simp add: algebra_simps)
  also have "\<dots> \<le> 1 + (2 * of_nat n + 1) * u + u"
  proof -
    have "2 * (of_nat n * u) * u \<le> 1 * u" using nu Suc.prems(1) by (intro mult_right_mono) simp_all
    then show ?thesis by simp
  qed
  also have "\<dots> = 1 + 2 * of_nat (Suc n) * u" by (simp add: algebra_simps)
  finally show ?case .
qed

section \<open>Evaluating the rounding\<close>

lemma flog2_eq:
  assumes "2 powi k \<le> a" and "a < 2 powi (k + 1)"
  shows "flog2 a = k"
proof -
  have a0: "0 < a" using assms(1) by (rule order.strict_trans2 [rotated]) simp
  from flog2 [OF a0] have f: "2 powi flog2 a \<le> a" "a < 2 powi (flog2 a + 1)" by blast+
  have "flog2 a < k + 1"
  proof (rule ccontr)
    assume "\<not> flog2 a < k + 1"
    then have "(2 :: rat) powi (k + 1) \<le> 2 powi flog2 a" by (intro power_int_increasing) simp_all
    with f(1) assms(2) show False by simp
  qed
  moreover have "k < flog2 a + 1"
  proof (rule ccontr)
    assume "\<not> k < flog2 a + 1"
    then have "(2 :: rat) powi (flog2 a + 1) \<le> 2 powi k" by (intro power_int_increasing) simp_all
    with f(2) assms(1) show False by simp
  qed
  ultimately show ?thesis by simp
qed

lemma round_even_near: "of_int n - 1 / 2 < m \<Longrightarrow> m < of_int n + 1 / 2 \<Longrightarrow> round_even m = n"
proof -
  assume lo: "of_int n - 1 / 2 < m" and hi: "m < of_int n + 1 / 2"
  show ?thesis
  proof (cases "of_int n \<le> m")
    case True
    then have "\<lfloor>m\<rfloor> = n" using hi by (intro floor_unique) simp_all
    with True hi show ?thesis by (simp add: round_even_def Let_def)
  next
    case False
    then have "\<lfloor>m\<rfloor> = n - 1" using lo by (intro floor_unique) simp_all
    with False lo show ?thesis by (simp add: round_even_def Let_def)
  qed
qed

lemma round_even_tie: "m = of_int n + 1 / 2 \<Longrightarrow> round_even m = (if even n then n else n + 1)"
proof -
  assume m: "m = of_int n + 1 / 2"
  then have "\<lfloor>m\<rfloor> = n" by (intro floor_unique) simp_all
  with m show ?thesis by (simp add: round_even_def Let_def)
qed

text \<open>\<open>to_double\<close> of a positive value in the binade \<open>[2^k, 2^(k+1))\<close>.\<close>

lemma to_double_eq:
  assumes "2 powi k \<le> x" and "x < 2 powi (k + 1)" and "round_even (x / 2 powi (k - 52)) = r"
    and "2 powi (-1022) \<le> x" and "of_int r * 2 powi (k - 52) < (2 :: rat) powi 1024"
  shows "to_double x = Some (of_int r * 2 powi (k - 52))"
proof -
  have x0: "0 < x" using assms(1) by (rule order.strict_trans2 [rotated]) simp
  have "flog2 x = k" using assms(1,2) by (rule flog2_eq)
  moreover have "0 \<le> r" using assms(3) round_even_nonneg [of "x / 2 powi (k - 52)"] x0 by simp
  then have "\<bar>of_int r * 2 powi (k - 52)\<bar> = (of_int r * 2 powi (k - 52) :: rat)" by simp
  moreover have "x \<noteq> 0" "sgn x = 1" "\<bar>x\<bar> = x" using x0 by simp_all
  ultimately show ?thesis using assms(3,4,5) by (simp add: to_double_def Let_def not_less)
qed

lemma pow2_nonpos: "e \<le> 0 \<Longrightarrow> (2 :: rat) powi e = 1 / 2 ^ nat (- e)"
proof -
  assume "e \<le> 0"
  then obtain m where e: "e = - int m" by (metis minus_minus nonneg_int_cases neg_0_le_iff_le)
  then show ?thesis by (simp add: power_int_minus power_int_of_nat divide_inverse)
qed

text \<open>Integers below \<open>2^53\<close> are doubles.\<close>

lemma to_double_int:
  assumes "\<bar>n\<bar> < 2 ^ 53"
  shows "to_double (of_int n) = Some (of_int n)"
proof (cases "n = 0")
  case True
  then show ?thesis by (simp add: to_double_def)
next
  case False
  let ?a = "\<bar>of_int n :: rat\<bar>" let ?e = "flog2 ?a - 52"
  have a1: "1 \<le> ?a" using False by simp
  have f: "2 powi flog2 ?a \<le> ?a" "?a < 2 powi (flog2 ?a + 1)" using flog2 [of ?a] a1 by auto
  have "flog2 ?a < 53"
  proof -
    have "?a < 2 ^ 53" using assms by (simp flip: of_int_abs)
    then have "?a < 2 powi int 53" by (simp only: power_int_of_nat)
    with f(1) have "flog2 ?a < int 53" by (intro power_int_le_imp_less_exp [of "2 :: rat"]) simp_all
    then show ?thesis by simp
  qed
  then have e0: "?e \<le> 0" by simp
  have m: "?a / 2 powi ?e = of_int (\<bar>n\<bar> * 2 ^ nat (- ?e))"
    using e0 by (simp add: pow2_nonpos flip: of_int_abs)
  have r: "round_even (?a / 2 powi ?e) = \<bar>n\<bar> * 2 ^ nat (- ?e)"
    unfolding m by (rule round_even_near) simp_all
  have y: "sgn (of_int n :: rat) * of_int (\<bar>n\<bar> * 2 ^ nat (- ?e)) * 2 powi ?e = of_int n"
  proof -
    have "sgn (of_int n :: rat) * of_int \<bar>n\<bar> = of_int n" by (simp add: of_int_abs sgn_mult_abs)
    with e0 show ?thesis by (simp add: pow2_nonpos mult.assoc flip: of_int_abs)
  qed
  have lo: "\<not> ?a < 2 powi (-1022)"
  proof -
    have "(2 :: rat) powi (-1022) \<le> 1" by (simp add: pow2_nonpos)
    with a1 show ?thesis by simp
  qed
  have hi: "\<not> 2 powi 1024 \<le> ?a"
  proof -
    have "?a < 2 ^ 53" using assms by (simp flip: of_int_abs)
    also have "(2 :: rat) ^ 53 \<le> 2 powi 1024" by (simp add: power_int_def)
    finally show ?thesis by simp
  qed
  show ?thesis using False r y lo hi by (simp add: to_double_def Let_def)
qed

lemma to_double_numeral: "numeral k < (2 :: int) ^ 53 \<Longrightarrow> to_double (numeral k) = Some (numeral k)"
  using to_double_int [of "numeral k"] by simp


lemma dbl_tenth: "to_double (1 / 10) = Some (3602879701896397 / 36028797018963968)"
proof -
  have "round_even ((1 / 10) / 2 powi (-4 - 52)) = 7205759403792794"
    by (rule round_even_near) (simp_all add: pow2_nonpos)
  then have "to_double (1 / 10) = Some (of_int 7205759403792794 * 2 powi (-4 - 52))"
    by (rule to_double_eq [rotated 2]) (simp_all add: pow2_nonpos)
  then show ?thesis by (simp add: pow2_nonpos)
qed

lemma dbl_three_tenths: "to_double (10808639105689191 / 36028797018963968) = Some (1351079888211149 / 4503599627370496)"
proof -
  have "round_even ((10808639105689191 / 36028797018963968) / 2 powi (-2 - 52)) = 5404319552844596"
    by (subst round_even_tie [where n = 5404319552844595]) (simp_all add: pow2_nonpos)
  then have "to_double (10808639105689191 / 36028797018963968) = Some (of_int 5404319552844596 * 2 powi (-2 - 52))"
    by (rule to_double_eq [rotated 2]) (simp_all add: pow2_nonpos)
  then show ?thesis by (simp add: pow2_nonpos)
qed

lemma dbl_three_tenths_exact: "to_double (1351079888211149 / 4503599627370496) = Some (1351079888211149 / 4503599627370496)"
proof -
  have "round_even ((1351079888211149 / 4503599627370496) / 2 powi (-2 - 52)) = 5404319552844596"
    by (rule round_even_near) (simp_all add: pow2_nonpos)
  then have "to_double (1351079888211149 / 4503599627370496) = Some (of_int 5404319552844596 * 2 powi (-2 - 52))"
    by (rule to_double_eq [rotated 2]) (simp_all add: pow2_nonpos)
  then show ?thesis by (simp add: pow2_nonpos)
qed

lemma parse_tenths_order:
  "parse_order tenths_order =
     Some \<lparr>items = [\<lparr>product_id = ''a'', price = 3602879701896397 / 36028797018963968, quantity = 3\<rparr>],
           shipping = None\<rparr>"
  by (simp add: parse_order_def parse_item_def dbl_tenth)

lemma total_f_tenths_order:
  "total_f \<lparr>items = [\<lparr>product_id = ''a'', price = 3602879701896397 / 36028797018963968, quantity = 3\<rparr>],
           shipping = None\<rparr> = Some (1351079888211149 / 4503599627370496)"
  by (simp add: total_f_def subtotal_f_def line_amount_f_def f_mul_def f_add_def to_double_numeral
      dbl_three_tenths dbl_three_tenths_exact py_or_zero_def)

text \<open>The float total is within \<open>1/2000\<close> of the decimal total whenever it is
  defined, for at most 996 items and a total of at most \<open>10^9\<close>.\<close>

lemma total_f_close:
  assumes "parse_order bd = Some b"
    and "list_all (\<lambda>it. 0 \<le> price it \<and> 0 \<le> quantity it) (items bd)" and "0 \<le> py_or_zero (shipping bd)"
    and "length (items bd) \<le> 996" and "total bd \<le> 10 ^ 9" and "total_f b = Some t"
  shows "\<bar>t - total bd\<bar> < 1 / 2000"
proof -
  let ?u = "1 / 2 ^ 53 :: rat" and ?n = "length (items bd)" and ?T = "total bd"
  have pb: "length (items b) = ?n" "list_all (\<lambda>it. 0 \<le> price it \<and> 0 \<le> quantity it) (items b)"
    "0 \<le> py_or_zero (shipping b)" "?T * (1 - ?u) \<le> total b" "total b \<le> ?T * (1 + ?u)"
    using parse_order_bounds [OF assms(1-3)] by simp_all
  have tb: "total b * (1 - ?u) ^ (?n + 3) \<le> t" "t \<le> total b * (1 + ?u) ^ (?n + 3)"
    using total_f_bounds [OF pb(2,3) assms(6)] pb(1) by simp_all
  have T0: "0 \<le> ?T"
    using subtotal_nonneg_items [of "items bd"] assms(2,3) by (simp add: total_def list_all_iff)
  have n4: "of_nat (?n + 4) \<le> (1000 :: rat)" using assms(4) by simp
  have cu: "?T * (of_nat (?n + 4) * ?u) \<le> 10 ^ 9 * (1000 * ?u)"
    using T0 assms(5) n4 by (intro mult_mono) simp_all
  have small: "10 ^ 9 * (1000 * ?u) < 1 / 4000" by simp
  have p4: "\<And>x :: rat. x ^ (?n + 4) = x * x ^ (?n + 3)" by (simp add: eval_nat_numeral)
  have "?T * (1 - of_nat (?n + 4) * ?u) \<le> ?T * (1 - ?u) ^ (?n + 4)"
    using T0 pow_lower [of ?u "?n + 4"] by (intro mult_left_mono) simp_all
  also have "\<dots> = ?T * (1 - ?u) * (1 - ?u) ^ (?n + 3)" by (simp only: p4 mult.assoc)
  also have "\<dots> \<le> total b * (1 - ?u) ^ (?n + 3)" using pb(4) by (intro mult_right_mono) simp_all
  finally have lo: "?T - ?T * (of_nat (?n + 4) * ?u) \<le> t" using tb(1) by (simp add: algebra_simps)
  have "total b * (1 + ?u) ^ (?n + 3) \<le> ?T * (1 + ?u) * (1 + ?u) ^ (?n + 3)"
    using pb(5) by (intro mult_right_mono) simp_all
  also have "\<dots> = ?T * (1 + ?u) ^ (?n + 4)" by (simp only: p4 mult.assoc)
  also have "\<dots> \<le> ?T * (1 + 2 * of_nat (?n + 4) * ?u)"
    using T0 pow_upper [of ?u "?n + 4"] n4 by (intro mult_left_mono) simp_all
  finally have hi: "t \<le> ?T + 2 * (?T * (of_nat (?n + 4) * ?u))" using tb(2) by (simp add: algebra_simps)
  show ?thesis using lo hi cu small by linarith
qed

section \<open>The float total against the decimal total\<close>

text \<open>An order of three items at price \<open>0.1\<close> and no shipping is charged
  the double \<open>0.30000000000000004\<close> (\<open>1351079888211149 / 2^52\<close>), not the
  decimal total \<open>0.3\<close> that the exact order total gives.\<close>

theorem float_total_tenths:
  "(case parse_order tenths_order of None \<Rightarrow> None | Some b \<Rightarrow> total_f b)
     = Some (1351079888211149 / 4503599627370496)
   \<and> total tenths_order = 3 / 10"
  by (simp add: parse_tenths_order total_f_tenths_order total_def subtotal_def line_amount_def)

end
