(* ===== verification/Float_Range.thy ===== *)
theory Float_Range
  imports Float
begin

text \<open>
  When the code's float total exists. Every price, quantity, product and
  partial sum of an order must round to a finite, normal double; for orders
  whose nonzero prices and shipping are at least \<open>0.001\<close>, with at most
  996 items of quantity between 1 and \<open>10^11\<close> and a decimal total of at most
  \<open>10^9\<close>, every value the computation passes through is zero or lies between
  \<open>2^-10\<close> and \<open>2^40\<close>, so parsing and \<open>total_f\<close> always return, and
  the result is within \<open>1/2000\<close> of the decimal total. On whole-number
  prices and shipping the float computation is exact below \<open>2^53\<close>.
\<close>

section \<open>Doubles of the values in range\<close>

lemma flog2_ge: "2 powi k \<le> a \<Longrightarrow> k \<le> flog2 a"
proof (rule ccontr)
  assume k: "2 powi k \<le> a" and "\<not> k \<le> flog2 a"
  then have "(2 :: rat) powi (flog2 a + 1) \<le> 2 powi k" by (intro power_int_increasing) simp_all
  moreover have "a < 2 powi (flog2 a + 1)"
  proof -
    have "(0 :: rat) < 2 powi k" by simp
    then have "0 < a" using k by linarith
    then show ?thesis using flog2 [of a] by blast
  qed
  ultimately show False using k by simp
qed

text \<open>A double rounded from a value of at least \<open>2^k\<close> is at least \<open>2^k\<close>.\<close>

lemma to_double_ge_pow:
  assumes "to_double x = Some y" and "2 powi k \<le> \<bar>x\<bar>"
  shows "2 powi k \<le> \<bar>y\<bar>"
proof -
  have "(0 :: rat) < 2 powi k" by simp
  then have "0 < \<bar>x\<bar>" using assms(2) by linarith
  then have x0: "x \<noteq> 0" by simp
  then have y: "y = rounded x" using assms(1) by (simp add: to_double_rounded split: if_splits)
  have "(2 :: rat) powi k \<le> 2 powi flog2 \<bar>x\<bar>" using flog2_ge [OF assms(2)] by (intro power_int_increasing) simp_all
  then show ?thesis using rounded_close [OF x0] y by simp
qed

text \<open>A value between \<open>2^-1022\<close> and \<open>2^1000\<close> has a double.\<close>

lemma to_double_defined:
  assumes "2 powi (-1022) \<le> \<bar>x\<bar>" and "\<bar>x\<bar> \<le> 2 ^ 1000"
  shows "to_double x = Some (rounded x)"
proof -
  have "(0 :: rat) < 2 powi (-1022)" by simp
  then have "0 < \<bar>x\<bar>" using assms(1) by linarith
  then have x0: "x \<noteq> 0" by simp
  have "\<bar>rounded x\<bar> \<le> \<bar>x\<bar> + \<bar>x\<bar> / 2 ^ 53" using rounded_close [OF x0] by linarith
  also have "\<dots> \<le> 2 ^ 1000 + 2 ^ 1000" using assms(2) by (intro add_mono divide_right_mono) simp_all
  also have "\<dots> < 2 powi 1024" by (simp only: mult_2 [symmetric] flip: power_int_of_nat) (simp add: power_int_def)
  finally show ?thesis using x0 assms(1) by (simp add: to_double_rounded)
qed


text \<open>The doubles an order's total passes through: zero or at least \<open>2^-10\<close>.\<close>

lemma to_double_ok:
  assumes "0 \<le> x" and "x = 0 \<or> 2 powi (-10) \<le> x" and "x \<le> 2 ^ 40"
  shows "\<exists>y. to_double x = Some y \<and> (y = 0 \<or> 2 powi (-10) \<le> y)"
proof (cases "x = 0")
  case True
  then show ?thesis by (simp add: to_double_def)
next
  case False
  then have x: "2 powi (-10) \<le> x" using assms(2) by simp
  have "(2 :: rat) powi (-1022) \<le> 2 powi (-10)" by (intro power_int_increasing) simp_all
  then have "2 powi (-1022) \<le> \<bar>x\<bar>" using x assms(1) by simp
  moreover have "\<bar>x\<bar> \<le> 2 ^ 1000"
  proof -
    have "(2 :: rat) ^ 40 \<le> 2 ^ 1000" by (rule power_increasing) simp_all
    then show ?thesis using assms(1,3) by simp
  qed
  ultimately have d: "to_double x = Some (rounded x)" by (rule to_double_defined)
  have "2 powi (-10) \<le> \<bar>x\<bar>" using x assms(1) by simp
  then have "2 powi (-10) \<le> \<bar>rounded x\<bar>" by (rule to_double_ge_pow [OF d])
  moreover have "0 \<le> rounded x" using to_double_bounds [OF d assms(1)] by simp
  ultimately show ?thesis using d by simp
qed

lemma H_pow_le_2: "n \<le> 1004 \<Longrightarrow> (1 + 1 / 2 ^ 53 :: rat) ^ n \<le> 2"
proof -
  assume n: "n \<le> 1004"
  have nu: "of_nat n * (1 / 2 ^ 53 :: rat) \<le> 1004 / 2 ^ 53" using n by simp
  also have "\<dots> \<le> 1 / 2" by simp
  finally have "(1 + 1 / 2 ^ 53 :: rat) ^ n \<le> 1 + 2 * of_nat n * (1 / 2 ^ 53)" by (intro pow_upper) simp_all
  also have "\<dots> \<le> 2" using nu by simp
  finally show ?thesis .
qed

lemma line_amount_f_ok:
  assumes "price it = 0 \<or> 2 powi (-10) \<le> price it" and "1 \<le> quantity it" and "quantity it \<le> 2 ^ 39"
    and "line_amount it \<le> 2 ^ 38"
  shows "\<exists>v. line_amount_f it = Some v \<and> (v = 0 \<or> 2 powi (-10) \<le> v)"
proof -
  let ?H = "1 + 1 / 2 ^ 53 :: rat"
  have p0: "0 \<le> price it" using assms(1) by (auto intro: order.trans [rotated])
  have q1: "(2 :: rat) powi 0 \<le> \<bar>of_int (quantity it)\<bar>" using assms(2) by simp
  have "(of_int (quantity it) :: rat) \<le> 2 ^ 39" using assms(3) by (metis of_int_le_iff of_int_numeral of_int_power)
  then obtain q where q: "to_double (of_int (quantity it)) = Some q"
    using to_double_ok [of "of_int (quantity it)"] assms(2) by fastforce
  have qge: "1 \<le> q" using to_double_ge_pow [OF q q1] to_double_bounds [OF q] assms(2) by simp
  have qle: "q \<le> of_int (quantity it) * ?H" using to_double_bounds [OF q] assms(2) by simp
  have "price it * q \<le> price it * (of_int (quantity it) * ?H)" using qle p0 by (rule mult_left_mono)
  also have "\<dots> = line_amount it * ?H" by (simp add: line_amount_def)
  also have "\<dots> \<le> 2 ^ 38 * 2" using assms(4) by (intro mult_mono) simp_all
  finally have hi: "price it * q \<le> 2 ^ 40" by simp
  have "price it * q = 0 \<or> 2 powi (-10) \<le> price it * q"
  proof (cases "price it = 0")
    case False
    then have "2 powi (-10) * 1 \<le> price it * q" using assms(1) qge by (intro mult_mono) simp_all
    then show ?thesis by simp
  qed simp
  then obtain v where "to_double (price it * q) = Some v \<and> (v = 0 \<or> 2 powi (-10) \<le> v)"
    using to_double_ok [of "price it * q"] p0 qge hi by fastforce
  then show ?thesis using q by (auto simp: line_amount_f_def f_mul_def)
qed


lemma item_ok_nonneg:
  "list_all (\<lambda>it. (price it = 0 \<or> 2 powi (-10) \<le> price it) \<and> 1 \<le> quantity it \<and> quantity it \<le> 2 ^ 39) (its :: rat order_item list) \<Longrightarrow>
   list_all (\<lambda>it. 0 \<le> price it \<and> 0 \<le> quantity it) its"
proof (induction its)
  case (Cons it its)
  have "(0 :: rat) \<le> 2 powi (-10)" by simp
  with Cons show ?case by auto
qed simp

lemma subtotal_f_ok:
  "list_all (\<lambda>it. (price it = 0 \<or> 2 powi (-10) \<le> price it) \<and> 1 \<le> quantity it \<and> quantity it \<le> 2 ^ 39) its \<Longrightarrow>
   length its \<le> 1000 \<Longrightarrow> subtotal its \<le> 2 ^ 38 \<Longrightarrow>
   \<exists>s. subtotal_f its = Some s \<and> (s = 0 \<or> 2 powi (-10) \<le> s)"
proof (induction its rule: rev_induct)
  case Nil
  then show ?case by (simp add: subtotal_f_def)
next
  case (snoc it its)
  let ?H = "1 + 1 / 2 ^ 53 :: rat"
  have nn: "list_all (\<lambda>it. 0 \<le> price it \<and> 0 \<le> quantity it) (its @ [it])"
    using item_ok_nonneg [OF snoc.prems(1)] .
  have l0: "0 \<le> line_amount it" using nn by (simp add: line_amount_nonneg)
  have s0: "0 \<le> subtotal its"
    using nn by (intro subtotal_nonneg_items) (simp add: list_all_iff)
  have sub: "subtotal (its @ [it]) = subtotal its + line_amount it" by (simp add: subtotal_append)
  have sb: "subtotal its \<le> 2 ^ 38" "line_amount it \<le> 2 ^ 38" using snoc.prems(3) sub l0 s0 by linarith+
  obtain s where s: "subtotal_f its = Some s" and sr: "s = 0 \<or> 2 powi (-10) \<le> s"
    using snoc.IH sb(1) snoc.prems(1,2) by auto
  obtain v where v: "line_amount_f it = Some v" and vr: "v = 0 \<or> 2 powi (-10) \<le> v"
    using line_amount_f_ok [OF _ _ _ sb(2)] snoc.prems(1) by auto
  have sh: "0 \<le> s" "s \<le> subtotal its * ?H ^ (length its + 2)"
    using subtotal_f_bounds [OF _ s] nn by simp_all
  have vh: "0 \<le> v" "v \<le> line_amount it * ?H ^ 2"
    using line_amount_f_bounds [OF _ _ v] nn by simp_all
  have "s \<le> 2 ^ 38 * 2" using sh(2) sb(1) s0 H_pow_le_2 [of "length its + 2"] snoc.prems(2)
    by (intro order.trans [OF _ mult_mono [of "subtotal its" "2 ^ 38" "?H ^ (length its + 2)" 2]]) simp_all
  moreover have "v \<le> 2 ^ 38 * 2" using vh(2) sb(2) l0 H_pow_le_2 [of 2]
    by (intro order.trans [OF _ mult_mono [of "line_amount it" "2 ^ 38" "?H ^ 2" 2]]) simp_all
  ultimately have hi: "s + v \<le> 2 ^ 40" by simp
  have "s + v = 0 \<or> 2 powi (-10) \<le> s + v" using sr vr sh(1) vh(1) by auto
  then obtain t where "to_double (s + v) = Some t \<and> (t = 0 \<or> 2 powi (-10) \<le> t)"
    using to_double_ok [of "s + v"] sh(1) vh(1) hi by fastforce
  then show ?case using s v by (simp add: subtotal_f_snoc f_add_def)
qed


lemma total_f_ok:
  assumes "list_all (\<lambda>it. (price it = 0 \<or> 2 powi (-10) \<le> price it) \<and> 1 \<le> quantity it \<and> quantity it \<le> 2 ^ 39) (items b)"
    and "length (items b) \<le> 1000" and "py_or_zero (shipping b) = 0 \<or> 2 powi (-10) \<le> py_or_zero (shipping b)"
    and "total b \<le> 2 ^ 38"
  shows "\<exists>t. total_f b = Some t"
proof -
  let ?H = "1 + 1 / 2 ^ 53 :: rat" and ?sh = "py_or_zero (shipping b)"
  have nn: "list_all (\<lambda>it. 0 \<le> price it \<and> 0 \<le> quantity it) (items b)" using item_ok_nonneg [OF assms(1)] .
  have s0: "0 \<le> subtotal (items b)" using nn by (intro subtotal_nonneg_items) (simp add: list_all_iff)
  have "(0 :: rat) \<le> 2 powi (-10)" by simp
  then have h0: "0 \<le> ?sh" using assms(3) by auto
  have sb: "subtotal (items b) \<le> 2 ^ 38" "?sh \<le> 2 ^ 38" using assms(4) s0 h0 by (simp_all add: total_def)
  obtain st where st: "subtotal_f (items b) = Some st" and sr: "st = 0 \<or> 2 powi (-10) \<le> st"
    using subtotal_f_ok [OF assms(1,2) sb(1)] by blast
  have sh: "0 \<le> st" "st \<le> subtotal (items b) * ?H ^ (length (items b) + 2)"
    using subtotal_f_bounds [OF nn st] by simp_all
  have "st \<le> 2 ^ 38 * 2" using sh(2) sb(1) s0 H_pow_le_2 [of "length (items b) + 2"] assms(2)
    by (intro order.trans [OF _ mult_mono [of "subtotal (items b)" "2 ^ 38" "?H ^ (length (items b) + 2)" 2]]) simp_all
  then have hi: "st + ?sh \<le> 2 ^ 40" using sb(2) by simp
  have "st + ?sh = 0 \<or> 2 powi (-10) \<le> st + ?sh" using sr assms(3) sh(1) h0 by auto
  then obtain t where "to_double (st + ?sh) = Some t"
    using to_double_ok [of "st + ?sh"] sh(1) h0 hi by fastforce
  then show ?thesis using st by (simp add: total_f_def f_add_def)
qed

lemma pow2_m10: "(2 :: rat) powi (-10) \<le> 1 / 1000"
  by (simp add: pow2_nonpos)

lemma those_parse_ok:
  "list_all (\<lambda>it. (price it = 0 \<or> 1 / 1000 \<le> price it) \<and> 1 \<le> quantity it \<and> quantity it \<le> 10 ^ 11) ds \<Longrightarrow>
   subtotal ds \<le> 2 ^ 40 \<Longrightarrow>
   \<exists>its. those (map parse_item ds) = Some its \<and>
     list_all (\<lambda>it. (price it = 0 \<or> 2 powi (-10) \<le> price it) \<and> 1 \<le> quantity it \<and> quantity it \<le> 2 ^ 39) its"
proof (induction ds)
  case Nil
  then show ?case by simp
next
  case (Cons d ds)
  have d: "price d = 0 \<or> 1 / 1000 \<le> price d" "1 \<le> quantity d" "quantity d \<le> 10 ^ 11" using Cons.prems(1) by simp_all
  have p0: "0 \<le> price d" using d(1) by auto
  have nn: "list_all (\<lambda>it. 0 \<le> price it \<and> 0 \<le> quantity it) ds"
    using Cons.prems(1) by (auto simp: list_all_iff intro: order.trans [rotated])
  have s0: "0 \<le> subtotal ds" using nn by (intro subtotal_nonneg_items) (simp add: list_all_iff)
  have "(1 :: rat) \<le> of_int (quantity d)" using d(2) by simp
  then have "price d * 1 \<le> line_amount d" unfolding line_amount_def using p0 by (rule mult_left_mono)
  moreover have "line_amount d \<le> 2 ^ 40" using Cons.prems(2) s0 by simp
  ultimately have phi: "price d \<le> 2 ^ 40" by simp
  have "price d = 0 \<or> 2 powi (-10) \<le> price d" using d(1) pow2_m10 by auto
  then obtain p where p: "to_double (price d) = Some p" and pr: "p = 0 \<or> 2 powi (-10) \<le> p"
    using to_double_ok [of "price d"] p0 phi by blast
  have "0 \<le> line_amount d" using p0 d(2) by (simp add: line_amount_nonneg)
  then have "subtotal ds \<le> 2 ^ 40" using Cons.prems(2) by simp
  then obtain its where its: "those (map parse_item ds) = Some its"
    and ok: "list_all (\<lambda>it. (price it = 0 \<or> 2 powi (-10) \<le> price it) \<and> 1 \<le> quantity it \<and> quantity it \<le> 2 ^ 39) its"
    using Cons.IH Cons.prems(1) by auto
  have "quantity d \<le> 2 ^ 39" using d(3) by simp
  moreover have "parse_item d = Some (d\<lparr>price := p\<rparr>)" using p by (simp add: parse_item_def)
  ultimately show ?case using its ok pr d(2) by simp
qed


lemma parse_order_ok:
  assumes "list_all (\<lambda>it. (price it = 0 \<or> 1 / 1000 \<le> price it) \<and> 1 \<le> quantity it \<and> quantity it \<le> 10 ^ 11) (items bd)"
    and "case shipping bd of None \<Rightarrow> True | Some x \<Rightarrow> x = 0 \<or> 1 / 1000 \<le> x" and "total bd \<le> 10 ^ 9"
  shows "\<exists>b. parse_order bd = Some b \<and>
    list_all (\<lambda>it. (price it = 0 \<or> 2 powi (-10) \<le> price it) \<and> 1 \<le> quantity it \<and> quantity it \<le> 2 ^ 39) (items b) \<and>
    (py_or_zero (shipping b) = 0 \<or> 2 powi (-10) \<le> py_or_zero (shipping b))"
proof -
  have nn: "list_all (\<lambda>it. 0 \<le> price it \<and> 0 \<le> quantity it) (items bd)"
    using assms(1) by (auto simp: list_all_iff intro: order.trans [rotated])
  have s0: "0 \<le> subtotal (items bd)" using nn by (intro subtotal_nonneg_items) (simp add: list_all_iff)
  have h0: "0 \<le> py_or_zero (shipping bd)"
    using assms(2) by (cases "shipping bd") (auto simp: py_or_zero_def intro: order.trans [rotated])
  have "subtotal (items bd) \<le> 2 ^ 40" using assms(3) h0 by (simp add: total_def)
  then obtain its where its: "those (map parse_item (items bd)) = Some its"
    and ok: "list_all (\<lambda>it. (price it = 0 \<or> 2 powi (-10) \<le> price it) \<and> 1 \<le> quantity it \<and> quantity it \<le> 2 ^ 39) its"
    using those_parse_ok [OF assms(1)] by blast
  have "\<exists>sh. (case shipping bd of None \<Rightarrow> Some None | Some x \<Rightarrow> map_option Some (to_double x)) = Some sh \<and>
             (py_or_zero sh = 0 \<or> 2 powi (-10) \<le> py_or_zero sh)"
  proof (cases "shipping bd")
    case (Some x)
    have x0: "0 \<le> x" "x = 0 \<or> 2 powi (-10) \<le> x" using assms(2) Some pow2_m10 by auto
    have "x \<le> 2 ^ 40" using assms(3) s0 Some x0(1) by (simp add: total_def py_or_zero_def split: if_splits)
    then obtain y where "to_double x = Some y" "y = 0 \<or> 2 powi (-10) \<le> y" using to_double_ok [OF x0] by blast
    with Some show ?thesis by (auto simp: py_or_zero_def)
  qed (simp add: py_or_zero_def)
  then obtain sh where "(case shipping bd of None \<Rightarrow> Some None | Some x \<Rightarrow> map_option Some (to_double x)) = Some sh"
    and "py_or_zero sh = 0 \<or> 2 powi (-10) \<le> py_or_zero sh" by blast
  with its ok show ?thesis by (simp add: parse_order_def)
qed

section \<open>The float total of a realistic order\<close>

text \<open>C20: for an order of at most 996 items whose prices are 0 or at least
  \<open>0.001\<close>, whose quantities are between 1 and \<open>10^11\<close>, whose shipping is
  absent, 0 or at least \<open>0.001\<close>, and whose decimal total is at most \<open>10^9\<close>,
  pydantic's parsing and the code's float total both succeed, and the total is
  within \<open>1/2000\<close> of the decimal total, so it rounds to the right cent.\<close>

theorem total_f_error:
  assumes "list_all (\<lambda>it. (price it = 0 \<or> 1 / 1000 \<le> price it) \<and> 1 \<le> quantity it \<and> quantity it \<le> 10 ^ 11) (items bd)"
    and "case shipping bd of None \<Rightarrow> True | Some x \<Rightarrow> x = 0 \<or> 1 / 1000 \<le> x"
    and "length (items bd) \<le> 996" and "total bd \<le> 10 ^ 9"
  shows "\<exists>b t. parse_order bd = Some b \<and> total_f b = Some t \<and> \<bar>t - total bd\<bar> < 1 / 2000"
proof -
  obtain b where b: "parse_order bd = Some b"
    and ok: "list_all (\<lambda>it. (price it = 0 \<or> 2 powi (-10) \<le> price it) \<and> 1 \<le> quantity it \<and> quantity it \<le> 2 ^ 39) (items b)"
    and sh: "py_or_zero (shipping b) = 0 \<or> 2 powi (-10) \<le> py_or_zero (shipping b)"
    using parse_order_ok [OF assms(1,2,4)] by blast
  have nn: "list_all (\<lambda>it. 0 \<le> price it \<and> 0 \<le> quantity it) (items bd)"
    using assms(1) by (auto simp: list_all_iff intro: order.trans [rotated])
  have h0: "0 \<le> py_or_zero (shipping bd)"
    using assms(2) by (cases "shipping bd") (auto simp: py_or_zero_def intro: order.trans [rotated])
  have pb: "length (items b) = length (items bd)" "total b \<le> total bd * (1 + 1 / 2 ^ 53)"
    using parse_order_bounds [OF b nn h0] by simp_all
  have "total bd * (1 + 1 / 2 ^ 53) \<le> 10 ^ 9 * 2" using assms(4) by simp
  then have "total b \<le> 2 ^ 38" using pb(2) by simp
  then obtain t where t: "total_f b = Some t" using total_f_ok [OF ok _ sh] pb(1) assms(3) by fastforce
  have "\<bar>t - total bd\<bar> < 1 / 2000" by (rule total_f_close [OF b nn h0 assms(3,4) t])
  with b t show ?thesis by blast
qed

theorem total_f_error_witness:
  "list_all (\<lambda>it. (price it = 0 \<or> 1 / 1000 \<le> price it) \<and> 1 \<le> quantity it \<and> quantity it \<le> 10 ^ 11) (items tenths_order) \<and>
   (case shipping tenths_order of None \<Rightarrow> True | Some x \<Rightarrow> x = 0 \<or> 1 / 1000 \<le> x) \<and>
   length (items tenths_order) \<le> 996 \<and> total tenths_order \<le> 10 ^ 9 \<and>
   (\<exists>b t. parse_order tenths_order = Some b \<and> total_f b = Some t \<and> \<bar>t - total tenths_order\<bar> < 1 / 2000)"
proof -
  have h: "list_all (\<lambda>it. (price it = 0 \<or> 1 / 1000 \<le> price it) \<and> 1 \<le> quantity it \<and> quantity it \<le> 10 ^ 11) (items tenths_order) \<and>
   (case shipping tenths_order of None \<Rightarrow> True | Some x \<Rightarrow> x = 0 \<or> 1 / 1000 \<le> x) \<and>
   length (items tenths_order) \<le> 996 \<and> total tenths_order \<le> 10 ^ 9"
    by (simp add: total_def subtotal_def line_amount_def py_or_zero_def)
  with total_f_error [of tenths_order] show ?thesis by blast
qed

section \<open>Whole-number prices\<close>

text \<open>Integers below \<open>2^53\<close> are doubles, and sums and products of them
  stay integers.\<close>

lemma to_double_intval: "x = of_int \<lfloor>x\<rfloor> \<Longrightarrow> \<bar>x\<bar> < 2 ^ 53 \<Longrightarrow> to_double x = Some x"
proof -
  assume x: "x = of_int \<lfloor>x\<rfloor>" and b: "\<bar>x\<bar> < 2 ^ 53"
  have "\<bar>\<lfloor>x\<rfloor>\<bar> < 2 ^ 53"
  proof -
    have "(of_int \<bar>\<lfloor>x\<rfloor>\<bar> :: rat) < of_int (2 ^ 53)" using b x by (metis of_int_abs of_int_numeral of_int_power)
    then show ?thesis by (simp only: of_int_less_iff)
  qed
  then have "to_double (of_int \<lfloor>x\<rfloor>) = Some (of_int \<lfloor>x\<rfloor>)" by (rule to_double_int)
  with x show ?thesis by simp
qed

lemma int_val_mult: "x = of_int \<lfloor>x\<rfloor> \<Longrightarrow> x * of_int q = (of_int \<lfloor>x * of_int q\<rfloor> :: rat)"
  by (metis floor_of_int of_int_mult)

lemma int_val_add: "x = of_int \<lfloor>x\<rfloor> \<Longrightarrow> y = of_int \<lfloor>y\<rfloor> \<Longrightarrow> x + y = (of_int \<lfloor>x + y\<rfloor> :: rat)"
  by (metis floor_of_int of_int_add)

lemma subtotal_intval:
  "list_all (\<lambda>it. price it = of_int \<lfloor>price it\<rfloor>) its \<Longrightarrow> subtotal its = (of_int \<lfloor>subtotal its\<rfloor> :: rat)"
proof (induction its)
  case (Cons it its)
  have "line_amount it = of_int \<lfloor>line_amount it\<rfloor>" unfolding line_amount_def using Cons.prems by (intro int_val_mult) simp
  with Cons show ?case using int_val_add by simp
qed simp

lemma subtotal_f_integers:
  "list_all (\<lambda>it. price it = of_int \<lfloor>price it\<rfloor> \<and> 0 \<le> price it \<and> 0 \<le> quantity it \<and> quantity it < 2 ^ 53) its \<Longrightarrow>
   subtotal its < 2 ^ 53 \<Longrightarrow> subtotal_f its = Some (subtotal its)"
proof (induction its rule: rev_induct)
  case Nil
  then show ?case by (simp add: subtotal_f_def)
next
  case (snoc it its)
  have nn: "list_all (\<lambda>it. 0 \<le> price it \<and> 0 \<le> quantity it) (its @ [it])"
    using snoc.prems(1) by (simp add: list_all_iff)
  have l0: "0 \<le> line_amount it" using nn by (simp add: line_amount_nonneg)
  have s0: "0 \<le> subtotal its" using nn by (intro subtotal_nonneg_items) (simp add: list_all_iff)
  have sub: "subtotal (its @ [it]) = subtotal its + line_amount it" by (simp add: subtotal_append)
  have sb: "subtotal its < 2 ^ 53" "line_amount it < 2 ^ 53" using snoc.prems(2) sub l0 s0 by linarith+
  have s: "subtotal_f its = Some (subtotal its)" using snoc.IH snoc.prems(1) sb(1) by simp
  have pi: "price it = of_int \<lfloor>price it\<rfloor>" "0 \<le> quantity it" "quantity it < 2 ^ 53" using snoc.prems(1) by simp_all
  have "\<bar>of_int (quantity it) :: rat\<bar> < 2 ^ 53"
  proof -
    have "(of_int (quantity it) :: rat) < of_int (2 ^ 53)" using pi(3) by (simp only: of_int_less_iff)
    then show ?thesis using pi(2) by simp
  qed
  then have q: "to_double (of_int (quantity it)) = Some (of_int (quantity it))" by (intro to_double_intval) simp
  have li: "line_amount it = of_int \<lfloor>line_amount it\<rfloor>" unfolding line_amount_def using pi(1) by (rule int_val_mult)
  have v: "line_amount_f it = Some (line_amount it)"
    using q to_double_intval [OF li] sb(2) l0 by (simp add: line_amount_f_def f_mul_def line_amount_def)
  have si: "subtotal its = of_int \<lfloor>subtotal its\<rfloor>"
    using snoc.prems(1) by (intro subtotal_intval) (simp add: list_all_iff)
  have "to_double (subtotal its + line_amount it) = Some (subtotal its + line_amount it)"
    using to_double_intval [OF int_val_add [OF si li]] snoc.prems(2) sub s0 l0 by simp
  then show ?case using s v sub by (simp add: subtotal_f_snoc f_add_def)
qed

lemma those_parse_integers:
  "list_all (\<lambda>it. price it = of_int \<lfloor>price it\<rfloor> \<and> 0 \<le> price it \<and> price it < 2 ^ 53) its \<Longrightarrow>
   those (map parse_item its) = Some its"
proof (induction its)
  case (Cons it its)
  then have "to_double (price it) = Some (price it)" by (intro to_double_intval) simp_all
  with Cons show ?case by (simp add: parse_item_def)
qed simp

text \<open>C23: on whole-number prices and shipping, the code's float arithmetic is
  exact: when the exact total stays below \<open>2^53\<close>, pydantic's parsing keeps
  every price and the float total of \<open>create_order\<close> equals the exact total.\<close>

theorem total_f_integers:
  assumes "list_all (\<lambda>it. price it = of_int \<lfloor>price it\<rfloor> \<and> 0 \<le> price it \<and> price it < 2 ^ 53 \<and>
                        0 \<le> quantity it \<and> quantity it < 2 ^ 53) (items b)"
    and "case shipping b of None \<Rightarrow> True | Some x \<Rightarrow> x = of_int \<lfloor>x\<rfloor> \<and> 0 \<le> x"
    and "total b < 2 ^ 53"
  shows "parse_order b = Some b \<and> total_f b = Some (total b)"
proof -
  let ?sh = "py_or_zero (shipping b)"
  have nn: "list_all (\<lambda>it. 0 \<le> price it \<and> 0 \<le> quantity it) (items b)"
    using assms(1) by (simp add: list_all_iff)
  have s0: "0 \<le> subtotal (items b)" using nn by (intro subtotal_nonneg_items) (simp add: list_all_iff)
  have shi: "?sh = of_int \<lfloor>?sh\<rfloor> \<and> 0 \<le> ?sh"
    using assms(2) by (cases "shipping b") (auto simp: py_or_zero_def)
  have sb: "subtotal (items b) < 2 ^ 53" "?sh < 2 ^ 53" using assms(3) s0 shi by (simp_all add: total_def)
  have its: "those (map parse_item (items b)) = Some (items b)"
    using assms(1) by (intro those_parse_integers) (simp add: list_all_iff)
  have "(case shipping b of None \<Rightarrow> Some None | Some x \<Rightarrow> map_option Some (to_double x)) = Some (shipping b)"
  proof (cases "shipping b")
    case (Some x)
    then have "x = of_int \<lfloor>x\<rfloor>" "0 \<le> x" "x < 2 ^ 53"
      using assms(2) sb(2) by (auto simp: py_or_zero_def split: if_splits)
    then show ?thesis using Some to_double_intval [of x] by simp
  qed simp
  with its have p: "parse_order b = Some b" by (simp add: parse_order_def)
  have st: "subtotal_f (items b) = Some (subtotal (items b))"
    using assms(1) sb(1) by (intro subtotal_f_integers) (simp_all add: list_all_iff)
  have "subtotal (items b) = of_int \<lfloor>subtotal (items b)\<rfloor>"
    using assms(1) by (intro subtotal_intval) (simp add: list_all_iff)
  then have "to_double (total b) = Some (total b)"
    using to_double_intval int_val_add [OF _ conjunct1 [OF shi]] assms(3) s0 shi by (simp add: total_def)
  with p st show ?thesis by (simp add: total_f_def f_add_def total_def)
qed

theorem total_f_integers_witness:
  "list_all (\<lambda>it. price it = of_int \<lfloor>price it\<rfloor> \<and> 0 \<le> price it \<and> price it < 2 ^ 53 \<and>
                  0 \<le> quantity it \<and> quantity it < 2 ^ 53)
     [\<lparr>product_id = ''p1'', price = 10 :: rat, quantity = 2\<rparr>, \<lparr>product_id = ''p2'', price = 5, quantity = 1\<rparr>] \<and>
   total \<lparr>items = [\<lparr>product_id = ''p1'', price = 10 :: rat, quantity = 2\<rparr>, \<lparr>product_id = ''p2'', price = 5, quantity = 1\<rparr>],
          shipping = Some 3\<rparr> < 2 ^ 53 \<and>
   total_f \<lparr>items = [\<lparr>product_id = ''p1'', price = 10, quantity = 2\<rparr>, \<lparr>product_id = ''p2'', price = 5, quantity = 1\<rparr>],
          shipping = Some 3\<rparr> = Some 28"
  using total_f_integers [of "\<lparr>items = [\<lparr>product_id = ''p1'', price = 10, quantity = 2\<rparr>, \<lparr>product_id = ''p2'', price = 5, quantity = 1\<rparr>],
          shipping = Some 3\<rparr>"]
  by (simp add: total_def subtotal_def line_amount_def py_or_zero_def)

end
