(* ===== verification/Spec2Isabelle.thy ===== *)
theory Spec2Isabelle
  imports Interleaving Server Catalogue Float_Range
begin

text \<open>
  \<^bold>\<open>A verification development of the e-commerce backend \<open>src/main.py\<close>.\<close>

  \<^emph>\<open>The program.\<close> A FastAPI application with six endpoints over a MongoDB
  database: \<open>GET /\<close> (\<open>read_root\<close>), \<open>GET /api/products\<close>
  (\<open>list_products\<close>: a filter built from \<open>category\<close> and the free-text \<open>q\<close>,
  passed to \<open>get_documents\<close>), \<open>POST /api/products\<close> (\<open>create_product\<close>:
  \<open>create_document\<close>), \<open>GET /api/products/{product_id}\<close> (\<open>get_product\<close>:
  \<open>ObjectId(product_id)\<close> and \<open>find_one\<close>), \<open>POST /api/orders\<close>
  (\<open>create_order\<close>: server-side subtotal and total, then \<open>create_document\<close>)
  and the diagnostic \<open>GET /test\<close>. Every handler body is wrapped in
  \<open>try ... except Exception as e: raise HTTPException(500, str(e))\<close>. The handlers
  share no state but the database; \<open>database.py\<close> and \<open>schemas.py\<close> are
  imported by \<open>main.py\<close> but are not part of \<open>src/\<close>.

  \<^emph>\<open>Two arithmetics.\<close> The code computes order totals with Python floats.
  The store model (\<open>Pricing\<close>, \<open>Api\<close>, \<open>App\<close>, \<open>Catalogue\<close>) records them
  as the exact sums of the validated prices (the doubles pydantic read) and
  states nothing about their values beyond where they are stored; theories
  \<open>Float\<close> and \<open>Float_Range\<close> compute them as the code does, each operation
  rounded to the nearest double, and prove how far that is from the spec's
  decimal total. \<open>sum()\<close> is the left fold of CPython up to 3.11; CPython 3.12
  sums floats with compensated summation, which these theories do not model.

  \<^emph>\<open>The theories.\<close>
  \<^item> \<open>Prelude\<close>: Python built-ins (\<open>sum\<close> as a left fold, \<open>x or 0\<close>,
    truthiness of optional strings, \<open>dict\<close> as an association list with
    \<open>dict_get\<close>/\<open>dict_set\<close>, \<open>str\<close> of a natural number and the value of a
    digit string), ASCII case folding and \<open>ci_contains\<close>, the
    case-insensitive substring test of the spec.
  \<^item> \<open>ObjectId\<close>: the store's identifier as a \<open>96 word\<close>, its 24-digit
    hexadecimal \<open>str\<close> (\<open>oid_str\<close>), \<open>bytes.fromhex\<close> (\<open>py_fromhex\<close>), the
    constructor \<open>ObjectId(s)\<close> (\<open>oid_parse\<close>, the twelve-byte case) and its
    \<open>InvalidId\<close> message built with Python's \<open>repr\<close> (\<open>py_repr\<close>).
  \<^item> \<open>Json\<close>: the values of bodies and stored documents (\<open>bson\<close>; a float
    is a finite rational), documents as association lists, \<open>str\<close> of an
    \<open>_id\<close>, and \<open>json_val\<close>, the values without ObjectId that a request body
    can hold.
  \<^item> \<open>Regex\<close>: the store's \<open>$regex\<close> for the PCRE2 fragment of literals,
    escapes, character classes and \<open>\d \w \s\<close>, \<open>.\<close>, anchors, groups,
    alternation, \<open>* + ? {m,n}\<close>, their lazy forms and the possessive \<open>*+ ++\<close>
    of a one-character item: an inductive match relation \<open>mt\<close>, an executable
    matcher \<open>ends\<close> proved equal to it, the unanchored search \<open>rx_find\<close>, and
    the pattern parser \<open>rx_compile\<close> with PCRE2's syntax-error texts (MongoDB
    6.1 and later compile with PCRE2).
  \<^item> \<open>Store\<close>: the Document Store Gateway: a \<open>store\<close> record (initialised,
    online, collections of documents in insertion order, ObjectId counter,
    database name), pymongo's exceptions and their \<open>str\<close>, filter compilation
    and matching with MongoDB's semantics for equality, \<open>$regex\<close> and
    \<open>$or\<close>, \<open>get_documents\<close> with \<open>cursor.limit\<close>, \<open>find_one\<close>,
    \<open>insert_one\<close>, \<open>create_document\<close>; the store invariant (every document
    starts with a fresh ObjectId) and its preservation by inserts.
  \<^item> \<open>QueryBuilder\<close>: \<open>build_filter\<close> (lines 38--47) and the spec's contract
    \<open>product_selected\<close> (exact category equality, case-insensitive
    containment); the compiled filter selects exactly those products for
    non-empty parameters without metacharacters.
  \<^item> \<open>Pricing\<close>: \<open>line_amount\<close>, \<open>subtotal\<close>, \<open>total\<close> (lines 82--83),
    generic in the number type, in Python's evaluation order.
  \<^item> \<open>Api\<close>: the handlers as functions of the store returning the response and
    the new store, with the \<open>except\<close> clause as \<open>raise_500\<close>; the order
    payload with Python's \<open>int\<close>/\<open>float\<close> distinction of the totals, and the
    diagnostic \<open>test_database\<close> (C1--C4, C8).
  \<^item> \<open>App\<close>: the running server as a state machine: a \<open>request\<close> per
    endpoint, \<open>handle\<close> dispatching it to its handler (the route decorators),
    and the inductive set \<open>reachable\<close> of stores obtained from a fresh, empty
    database by any sequence of JSON requests and of changes in the
    database's availability; the store invariant holds in every reachable
    store (rule induction over \<open>reachable\<close>) (C9--C11, C17, C18, C22).
  \<^item> \<open>Interleaving\<close>: sequences of requests (\<open>run_requests\<close> for the
    store, \<open>serve\<close> for the responses and the store) and the multiset of
    stored documents per collection (C16, C21).
  \<^item> \<open>Catalogue\<close>: the spec's abstract catalogue (products and submitted
    orders, \<open>spec_step\<close>), the abstraction \<open>abs_store\<close> that decodes the
    stored documents, and the refinement theorem (C19).
  \<^item> \<open>Float\<close>: the code's totals with Python floats: \<open>to_double\<close>, the
    IEEE 754 binary64 value nearest to a rational (ties to even; \<open>None\<close>
    outside the normal range), prices parsed as doubles (\<open>parse_order\<close>), the
    rounded products and sums \<open>line_amount_f\<close>, \<open>subtotal_f\<close>,
    \<open>total_f\<close> of lines 82--83; the error of each rounding and its
    accumulation over the left fold; the double of \<open>3 * 0.1\<close> as an example.
  \<^item> \<open>Float_Range\<close>: when the float total exists and how close it is (C20),
    and its exactness on whole-number prices (C23).
  \<^item> \<open>Server\<close>: the \<open>__main__\<close> block (lines 130--133): \<open>PORT\<close> through
    Python's \<open>int()\<close> (\<open>py_int\<close>) and the host and port given to uvicorn
    (C14, C15).
  \<^item> this theory: properties that span the query builder, the store, the regex
    engine and the identifiers (C5--C7, C12, C13).

  \<^emph>\<open>What the theorems show.\<close> Creating an order on a live store answers 201
  with the fresh id and stores the order payload in the order collection,
  whatever the quantities and prices (C1). A well-formed id that no product
  has is answered with 500 \<open>404: Product not found\<close>, not 404 (C2); an id
  that is not 24 characters or not hexadecimal is answered with 500 and bson's
  \<open>InvalidId\<close> message (C3); an empty category is ignored (C4). For non-empty
  parameters without regex metacharacters the listing is exactly the products
  of the spec's contract (C5). A created product can be fetched back by the id
  the API returned (C6). The search term is a regular expression: a term PCRE
  rejects is a server error (C7); for every term the store compiles the listing
  is exactly the products whose fields match it under PCRE semantics (C12), so
  \<open>x*+x\<close> lists nothing (C13). \<open>GET /test\<close> reports the connection from the
  database state and only whether the environment variables are set (C8).
  Over every reachable store, every listed product can be fetched by the id
  the listing shows, with the same JSON (C9); every request leaves each
  collection unchanged or appends one document with the fresh id (C10); the
  limit acts by its absolute value, 0 meaning no limit (C11), and bounds the
  listing (C17); every request is answered with 200, 201 or 500, never 404
  (C18). \<open>int(str(i)) = i\<close> gives the port, 8000 by default (C14); a malformed
  \<open>PORT\<close> aborts start-up with \<open>ValueError\<close> (C15). Serving the same
  requests in any order stores the same documents (C16), and while the
  database is up every product submission is answered 201 and stored in order
  (C21). Every request changes the stored catalogue as the spec's abstract step
  does: products with the fields posted and orders with the items and shipping
  submitted, once each and in order (C19). With the code's floats the total of
  an order of up to 996 items, prices 0 or at least \<open>0.001\<close> and decimal
  total up to \<open>10^9\<close> always exists and is within \<open>1/2000\<close> of the decimal
  total (C20), and it is exact for whole-number prices below \<open>2^53\<close> (C23).
  Without an initialised database the four endpoints that use it answer 500
  and change nothing (C22).

  \<^emph>\<open>Bounds.\<close> ObjectIds come from a counter below \<open>2^96\<close>; the invariant
  and the round trip assume fewer than \<open>2^96\<close> inserts, which is what makes the
  counter a faithful stand-in for MongoDB's unique identifiers. No fuel is
  used: the regex matcher terminates by a measure on the pattern and the
  position. Float: a double's rounding error is at most \<open>|x| / 2^53\<close>; an
  order of \<open>n\<close> items accumulates at most \<open>n + 4\<close> such factors (parsing, the
  product, the \<open>n\<close> additions, the shipping), and \<open>n \<le> 996\<close> keeps
  \<open>(n + 4) / 2^53\<close> small enough for the first-order bounds \<open>pow_lower\<close> and
  \<open>pow_upper\<close>; \<open>10^9 \<cdot> 1000 / 2^53 < 1/4000\<close>. The lower bound \<open>0.001\<close>
  on nonzero prices keeps every intermediate value above \<open>2^-10\<close>, far from
  the subnormal range, and the bounds on the total and the quantities keep it
  below \<open>2^40\<close>, far from overflow.

  \<^emph>\<open>Not modelled.\<close> The CORS middleware (lines 13--19: the behaviour is
  Starlette's, configured with constants); the socket binding inside
  \<open>uvicorn.run\<close>; pydantic's request validation (a 422 before the handler):
  \<open>schemas.py\<close> is not part of the repository and the spec names the fields
  but not their types or coercions, so the handlers take validated bodies
  (\<open>rat order_body\<close>, a document for a product) and JSON request bodies are
  an assumption of the reachable states (\<open>req_json\<close>); infinite and NaN floats
  (a float overflow in \<open>create_order\<close> gives \<open>inf\<close>, which the response
  encoder rejects; \<open>to_double\<close> answers \<open>None\<close> there, and the store model's
  exact totals never overflow), and subnormal doubles; CPython 3.12's
  compensated \<open>sum()\<close>; the cluster-time fields of a replica set's error
  reply; an \<open>ObjectId\<close> built from a 24-character string with whitespace
  (fewer than twelve bytes: reported as \<open>Unmodelled\<close>); Unicode case folding
  (ASCII folding); regex syntax outside the fragment (back references, POSIX
  classes, other letter escapes, group extensions: reported as
  \<open>Unmodelled\<close>); non-ASCII text; client-supplied \<open>_id\<close> fields; truly
  concurrent requests (the model serves them one after the other, which is
  faithful because each handler makes at most one store access, and their
  order does not change what is stored, C16). The program has no loop of its
  own, and the matcher's termination is the termination proof of its
  definition; the progress claim (C21) is over finite request sequences.
\<close>

section \<open>Listing products\<close>

text \<open>
  C5: on an initialised, online store, \<open>GET /api/products\<close> with a
  non-empty search term free of regex metacharacters and a non-empty category
  (or none) answers 200 with exactly the stored products that satisfy the
  spec's contract (category equality, case-insensitive containment in title,
  description or category), in insertion order, cut by the limit. For an empty
  category the contract and the code differ (C4).
\<close>

theorem list_products_selects:
  assumes "db_ready s" and "online s" and "pred_option literal_pattern q"
    and "category \<noteq> Some []" and "q \<noteq> Some []"
  shows "list_products s category q n =
         Ok 200 (VDoc [(''items'', VList (map (\<lambda>p. VDoc (stringify_id p))
            (mongo_limit n (filter (product_selected category q) (coll_docs s ''product'')))))])"
proof -
  have "\<forall>t. q = Some t \<longrightarrow> literal_pattern t" using assms(3) by (cases q) auto
  then obtain qs where c: "compile_filter (build_filter category q) = Inr qs"
    using filter_match_build_filter assms(4,5) by blast
  have "filter (filter_match qs) ds = filter (product_selected category q) ds" for ds
    using build_filter_match [OF assms(3,4,5) c] by (induction ds) auto
  then show ?thesis
    using assms c by (simp add: list_products_def list_products_body_def get_documents_def raise_500_def)
qed

theorem list_products_selects_witness:
  "db_ready \<lparr>db_ready = True, online = True, colls = [(''product'', [[(''_id'', VOid 0), (''title'', VStr ''Mug''), (''category'', VStr ''kitchen'')]])], next_id = 1, db_name = ''shop''\<rparr> \<and> online \<lparr>db_ready = True, online = True, colls = [(''product'', [[(''_id'', VOid 0), (''title'', VStr ''Mug''), (''category'', VStr ''kitchen'')]])], next_id = 1, db_name = ''shop''\<rparr> \<and> pred_option literal_pattern (Some ''UG'') \<and>
   Some ''kitchen'' \<noteq> Some [] \<and> Some ''UG'' \<noteq> Some [] \<and>
   list_products \<lparr>db_ready = True, online = True, colls = [(''product'', [[(''_id'', VOid 0), (''title'', VStr ''Mug''), (''category'', VStr ''kitchen'')]])], next_id = 1, db_name = ''shop''\<rparr> (Some ''kitchen'') (Some ''UG'') 50 =
     Ok 200 (VDoc [(''items'', VList (map (\<lambda>p. VDoc (stringify_id p))
        (mongo_limit 50 (filter (product_selected (Some ''kitchen'') (Some ''UG''))
           (coll_docs \<lparr>db_ready = True, online = True, colls = [(''product'', [[(''_id'', VOid 0), (''title'', VStr ''Mug''), (''category'', VStr ''kitchen'')]])], next_id = 1, db_name = ''shop''\<rparr> ''product'')))))])"
  using list_products_selects [of "\<lparr>db_ready = True, online = True, colls = [(''product'', [[(''_id'', VOid 0), (''title'', VStr ''Mug''), (''category'', VStr ''kitchen'')]])], next_id = 1, db_name = ''shop''\<rparr>" "Some ''UG''" "Some ''kitchen''" 50]
  by (simp add: literal_pattern_def meta_chars_def)

text \<open>
  C7: the search term is handed to the store as a regular expression: for
  every term that PCRE rejects with a syntax error, on every initialised and
  online store, with or without a category, \<open>GET /api/products\<close> answers
  500 with the server's "Regular expression is invalid" message followed by
  pymongo's ", full error: ..." details, where the spec asks for a literal
  substring search.
\<close>

theorem list_products_invalid_pattern:
  assumes "db_ready s" and "online s" and "rx_compile t = Inl (RxSyntax m)"
    and "CHR 0x00 \<notin> set t" and "t \<noteq> []"
  shows "\<exists>details. list_products s category (Some t) n =
           Err 500 (''Regular expression is invalid: '' @ m @ '', full error: '' @ details)"
  using assms compile_filter_syntax [OF assms(3-5), of category]
  by (simp add: list_products_def list_products_body_def get_documents_def raise_500_def)

theorem list_products_invalid_pattern_witness:
  "db_ready \<lparr>db_ready = True, online = True, colls = [], next_id = 0, db_name = ''shop''\<rparr> \<and>
   online \<lparr>db_ready = True, online = True, colls = [], next_id = 0, db_name = ''shop''\<rparr> \<and>
   rx_compile ''('' = Inl (RxSyntax ''missing closing parenthesis'') \<and> CHR 0x00 \<notin> set ''('' \<and> ''('' \<noteq> [] \<and>
   (\<exists>details. list_products \<lparr>db_ready = True, online = True, colls = [], next_id = 0, db_name = ''shop''\<rparr>
      None (Some ''('') 50 = Err 500 (''Regular expression is invalid: missing closing parenthesis, full error: '' @ details))"
proof -
  have c: "rx_compile ''('' = Inl (RxSyntax ''missing closing parenthesis'')" by (simp add: rx_compile_def)
  show ?thesis
    using list_products_invalid_pattern [OF _ _ c, of "\<lparr>db_ready = True, online = True, colls = [], next_id = 0, db_name = ''shop''\<rparr>" None 50] c
    by simp
qed

section \<open>Creating and fetching a product\<close>

text \<open>
  C6: after \<open>POST /api/products\<close> answers 201 with an identifier, \<open>GET
  /api/products/{id}\<close> with that identifier answers 200 with the product as it
  was stored, its \<open>_id\<close> the same identifier as a string.
\<close>

theorem create_product_get_roundtrip:
  assumes inv: "store_inv s" and "db_ready s" and "online s" and room: "next_id s < 2 ^ 96"
    and noid: "\<not> dict_has body ''_id''"
  shows "\<exists>pid s'. create_product s body = (Ok 201 (VDoc [(''id'', VStr pid)]), s') \<and>
                   get_product s' pid = Ok 200 (VDoc ((''_id'', VStr pid) # body))"
proof -
  let ?x = "word_of_nat (next_id s) :: oid"
  let ?s' = "s\<lparr>colls := dict_set (colls s) ''product'' (coll_docs s ''product'' @ [(''_id'', VOid ?x) # body]),
                next_id := Suc (next_id s)\<rparr>"
  have cp: "create_product s body = (Ok 201 (VDoc [(''id'', VStr (oid_str ?x))]), ?s')"
    using assms by (simp add: create_product_def create_document_Inr)
  have old: "\<forall>d \<in> set (coll_docs s ''product''). doc_ok (next_id s) d"
    using inv by (auto intro: store_inv_docs)
  have "find (filter_match [QField ''_id'' (CEq (VOid ?x))]) (coll_docs ?s' ''product'') =
        Some ((''_id'', VOid ?x) # body)"
    using find_new_id [OF old room, of body] by (simp add: coll_docs_set)
  moreover have "oid_parse (oid_str ?x) = Some ?x" by (rule oid_parse_oid_str)
  ultimately have "get_product ?s' (oid_str ?x) = Ok 200 (VDoc ((''_id'', VStr (oid_str ?x)) # body))"
    using assms by (simp add: get_product_def get_product_body_def raise_500_def find_one_def
        stringify_id_stored)
  with cp show ?thesis by blast
qed

theorem create_product_get_roundtrip_witness:
  "store_inv \<lparr>db_ready = True, online = True, colls = [], next_id = 0, db_name = ''shop''\<rparr> \<and> db_ready \<lparr>db_ready = True, online = True, colls = [], next_id = 0, db_name = ''shop''\<rparr> \<and> online \<lparr>db_ready = True, online = True, colls = [], next_id = 0, db_name = ''shop''\<rparr> \<and> next_id \<lparr>db_ready = True, online = True, colls = [], next_id = 0, db_name = ''shop''\<rparr> < 2 ^ 96 \<and>
   \<not> dict_has [(''title'', VStr ''Mug''), (''category'', VStr ''kitchen'')] ''_id'' \<and>
   (\<exists>pid s'. create_product \<lparr>db_ready = True, online = True, colls = [], next_id = 0, db_name = ''shop''\<rparr> [(''title'', VStr ''Mug''), (''category'', VStr ''kitchen'')] =
        (Ok 201 (VDoc [(''id'', VStr pid)]), s') \<and>
      get_product s' pid = Ok 200 (VDoc ((''_id'', VStr pid) # [(''title'', VStr ''Mug''), (''category'', VStr ''kitchen'')])))"
  using create_product_get_roundtrip [of "\<lparr>db_ready = True, online = True, colls = [], next_id = 0, db_name = ''shop''\<rparr>" "[(''title'', VStr ''Mug''), (''category'', VStr ''kitchen'')]"]
  by (simp add: store_inv_def dict_has_def)

section \<open>Search terms that are not literal\<close>

text \<open>
  C12: for every search term that the store compiles, \<open>GET /api/products\<close>
  answers 200 with the stored products, in insertion order and cut by the limit,
  that satisfy the category condition and in one of title, description and
  category hold a string (or an array with a string) in which the term's regular
  expression has a match, case-insensitively, in the sense of the PCRE
  semantics \<open>mt\<close>.
\<close>

theorem list_products_regex_semantics:
  assumes "db_ready s" and "online s" and "rx_compile t = Inr r" and "t \<noteq> []"
  shows "list_products s category (Some t) n =
           Ok 200 (VDoc [(''items'', VList (map (\<lambda>p. VDoc (stringify_id p))
             (mongo_limit n (filter (regex_selected category r) (coll_docs s ''product'')))))]) \<and>
         (regex_selected category r d \<longleftrightarrow>
           (case category of Some c \<Rightarrow> c = [] \<or> eq_match (VStr c) (dict_get d ''category'') | None \<Rightarrow> True) \<and>
           (\<exists>f \<in> set search_fields. \<exists>u.
              (dict_get d f = Some (VStr u) \<or> (\<exists>ys. dict_get d f = Some (VList ys) \<and> VStr u \<in> set ys)) \<and>
              (\<exists>i \<le> length u. \<exists>j. mt True r u i j)))"
  using list_products_regex [OF assms]
  by (simp add: regex_selected_def regex_match_mt list_ex_iff)

theorem list_products_regex_semantics_witness:
  "db_ready shop_one \<and> online shop_one \<and>
   rx_compile ''m.g'' = Inr (RSeq (RLit CHR ''m'') (RSeq RAny (RSeq (RLit CHR ''g'') REps))) \<and> ''m.g'' \<noteq> [] \<and>
   list_products shop_one None (Some ''m.g'') 50 =
     Ok 200 (VDoc [(''items'', VList (map (\<lambda>p. VDoc (stringify_id p))
       (mongo_limit 50 (filter (regex_selected None (RSeq (RLit CHR ''m'') (RSeq RAny (RSeq (RLit CHR ''g'') REps))))
          (coll_docs shop_one ''product'')))))]) \<and>
   (regex_selected None (RSeq (RLit CHR ''m'') (RSeq RAny (RSeq (RLit CHR ''g'') REps))) [(''title'', VStr ''Mug'')] \<longleftrightarrow>
      (case (None :: string option) of Some c \<Rightarrow> c = [] \<or> eq_match (VStr c) (dict_get [(''title'', VStr ''Mug'')] ''category'') | None \<Rightarrow> True) \<and>
      (\<exists>f \<in> set search_fields. \<exists>u.
         (dict_get [(''title'', VStr ''Mug'')] f = Some (VStr u) \<or>
          (\<exists>ys. dict_get [(''title'', VStr ''Mug'')] f = Some (VList ys) \<and> VStr u \<in> set ys)) \<and>
         (\<exists>i \<le> length u. \<exists>j. mt True (RSeq (RLit CHR ''m'') (RSeq RAny (RSeq (RLit CHR ''g'') REps))) u i j)))"
proof -
  have c: "rx_compile ''m.g'' = Inr (RSeq (RLit CHR ''m'') (RSeq RAny (RSeq (RLit CHR ''g'') REps)))"
    by (simp add: rx_compile_def close_group_def seq_of_def)
  have s: "db_ready shop_one" "online shop_one" by (simp_all add: shop_one_eq)
  show ?thesis
    using list_products_regex_semantics [OF s c, of None 50 "[(''title'', VStr ''Mug'')]"] s c by simp
qed

text \<open>
  C13: a search term \<open>x*+x\<close>, for any character \<open>x\<close> that is not a
  metacharacter, is a possessive repetition followed by the same character: it
  lists no product at all, with or without a category, whatever the store holds,
  although the spec asks for the products that contain the text \<open>x*+x\<close>.
\<close>

theorem list_products_possessive:
  assumes "db_ready s" and "online s" and "c \<notin> set meta_chars" and "c \<noteq> CHR 0x00"
  shows "list_products s category (Some [c, CHR ''*'', CHR ''+'', c]) n = Ok 200 (VDoc [(''items'', VList [])])"
proof -
  let ?r = "RSeq (RPoss (RLit c)) (RSeq (RLit c) REps)"
  have none: "\<not> rx_find ci ?r u" for ci u
    using poss_no_giveback [where r = "RLit c" and t = REps and ci = ci and s = u] by (simp add: rx_find_iff is_single_def)
  have "\<not> regex_selected category ?r d" for d
  proof -
    have "\<not> regex_match True ?r x" for x using none by (rule regex_match_never)
    then show ?thesis by (simp add: regex_selected_def search_fields_def)
  qed
  then show ?thesis
    using list_products_regex [OF assms(1,2) rx_compile_poss [OF assms(3,4)]]
    by (simp add: mongo_limit_def)
qed

theorem list_products_possessive_witness:
  "db_ready \<lparr>db_ready = True, online = True,
      colls = [(''product'', [[(''_id'', VOid 0), (''title'', VStr ''xxl'')]])], next_id = 1, db_name = ''shop''\<rparr> \<and>
   online \<lparr>db_ready = True, online = True,
      colls = [(''product'', [[(''_id'', VOid 0), (''title'', VStr ''xxl'')]])], next_id = 1, db_name = ''shop''\<rparr> \<and>
   CHR ''x'' \<notin> set meta_chars \<and> CHR ''x'' \<noteq> CHR 0x00 \<and>
   list_products \<lparr>db_ready = True, online = True,
      colls = [(''product'', [[(''_id'', VOid 0), (''title'', VStr ''xxl'')]])], next_id = 1, db_name = ''shop''\<rparr>
     None (Some ''x*+x'') 50 = Ok 200 (VDoc [(''items'', VList [])])"
  using list_products_possessive [of "\<lparr>db_ready = True, online = True,
      colls = [(''product'', [[(''_id'', VOid 0), (''title'', VStr ''xxl'')]])], next_id = 1, db_name = ''shop''\<rparr>"
      "CHR ''x''" None 50]
  by (simp add: meta_chars_def)

end
